(* ===== verification/Authority.thy ===== *)
theory Authority
  imports Kscale_Prelude
begin

text \<open>
  The authority hierarchy of \<open>access/authority.go\<close> and the full names of \<open>access/types.go\<close>.
  Authority objects are linked both ways (a parent pointer and a children map), so they live
  in an explicit heap: a list of nodes, an address being a position in it. A removed child
  keeps its parent pointer, as the Go object does.
\<close>

section \<open>Full names (access/types.go)\<close>

text \<open>
  \<open>FullName.Names\<close> is the list of labels from the root. \<open>String\<close> joins it front to back;
  \<open>CommonName\<close> runs the same loop from the last label to the first (DNS order).
\<close>

fun name_loop :: "string list \<Rightarrow> bool \<Rightarrow> string \<Rightarrow> string" where
  "name_loop [] first result = result"
| "name_loop (n # ns) first result =
     name_loop ns False ((if first then result else result @ ''.'') @ n)"

definition FullName_String :: "string list \<Rightarrow> string" where
  "FullName_String names = name_loop names True []"

definition CommonName :: "string list \<Rightarrow> string" where
  "CommonName names = name_loop (rev names) True []"

datatype name_error = InvalidCommonName string

definition ParseCommonNameToFullNameStrict ::
    "string \<Rightarrow> string \<Rightarrow> (name_error, string list) outcome" where
  "ParseCommonNameToFullNameStrict commonName domain =
     (let commonName = ToLower commonName; domain = ToLower domain in
      if \<not> HasSuffix commonName (''.'' @ domain) then Err (InvalidCommonName commonName)
      else
        let commonName = TrimSuffix commonName (''.'' @ domain) in
        if commonName = [] then Err (InvalidCommonName commonName)
        else
          let parts = Split (CHR ''.'') commonName in
          if parts = [] then Err (InvalidCommonName commonName)
          else Ok (rev parts))"

definition ParseCommonNameToFullName :: "string \<Rightarrow> string \<Rightarrow> string list" where
  "ParseCommonNameToFullName commonName domain =
     (let commonName = ToLower commonName; domain = ToLower domain in
      rev (Split (CHR ''.'') (TrimSuffix commonName (''.'' @ domain))))"

lemma name_loop_False: "name_loop ns False r = r @ concat (map (\<lambda>n. ''.'' @ n) ns)"
  by (induction ns arbitrary: r) auto

lemma Join_dot: "Join (n # ns) ''.'' = n @ concat (map (\<lambda>n. ''.'' @ n) ns)"
  by (induction ns arbitrary: n) auto

lemma name_loop_True: "name_loop ns True [] = Join ns ''.''"
  by (cases ns) (simp_all only: name_loop.simps name_loop_False Join_dot, simp_all)

lemma CommonName_Join: "CommonName ns = Join (rev ns) ''.''"
  by (simp add: CommonName_def name_loop_True)

lemma FullName_String_Join: "FullName_String ns = Join ns ''.''"
  by (simp add: FullName_String_def name_loop_True)

text \<open>A label is well formed when it carries no dot.\<close>

definition dot_free :: "string list \<Rightarrow> bool" where
  "dot_free ns \<longleftrightarrow> (\<forall>n \<in> set ns. CHR ''.'' \<notin> set n)"

lemma Split_CommonName: "ns \<noteq> [] \<Longrightarrow> dot_free ns \<Longrightarrow> Split (CHR ''.'') (CommonName ns) = rev ns"
  unfolding CommonName_Join by (rule Split_Join) (auto simp: dot_free_def)

lemma CommonName_inject:
  assumes "ns \<noteq> []" "ms \<noteq> []" "dot_free ns" "dot_free ms" "CommonName ns = CommonName ms"
  shows "ns = ms"
  using assms by (metis Split_CommonName rev_is_rev_conv)

text \<open>
  The descendant test of the policies compares common names as text: an authority's common
  name ends in a dot and another's common name exactly when it is a proper descendant.
\<close>

lemma CommonName_Cons: "ns \<noteq> [] \<Longrightarrow> CommonName (r # ns) = CommonName ns @ ''.'' @ r"
  by (simp add: CommonName_Join Join_append)

lemma Split_CommonName_Cons:
  "dot_free ns \<Longrightarrow> Split (CHR ''.'') (CommonName (r # ns)) = rev ns @ Split (CHR ''.'') r"
  by (cases "ns = []")
    (simp add: CommonName_def, simp add: CommonName_Cons Split_append Split_CommonName)

lemma CommonName_suffix_iff:
  assumes u: "dot_free u" and a: "dot_free a"
  shows "HasSuffix (CommonName (r # u)) (''.'' @ CommonName (r # a)) \<longleftrightarrow> strict_prefix a u"
proof
  assume "HasSuffix (CommonName (r # u)) (''.'' @ CommonName (r # a))"
  then obtain z where z: "CommonName (r # u) = z @ CHR ''.'' # CommonName (r # a)"
    by (auto simp: HasSuffix_def suffix_def)
  have "rev u @ Split (CHR ''.'') r = (Split (CHR ''.'') z @ rev a) @ Split (CHR ''.'') r"
    using arg_cong [OF z, of "Split (CHR ''.'')"] u a
    by (simp add: Split_append Split_CommonName_Cons)
  then have "rev u = Split (CHR ''.'') z @ rev a" by (simp only: append_same_eq)
  then have "u = a @ rev (Split (CHR ''.'') z)" by (metis rev_append rev_rev_ident)
  then show "strict_prefix a u"
    using Split_nonempty [of "CHR ''.''" z] by (auto simp: strict_prefix_def)
next
  assume "strict_prefix a u"
  then obtain b where b: "u = a @ b" "b \<noteq> []"
    by (auto simp: strict_prefix_def prefix_def)
  then have "CommonName (r # u) = CommonName b @ ''.'' @ CommonName (r # a)"
    by (simp add: CommonName_Join Join_append)
  then show "HasSuffix (CommonName (r # u)) (''.'' @ CommonName (r # a))"
    by (simp add: HasSuffix_def suffix_def)
qed

section \<open>The authority tree (access/authority.go)\<close>

datatype authority_node =
    leafAuthority (an_name: string) (an_parent: "nat option")
  | intermediateAuthority (an_name: string) (an_parent: "nat option")
      (an_children: "(string \<times> nat) list")
  where "an_children (leafAuthority n p) = []"

type_synonym authority_heap = "authority_node list"

datatype authority_error =
    LeafHasNoChildren string
  | ChildNotFound string
  | HasExistingChildren string
  | CannotCreateChild string
  | DuplicateName string
  | CannotRemoveRoot
  | ParentNotFound "string list"

definition NewRootAuthority :: "string \<Rightarrow> authority_heap" where
  "NewRootAuthority nm = [intermediateAuthority nm None []]"

fun IsLeaf :: "authority_node \<Rightarrow> bool" where
  "IsLeaf (leafAuthority _ _) = True"
| "IsLeaf (intermediateAuthority _ _ _) = False"

definition GetChild :: "authority_heap \<Rightarrow> nat \<Rightarrow> string \<Rightarrow> nat option" where
  "GetChild h a nm =
     (case h ! a of
        leafAuthority _ _ \<Rightarrow> None
      | intermediateAuthority _ _ children \<Rightarrow> map_of children nm)"

definition Children :: "authority_heap \<Rightarrow> nat \<Rightarrow> nat list" where
  "Children h a =
     (case h ! a of
        leafAuthority _ _ \<Rightarrow> []
      | intermediateAuthority _ _ children \<Rightarrow> map snd children)"

definition RemoveChild ::
    "authority_heap \<Rightarrow> nat \<Rightarrow> string \<Rightarrow> (authority_error, authority_heap) outcome" where
  "RemoveChild h a nm =
     (case h ! a of
        leafAuthority n _ \<Rightarrow> Err (LeafHasNoChildren n)
      | intermediateAuthority n p children \<Rightarrow>
          (case map_of children nm of
             None \<Rightarrow> Err (ChildNotFound nm)
           | Some c \<Rightarrow>
               if length (Children h c) > 0 then Err (HasExistingChildren nm)
               else Ok (h[a := intermediateAuthority n p (AList.delete nm children)])))"

definition insert_child ::
    "authority_heap \<Rightarrow> nat \<Rightarrow> string \<Rightarrow> authority_node \<Rightarrow>
       (authority_error, authority_heap \<times> nat) outcome" where
  "insert_child h a nm child =
     (case h ! a of
        leafAuthority n _ \<Rightarrow> Err (CannotCreateChild n)
      | intermediateAuthority n p children \<Rightarrow>
          (case map_of children nm of
             Some _ \<Rightarrow> Err (DuplicateName nm)
           | None \<Rightarrow>
               Ok (h[a := intermediateAuthority n p (AList.update nm (length h) children)] @ [child],
                   length h)))"

definition CreateChild ::
    "authority_heap \<Rightarrow> nat \<Rightarrow> string \<Rightarrow> (authority_error, authority_heap \<times> nat) outcome" where
  "CreateChild h a nm = insert_child h a nm (intermediateAuthority nm (Some a) [])"

definition CreateLeafChild ::
    "authority_heap \<Rightarrow> nat \<Rightarrow> string \<Rightarrow> (authority_error, authority_heap \<times> nat) outcome" where
  "CreateLeafChild h a nm = insert_child h a nm (leafAuthority nm (Some a))"

text \<open>\<open>FullName\<close> follows parent pointers; \<open>None\<close> stands for a walk that never ends.\<close>

partial_function (option) FullName :: "authority_heap \<Rightarrow> nat \<Rightarrow> string list option" where
  "FullName h a =
     (case an_parent (h ! a) of
        None \<Rightarrow> Some [an_name (h ! a)]
      | Some p \<Rightarrow> Option.bind (FullName h p) (\<lambda>ns. Some (ns @ [an_name (h ! a)])))"

text \<open>The operations of the root (address 0) on a path of labels.\<close>

fun GetDescendant_from :: "authority_heap \<Rightarrow> nat \<Rightarrow> string list \<Rightarrow> nat option" where
  "GetDescendant_from h current [] = Some current"
| "GetDescendant_from h current (nm # names) =
     (case GetChild h current nm of
        None \<Rightarrow> None
      | Some child \<Rightarrow> GetDescendant_from h child names)"

definition GetDescendant :: "authority_heap \<Rightarrow> string list \<Rightarrow> nat option" where
  "GetDescendant h names = GetDescendant_from h 0 names"

fun CreateDescendant_from ::
    "authority_heap \<Rightarrow> nat \<Rightarrow> string list \<Rightarrow> (authority_error, authority_heap \<times> nat) outcome" where
  "CreateDescendant_from h current [] = Ok (h, current)"
| "CreateDescendant_from h current (nm # names) =
     (case GetChild h current nm of
        Some child \<Rightarrow> CreateDescendant_from h child names
      | None \<Rightarrow>
          bind_outcome (CreateChild h current nm)
            (\<lambda>(h', child). CreateDescendant_from h' child names))"

definition CreateDescendant ::
    "authority_heap \<Rightarrow> string list \<Rightarrow> (authority_error, authority_heap \<times> nat) outcome" where
  "CreateDescendant h names = CreateDescendant_from h 0 names"

fun CreateLeafDescendant_from ::
    "authority_heap \<Rightarrow> bool \<Rightarrow> nat \<Rightarrow> string list \<Rightarrow>
       (authority_error, authority_heap \<times> nat) outcome" where
  "CreateLeafDescendant_from h makeParent current [] = Ok (h, current)"
| "CreateLeafDescendant_from h makeParent current (nm # names) =
     (case GetChild h current nm of
        Some child \<Rightarrow> CreateLeafDescendant_from h makeParent child names
      | None \<Rightarrow>
          if names = [] then
            bind_outcome (CreateLeafChild h current nm)
              (\<lambda>(h', child). CreateLeafDescendant_from h' makeParent child names)
          else if \<not> makeParent then Err (CannotCreateChild (an_name (h ! current)))
          else
            bind_outcome (CreateChild h current nm)
              (\<lambda>(h', child). CreateLeafDescendant_from h' makeParent child names))"

definition CreateLeafDescendant ::
    "authority_heap \<Rightarrow> string list \<Rightarrow> bool \<Rightarrow>
       (authority_error, authority_heap \<times> nat) outcome" where
  "CreateLeafDescendant h names makeParent = CreateLeafDescendant_from h makeParent 0 names"

definition RemoveDescendant ::
    "authority_heap \<Rightarrow> string list \<Rightarrow> (authority_error, authority_heap) outcome" where
  "RemoveDescendant h names =
     (if names = [] then Err CannotRemoveRoot
      else
        let parentNames = butlast names; childName = last names in
        case GetDescendant h parentNames of
          None \<Rightarrow> Err (ParentNotFound parentNames)
        | Some parent \<Rightarrow> RemoveChild h parent childName)"

section \<open>Well-formed trees\<close>

definition authority_ok :: "authority_heap \<Rightarrow> bool" where
  "authority_ok h \<longleftrightarrow>
     h \<noteq> [] \<and> an_parent (h ! 0) = None \<and> \<not> IsLeaf (h ! 0) \<and>
     (\<forall>a < length h.
        map_ok (an_children (h ! a)) \<and>
        (\<forall>(n, c) \<in> set (an_children (h ! a)).
           c < length h \<and> an_parent (h ! c) = Some a \<and> an_name (h ! c) = n) \<and>
        (\<forall>p. an_parent (h ! a) = Some p \<longrightarrow> p < a))"

lemma authority_okD:
  assumes "authority_ok h"
  shows "0 < length h" "an_parent (h ! 0) = None" "\<not> IsLeaf (h ! 0)"
    and "a < length h \<Longrightarrow> map_ok (an_children (h ! a))"
    and "a < length h \<Longrightarrow> (n, c) \<in> set (an_children (h ! a)) \<Longrightarrow>
           c < length h \<and> an_parent (h ! c) = Some a \<and> an_name (h ! c) = n"
    and "a < length h \<Longrightarrow> an_parent (h ! a) = Some p \<Longrightarrow> p < a"
  using assms unfolding authority_ok_def by auto

lemma GetChild_children: "GetChild h a nm = map_of (an_children (h ! a)) nm"
  by (cases "h ! a") (simp_all add: GetChild_def)

lemma Children_children: "Children h a = map snd (an_children (h ! a))"
  by (cases "h ! a") (simp_all add: Children_def)

lemma GetChild_ok:
  assumes "authority_ok h" "a < length h" "GetChild h a nm = Some c"
  shows "c < length h" "an_parent (h ! c) = Some a" "an_name (h ! c) = nm"
  using assms authority_okD(5) [OF assms(1,2), of nm c]
  by (auto simp: GetChild_children dest: map_of_SomeD)

lemma authority_ok_root: "authority_ok (NewRootAuthority nm)"
  by (simp add: authority_ok_def NewRootAuthority_def)

text \<open>The shape of a successful insertion, shared by both kinds of child.\<close>

definition fresh_child :: "nat \<Rightarrow> string \<Rightarrow> authority_node \<Rightarrow> bool" where
  "fresh_child a nm child \<longleftrightarrow>
     an_parent child = Some a \<and> an_name child = nm \<and> an_children child = []"

definition child_inserted ::
    "authority_heap \<Rightarrow> nat \<Rightarrow> string \<Rightarrow> authority_heap \<Rightarrow> bool" where
  "child_inserted h a nm h' \<longleftrightarrow>
     length h' = Suc (length h) \<and>
     (\<forall>x < length h. an_name (h' ! x) = an_name (h ! x) \<and> an_parent (h' ! x) = an_parent (h ! x) \<and>
        IsLeaf (h' ! x) = IsLeaf (h ! x)) \<and>
     (\<forall>x < length h. an_children (h' ! x) =
        (if x = a then AList.update nm (length h) (an_children (h ! a)) else an_children (h ! x))) \<and>
     fresh_child a nm (h' ! length h)"

lemma insert_child_Ok:
  assumes "insert_child h a nm child = Ok (h', c)" "a < length h" "fresh_child a nm child"
  shows "child_inserted h a nm h'" "c = length h" "GetChild h a nm = None" "\<not> IsLeaf (h ! a)"
    "h' ! length h = child"
  using assms
  by (auto simp: insert_child_def child_inserted_def GetChild_def nth_append nth_list_update
      split: authority_node.splits option.splits if_splits)

lemma insert_child_Ok_iff:
  "(\<exists>r. insert_child h a nm child = Ok r) \<longleftrightarrow> GetChild h a nm = None \<and> \<not> IsLeaf (h ! a)"
  by (auto simp: insert_child_def GetChild_def split: authority_node.splits option.splits)

lemma insert_child_leaf: "IsLeaf (h ! a) \<Longrightarrow> insert_child h a nm child = Err (CannotCreateChild (an_name (h ! a)))"
  by (cases "h ! a") (auto simp: insert_child_def)

lemma fresh_intermediate: "fresh_child a nm (intermediateAuthority nm (Some a) [])"
  by (simp add: fresh_child_def)

lemma fresh_leaf: "fresh_child a nm (leafAuthority nm (Some a))"
  by (simp add: fresh_child_def)

lemmas CreateChild_Ok = insert_child_Ok [OF _ _ fresh_intermediate, folded CreateChild_def]
lemmas CreateLeafChild_Ok = insert_child_Ok [OF _ _ fresh_leaf, folded CreateLeafChild_def]

lemma child_inserted_GetChild:
  assumes "child_inserted h a nm h'" "x < length h"
  shows "GetChild h' x m = (if x = a \<and> m = nm then Some (length h) else GetChild h x m)"
  using assms by (auto simp: child_inserted_def GetChild_children)

lemma child_inserted_ok:
  assumes ok: "authority_ok h" and a: "a < length h" and ins: "child_inserted h a nm h'"
    and free: "GetChild h a nm = None"
  shows "authority_ok h'"
proof -
  have len: "length h' = Suc (length h)" and fresh: "fresh_child a nm (h' ! length h)"
    and old: "\<And>x. x < length h \<Longrightarrow> an_name (h' ! x) = an_name (h ! x) \<and>
       an_parent (h' ! x) = an_parent (h ! x) \<and> IsLeaf (h' ! x) = IsLeaf (h ! x)"
    and ch: "\<And>x. x < length h \<Longrightarrow> an_children (h' ! x) =
        (if x = a then AList.update nm (length h) (an_children (h ! a)) else an_children (h ! x))"
    using ins by (auto simp: child_inserted_def)
  have "map_ok (an_children (h' ! x)) \<and>
     (\<forall>(n, c) \<in> set (an_children (h' ! x)).
        c < length h' \<and> an_parent (h' ! c) = Some x \<and> an_name (h' ! c) = n) \<and>
     (\<forall>p. an_parent (h' ! x) = Some p \<longrightarrow> p < x)" if x: "x < length h'" for x
  proof (cases "x = length h")
    case True
    with fresh a show ?thesis by (simp add: fresh_child_def)
  next
    case False
    with x len have x: "x < length h" by simp
    have entry: "c < length h' \<and> an_parent (h' ! c) = Some x \<and> an_name (h' ! c) = n"
      if "map_of (an_children (h' ! x)) n = Some c" for n c
    proof (cases "x = a \<and> n = nm")
      case True
      with that ch [OF a] fresh len show ?thesis by (simp add: fresh_child_def)
    next
      case False
      with that ch [OF x] have "GetChild h x n = Some c"
        by (auto simp: GetChild_children split: if_splits)
      from GetChild_ok [OF ok x this] old len show ?thesis by simp
    qed
    have mok: "map_ok (an_children (h' ! x))"
      using ch [OF x] authority_okD(4) [OF ok x] by auto
    show ?thesis
      using entry mok authority_okD(6) [OF ok x] old [OF x] by (auto simp: map_of_in)
  qed
  moreover have "an_parent (h' ! 0) = None" "\<not> IsLeaf (h' ! 0)"
    using old authority_okD(1,2,3) [OF ok] by auto
  ultimately show ?thesis using len unfolding authority_ok_def by auto
qed

lemma RemoveChild_Ok:
  assumes "RemoveChild h a nm = Ok h'"
  obtains c where "GetChild h a nm = Some c" "an_children (h ! c) = []" "\<not> IsLeaf (h ! a)"
    "h' = h[a := intermediateAuthority (an_name (h ! a)) (an_parent (h ! a))
                   (AList.delete nm (an_children (h ! a)))]"
  using assms
  by (auto simp: RemoveChild_def GetChild_def Children_children
      split: authority_node.splits option.splits if_splits)

lemma RemoveChild_GetChild:
  assumes "RemoveChild h a nm = Ok h'" "x < length h"
  shows "GetChild h' x m = (if x = a \<and> m = nm then None else GetChild h x m)"
proof -
  obtain c where "h' = h[a := intermediateAuthority (an_name (h ! a)) (an_parent (h ! a))
                   (AList.delete nm (an_children (h ! a)))]"
    using assms(1) by (rule RemoveChild_Ok)
  with assms(2) show ?thesis
    by (cases "x = a") (auto simp: GetChild_children)
qed

lemma RemoveChild_frame:
  assumes "RemoveChild h a nm = Ok h'"
  shows "length h' = length h"
    and "x < length h \<Longrightarrow> an_name (h' ! x) = an_name (h ! x) \<and> an_parent (h' ! x) = an_parent (h ! x) \<and>
           IsLeaf (h' ! x) = IsLeaf (h ! x)"
proof -
  obtain c where h': "h' = h[a := intermediateAuthority (an_name (h ! a)) (an_parent (h ! a))
                   (AList.delete nm (an_children (h ! a)))]" and leaf: "\<not> IsLeaf (h ! a)"
    using assms by (rule RemoveChild_Ok)
  from h' show "length h' = length h" by simp
  show "an_name (h' ! x) = an_name (h ! x) \<and> an_parent (h' ! x) = an_parent (h ! x) \<and>
      IsLeaf (h' ! x) = IsLeaf (h ! x)" if "x < length h"
    using h' leaf that by (cases "x = a") auto
qed

lemma RemoveChild_ok:
  assumes ok: "authority_ok h" and a: "a < length h" and rm: "RemoveChild h a nm = Ok h'"
  shows "authority_ok h'"
proof -
  note frame = RemoveChild_frame [OF rm]
  obtain c where "h' = h[a := intermediateAuthority (an_name (h ! a)) (an_parent (h ! a))
                   (AList.delete nm (an_children (h ! a)))]"
    using rm by (rule RemoveChild_Ok)
  then have ch: "an_children (h' ! x) =
      (if x = a then AList.delete nm (an_children (h ! a)) else an_children (h ! x))"
    if "x < length h" for x
    using that by (simp add: nth_list_update)
  have "map_ok (an_children (h' ! x)) \<and>
     (\<forall>(n, c) \<in> set (an_children (h' ! x)).
        c < length h' \<and> an_parent (h' ! c) = Some x \<and> an_name (h' ! c) = n) \<and>
     (\<forall>p. an_parent (h' ! x) = Some p \<longrightarrow> p < x)" if x: "x < length h'" for x
  proof -
    from x frame(1) have x: "x < length h" by simp
    have mok: "map_ok (an_children (h' ! x))"
      using ch [OF x] authority_okD(4) [OF ok x] by auto
    have "c < length h' \<and> an_parent (h' ! c) = Some x \<and> an_name (h' ! c) = n"
      if "map_of (an_children (h' ! x)) n = Some c" for n c
    proof -
      from that ch [OF x] have "GetChild h x n = Some c"
        by (auto simp: GetChild_children split: if_splits)
      from GetChild_ok [OF ok x this] frame show ?thesis by simp
    qed
    with mok authority_okD(6) [OF ok x] frame(2) [OF x] show ?thesis by (auto simp: map_of_in)
  qed
  moreover have "an_parent (h' ! 0) = None" "\<not> IsLeaf (h' ! 0)"
    using frame(2) authority_okD(1,2,3) [OF ok] by auto
  moreover have "h' \<noteq> []" using frame(1) authority_okD(1) [OF ok] by auto
  ultimately show ?thesis unfolding authority_ok_def by auto
qed

section \<open>Names and paths agree\<close>

lemma FullName_total:
  assumes "authority_ok h"
  shows "a < length h \<Longrightarrow> \<exists>ns. FullName h a = Some ns \<and> ns \<noteq> []"
proof (induction a rule: less_induct)
  case (less a)
  show ?case
  proof (cases "an_parent (h ! a)")
    case None
    then show ?thesis by (subst FullName.simps) simp
  next
    case (Some p)
    with authority_okD(6) [OF assms less.prems] have "p < a" by simp
    with less obtain ns where "FullName h p = Some ns" by force
    with Some show ?thesis by (subst FullName.simps) simp
  qed
qed

lemma FullName_root: "authority_ok h \<Longrightarrow> FullName h 0 = Some [an_name (h ! 0)]"
  by (subst FullName.simps) (simp add: authority_okD(2))

lemma FullName_frame:
  assumes ok: "authority_ok h"
    and old: "\<And>x. x < length h \<Longrightarrow> an_name (h' ! x) = an_name (h ! x) \<and> an_parent (h' ! x) = an_parent (h ! x)"
  shows "a < length h \<Longrightarrow> FullName h' a = FullName h a"
proof (induction a rule: less_induct)
  case (less a)
  show ?case
  proof (cases "an_parent (h ! a)")
    case None
    with old [OF less.prems] show ?thesis
      by (simp add: FullName.simps [of h' a] FullName.simps [of h a])
  next
    case (Some p)
    with authority_okD(6) [OF ok less.prems] have "p < a" by simp
    with less have "FullName h' p = FullName h p" by force
    with Some old [OF less.prems] show ?thesis
      by (simp add: FullName.simps [of h' a] FullName.simps [of h a])
  qed
qed

lemma GetDescendant_from_append:
  "GetDescendant_from h x (ms @ ns) =
     Option.bind (GetDescendant_from h x ms) (\<lambda>y. GetDescendant_from h y ns)"
  by (induction ms arbitrary: x) (auto split: option.splits)

lemma GetDescendant_from_FullName:
  assumes ok: "authority_ok h"
  shows "x < length h \<Longrightarrow> FullName h x = Some ns \<Longrightarrow> GetDescendant_from h x names = Some y \<Longrightarrow>
    y < length h \<and> FullName h y = Some (ns @ names)"
proof (induction names arbitrary: x ns)
  case Nil
  then show ?case by simp
next
  case (Cons nm names)
  then obtain c where c: "GetChild h x nm = Some c" "GetDescendant_from h c names = Some y"
    by (auto split: option.splits)
  note child = GetChild_ok [OF ok Cons.prems(1) c(1)]
  have "FullName h c = Some (ns @ [nm])"
    using child Cons.prems(2) by (simp add: FullName.simps [of h c])
  from Cons.IH [OF child(1) this c(2)] show ?case by simp
qed

lemma GetDescendant_FullName:
  assumes "authority_ok h" "GetDescendant h names = Some a"
  shows "a < length h" "FullName h a = Some (an_name (h ! 0) # names)"
  using GetDescendant_from_FullName [OF assms(1) authority_okD(1) [OF assms(1)] FullName_root [OF assms(1)]]
    assms(2) by (auto simp: GetDescendant_def)

text \<open>A tree: each live authority has one path.\<close>

lemma GetDescendant_inject:
  assumes "authority_ok h" "GetDescendant h ms = Some a" "GetDescendant h ns = Some a"
  shows "ms = ns"
  using GetDescendant_FullName(2) [OF assms(1,2)] GetDescendant_FullName(2) [OF assms(1,3)] by simp

text \<open>The abstraction of a heap: the set of paths under which an authority is found.\<close>

definition live_paths :: "authority_heap \<Rightarrow> string list set" where
  "live_paths h = {ns. GetDescendant h ns \<noteq> None}"

lemma live_pathsI: "GetDescendant h ns = Some a \<Longrightarrow> ns \<in> live_paths h"
  by (simp add: live_paths_def)

lemma GetDescendant_from_inserted:
  assumes ins: "child_inserted h a nm h'" and ok: "authority_ok h" and a: "a < length h"
    and free: "GetChild h a nm = None"
  shows "x < length h \<Longrightarrow> GetDescendant_from h' x ms =
    (case GetDescendant_from h x ms of
       Some y \<Rightarrow> Some y
     | None \<Rightarrow> if \<exists>pre. ms = pre @ [nm] \<and> GetDescendant_from h x pre = Some a
               then Some (length h) else None)"
proof (induction ms arbitrary: x)
  case Nil
  then show ?case by simp
next
  case (Cons m ms)
  have new: "GetDescendant_from h' (length h) ms = (if ms = [] then Some (length h) else None)"
    using ins by (cases ms) (auto simp: child_inserted_def fresh_child_def GetChild_children)
  show ?case
  proof (cases "GetChild h x m")
    case None
    then have "GetDescendant_from h x (m # ms) = None" by simp
    moreover have "(\<exists>pre. m # ms = pre @ [nm] \<and> GetDescendant_from h x pre = Some a)
        \<longleftrightarrow> ms = [] \<and> m = nm \<and> x = a"
      using None by (auto simp: Cons_eq_append_conv)
    ultimately show ?thesis
      using None new by (simp add: child_inserted_GetChild [OF ins Cons.prems])
  next
    case (Some c)
    then have edge: "\<not> (x = a \<and> m = nm)" using free by auto
    have c: "c < length h" by (rule GetChild_ok(1) [OF ok Cons.prems Some])
    have ex: "(\<exists>pre. m # ms = pre @ [nm] \<and> GetDescendant_from h x pre = Some a)
        \<longleftrightarrow> (\<exists>pre. ms = pre @ [nm] \<and> GetDescendant_from h c pre = Some a)"
      using Some edge by (auto simp: Cons_eq_append_conv)
    have "GetDescendant_from h' x (m # ms) = GetDescendant_from h' c ms"
      using Some edge by (auto simp: child_inserted_GetChild [OF ins Cons.prems])
    then show ?thesis
      by (simp only: Cons.IH [OF c] ex GetDescendant_from.simps Some option.case)
  qed
qed

lemma child_inserted_live:
  assumes ins: "child_inserted h a nm h'" and ok: "authority_ok h" 
    and P: "GetDescendant h P = Some a" and free: "GetChild h a nm = None"
  shows "live_paths h' = insert (P @ [nm]) (live_paths h)"
    and "GetDescendant h ms = Some y \<Longrightarrow> GetDescendant h' ms = Some y"
    and "GetDescendant h' (P @ [nm]) = Some (length h)"
proof -
  have a: "a < length h" by (rule GetDescendant_FullName(1) [OF ok P])
  note desc = GetDescendant_from_inserted [OF ins ok a free authority_okD(1) [OF ok]]
  have P_only: "(\<exists>pre. ms = pre @ [nm] \<and> GetDescendant_from h 0 pre = Some a) \<longleftrightarrow> ms = P @ [nm]" for ms
    using GetDescendant_inject [OF ok _ P] P unfolding GetDescendant_def by blast
  have none: "GetDescendant_from h 0 (P @ [nm]) = None"
    using P free by (simp add: GetDescendant_from_append GetDescendant_def)
  show "live_paths h' = insert (P @ [nm]) (live_paths h)"
    using none by (auto simp: live_paths_def GetDescendant_def desc P_only split: option.splits if_splits)
  show "GetDescendant h ms = Some y \<Longrightarrow> GetDescendant h' ms = Some y"
    by (simp add: GetDescendant_def desc)
  show "GetDescendant h' (P @ [nm]) = Some (length h)"
    using none P by (simp add: GetDescendant_def desc P_only)
qed

lemma live_paths_root: "authority_ok h \<Longrightarrow> [] \<in> live_paths h"
  by (simp add: live_paths_def GetDescendant_def)

lemma live_paths_snoc:
  assumes "GetDescendant h P = Some a"
  shows "GetDescendant h (P @ nm # ns) =
           (case GetChild h a nm of None \<Rightarrow> None | Some c \<Rightarrow> GetDescendant_from h c ns)"
  using assms by (simp add: GetDescendant_def GetDescendant_from_append)

lemma live_paths_prefix:
  "ns \<in> live_paths h \<Longrightarrow> prefix ms ns \<Longrightarrow> ms \<in> live_paths h"
  by (auto simp: live_paths_def GetDescendant_def prefix_def GetDescendant_from_append
      bind_eq_Some_conv)

text \<open>One generic creation loop: missing labels are inserted one below the other.\<close>

lemma CreateDescendant_from_Ok:
  assumes "authority_ok h" "GetDescendant h P = Some cur"
    and "CreateDescendant_from h cur names = Ok (h', a)"
  shows "authority_ok h' \<and> GetDescendant h' (P @ names) = Some a \<and>
    an_name (h' ! 0) = an_name (h ! 0) \<and>
    (\<forall>ms y. GetDescendant h ms = Some y \<longrightarrow> GetDescendant h' ms = Some y) \<and>
    live_paths h' = live_paths h \<union> {P @ ms | ms. prefix ms names}"
  using assms
proof (induction names arbitrary: h P cur)
  case Nil
  then show ?case by (auto dest: live_pathsI)
next
  case (Cons nm names)
  have cur: "cur < length h" by (rule GetDescendant_FullName(1) [OF Cons.prems(1,2)])
  have split: "{P @ ms | ms. prefix ms (nm # names)} = insert P {(P @ [nm]) @ ms | ms. prefix ms names}"
    by (auto simp: prefix_Cons)
  have P: "P \<in> live_paths h" by (rule live_pathsI [OF Cons.prems(2)])
  show ?case
  proof (cases "GetChild h cur nm")
    case (Some c)
    have c: "GetDescendant h (P @ [nm]) = Some c"
      using live_paths_snoc [OF Cons.prems(2), of nm "[]"] Some by simp
    show ?thesis
      using Cons.IH [OF Cons.prems(1) c] Cons.prems(3) Some P by (simp add: split insert_absorb)
  next
    case None
    then obtain h1 c where c: "CreateChild h cur nm = Ok (h1, c)"
      and rest: "CreateDescendant_from h1 c names = Ok (h', a)"
      using Cons.prems(3) by auto
    have ins: "child_inserted h cur nm h1" and len: "c = length h"
      using CreateChild_Ok [OF c cur] by auto
    note live = child_inserted_live [OF ins Cons.prems(1,2) None]
    have ok1: "authority_ok h1"
      by (rule child_inserted_ok [OF Cons.prems(1) cur ins None])
    have nm0: "an_name (h1 ! 0) = an_name (h ! 0)"
      using ins authority_okD(1) [OF Cons.prems(1)] by (simp add: child_inserted_def)
    from Cons.IH [OF ok1 live(3) rest [unfolded len]] show ?thesis
      using live(1,2) nm0 P by (auto simp: split)
  qed
qed

lemma CreateDescendant_from_Err:
  assumes "authority_ok h" "GetDescendant h P = Some cur"
  shows "CreateDescendant_from h cur names = Err e \<longleftrightarrow>
    (\<exists>ms n ns l. names = ms @ n # ns \<and> GetDescendant h (P @ ms) = Some l \<and> IsLeaf (h ! l) \<and>
       e = CannotCreateChild (an_name (h ! l)))"
  using assms
proof (induction names arbitrary: h P cur)
  case Nil
  then show ?case by simp
next
  case (Cons nm names)
  have cur: "cur < length h" by (rule GetDescendant_FullName(1) [OF Cons.prems])
  have leaf_child: "IsLeaf (h ! x) \<Longrightarrow> GetChild h x m = None" for x m
    by (cases "h ! x") (auto simp: GetChild_def)
  have split: "(\<exists>ms n ns l. nm # names = ms @ n # ns \<and> GetDescendant h (P @ ms) = Some l \<and> IsLeaf (h ! l) \<and>
         e = CannotCreateChild (an_name (h ! l))) \<longleftrightarrow>
      (IsLeaf (h ! cur) \<and> e = CannotCreateChild (an_name (h ! cur))) \<or>
      (\<exists>ms n ns l. names = ms @ n # ns \<and> GetDescendant h ((P @ [nm]) @ ms) = Some l \<and> IsLeaf (h ! l) \<and>
         e = CannotCreateChild (an_name (h ! l)))"
    using Cons.prems(2) by (auto simp: Cons_eq_append_conv) (metis append.left_neutral append_Cons append_Nil2 | blast)+
  show ?case
  proof (cases "GetChild h cur nm")
    case (Some c)
    have c: "GetDescendant h (P @ [nm]) = Some c"
      using live_paths_snoc [OF Cons.prems(2), of nm "[]"] Some by simp
    have "\<not> IsLeaf (h ! cur)" using Some leaf_child by auto
    then show ?thesis unfolding split using Cons.IH [OF Cons.prems(1) c] Some by simp
  next
    case None
    have below: "GetDescendant h ((P @ [nm]) @ ms) = None" for ms
      using live_paths_snoc [OF Cons.prems(2), of nm ms] None by simp
    show ?thesis
    proof (cases "IsLeaf (h ! cur)")
      case True
      with None below show ?thesis unfolding split
        by (auto simp: CreateChild_def insert_child_leaf)
    next
      case False
      then obtain h1 c where c: "CreateChild h cur nm = Ok (h1, c)"
        using None insert_child_Ok_iff [of h cur nm] unfolding CreateChild_def by fastforce
      have ins: "child_inserted h cur nm h1" and len: "c = length h"
        and new: "h1 ! length h = intermediateAuthority nm (Some cur) []"
        using CreateChild_Ok [OF c cur] by auto
      note live = child_inserted_live [OF ins Cons.prems None]
      have ok1: "authority_ok h1"
        by (rule child_inserted_ok [OF Cons.prems(1) cur ins None])
      have "GetDescendant h1 ((P @ [nm]) @ ms) = Some l \<Longrightarrow> \<not> IsLeaf (h1 ! l)" for ms l
        using live_paths_snoc [OF live(3), of "hd ms" "tl ms"] live(3) new
        by (cases ms) (auto simp: GetChild_def)
      with Cons.IH [OF ok1 live(3)] False c None below len show ?thesis unfolding split by auto
    qed
  qed
qed

lemma CreateLeafDescendant_from_Ok:
  assumes "authority_ok h" "GetDescendant h P = Some cur"
    and "CreateLeafDescendant_from h mk cur names = Ok (h', a)"
  shows "authority_ok h' \<and> GetDescendant h' (P @ names) = Some a \<and>
    an_name (h' ! 0) = an_name (h ! 0) \<and>
    (\<forall>ms y. GetDescendant h ms = Some y \<longrightarrow> GetDescendant h' ms = Some y) \<and>
    live_paths h' = live_paths h \<union> {P @ ms | ms. prefix ms names} \<and>
    (P @ names \<notin> live_paths h \<longrightarrow> IsLeaf (h' ! a))"
  using assms
proof (induction names arbitrary: h P cur)
  case Nil
  then show ?case by (auto dest: live_pathsI)
next
  case (Cons nm names)
  have cur: "cur < length h" by (rule GetDescendant_FullName(1) [OF Cons.prems(1,2)])
  have split: "{P @ ms | ms. prefix ms (nm # names)} = insert P {(P @ [nm]) @ ms | ms. prefix ms names}"
    by (auto simp: prefix_Cons)
  have P: "P \<in> live_paths h" by (rule live_pathsI [OF Cons.prems(2)])
  show ?case
  proof (cases "GetChild h cur nm")
    case (Some c)
    have c: "GetDescendant h (P @ [nm]) = Some c"
      using live_paths_snoc [OF Cons.prems(2), of nm "[]"] Some by simp
    show ?thesis
      using Cons.IH [OF Cons.prems(1) c] Cons.prems(3) Some P by (simp add: split insert_absorb)
  next
    case None
    show ?thesis
    proof (cases "names = []")
      case True
      then have c: "CreateLeafChild h cur nm = Ok (h', a)"
        using Cons.prems(3) None by auto
      have ins: "child_inserted h cur nm h'" and len: "a = length h"
        and new: "h' ! length h = leafAuthority nm (Some cur)"
        using CreateLeafChild_Ok [OF c cur] by auto
      note live = child_inserted_live [OF ins Cons.prems(1,2) None]
      have "authority_ok h'" by (rule child_inserted_ok [OF Cons.prems(1) cur ins None])
      moreover have "an_name (h' ! 0) = an_name (h ! 0)"
        using ins authority_okD(1) [OF Cons.prems(1)] by (simp add: child_inserted_def)
      moreover have "{P @ ms | ms. prefix ms [nm]} = {P, P @ [nm]}"
        by (auto simp: prefix_Cons)
      ultimately show ?thesis using live P True len new by auto
    next
      case False
      then obtain h1 c where c: "CreateChild h cur nm = Ok (h1, c)"
        and rest: "CreateLeafDescendant_from h1 mk c names = Ok (h', a)"
        using Cons.prems(3) None by (auto split: if_splits)
      have ins: "child_inserted h cur nm h1" and len: "c = length h"
        using CreateChild_Ok [OF c cur] by auto
      note live = child_inserted_live [OF ins Cons.prems(1,2) None]
      have ok1: "authority_ok h1"
        by (rule child_inserted_ok [OF Cons.prems(1) cur ins None])
      have nm0: "an_name (h1 ! 0) = an_name (h ! 0)"
        using ins authority_okD(1) [OF Cons.prems(1)] by (simp add: child_inserted_def)
      have "P @ nm # names \<notin> live_paths h1"
        using live(1) False live_paths_snoc [OF Cons.prems(2), of nm names] None
        by (simp add: live_paths_def)
      with Cons.IH [OF ok1 live(3) rest [unfolded len]] show ?thesis
        using live(1,2) nm0 P by (auto simp: split)
    qed
  qed
qed

lemma GetDescendant_from_removed:
  assumes ok: "authority_ok h" and rm: "RemoveChild h a nm = Ok h'" and a: "a < length h"
  shows "x < length h \<Longrightarrow> GetDescendant_from h' x ms =
    (if \<exists>pre. ms = pre @ [nm] \<and> GetDescendant_from h x pre = Some a then None
     else GetDescendant_from h x ms)"
proof (induction ms arbitrary: x)
  case Nil
  then show ?case by simp
next
  case (Cons m ms)
  obtain d where d: "GetChild h a nm = Some d" "an_children (h ! d) = []"
    using rm by (rule RemoveChild_Ok)
  show ?case
  proof (cases "x = a \<and> m = nm")
    case True
    have "GetDescendant_from h d ms = (if ms = [] then Some d else None)"
      using d(2) by (cases ms) (auto simp: GetChild_children)
    moreover have "GetChild h' a nm = None" by (simp add: RemoveChild_GetChild [OF rm a])
    moreover have "m # ms = [] @ [nm] \<and> GetDescendant_from h x [] = Some a" if "ms = []"
      using True that by simp
    ultimately show ?thesis using True d(1) by (cases "ms = []") (force, simp)
  next
    case edge: False
    show ?thesis
    proof (cases "GetChild h x m")
      case None
      with edge show ?thesis
        by (auto simp: RemoveChild_GetChild [OF rm Cons.prems] Cons_eq_append_conv)
    next
      case (Some c)
      have c: "c < length h" by (rule GetChild_ok(1) [OF ok Cons.prems Some])
      have ex: "(\<exists>pre. m # ms = pre @ [nm] \<and> GetDescendant_from h x pre = Some a)
          \<longleftrightarrow> (\<exists>pre. ms = pre @ [nm] \<and> GetDescendant_from h c pre = Some a)"
        using Some edge by (auto simp: Cons_eq_append_conv)
      have "GetDescendant_from h' x (m # ms) = GetDescendant_from h' c ms"
        using Some edge by (auto simp: RemoveChild_GetChild [OF rm Cons.prems])
      then show ?thesis
        by (simp only: Cons.IH [OF c] ex GetDescendant_from.simps Some option.case)
    qed
  qed
qed

lemma RemoveChild_live:
  assumes ok: "authority_ok h" and P: "GetDescendant h P = Some a" and rm: "RemoveChild h a nm = Ok h'"
  shows "GetDescendant h' ms = (if ms = P @ [nm] then None else GetDescendant h ms)"
proof -
  have a: "a < length h" by (rule GetDescendant_FullName(1) [OF ok P])
  have "(\<exists>pre. ms = pre @ [nm] \<and> GetDescendant_from h 0 pre = Some a) \<longleftrightarrow> ms = P @ [nm]"
    using GetDescendant_inject [OF ok _ P] P unfolding GetDescendant_def by blast
  then show ?thesis
    using GetDescendant_from_removed [OF ok rm a authority_okD(1) [OF ok], of ms]
    by (simp add: GetDescendant_def)
qed

lemmas root_path = GetDescendant_FullName(1) GetDescendant_def [of _ "[]", simplified]

lemma GetDescendant_root [simp]: "GetDescendant h [] = Some 0"
  by (simp add: GetDescendant_def)

lemmas CreateDescendant_Ok = CreateDescendant_from_Ok [where P = "[]" and cur = 0, folded CreateDescendant_def, simplified]
lemmas CreateDescendant_Err = CreateDescendant_from_Err [where P = "[]" and cur = 0, folded CreateDescendant_def, simplified]
lemmas CreateLeafDescendant_Ok = CreateLeafDescendant_from_Ok [where P = "[]" and cur = 0, folded CreateLeafDescendant_def, simplified]

lemma RemoveDescendant_Ok:
  assumes ok: "authority_ok h" and rm: "RemoveDescendant h names = Ok h'"
  obtains p where "names \<noteq> []" "GetDescendant h (butlast names) = Some p" "p < length h"
    "RemoveChild h p (last names) = Ok h'"
  using assms GetDescendant_FullName(1) [OF ok]
  by (auto simp: RemoveDescendant_def Let_def split: if_splits option.splits)

lemma CreateDescendant_from_no_Panic: "CreateDescendant_from h cur names \<noteq> Panic"
proof (induction names arbitrary: h cur)
  case (Cons nm names)
  then show ?case
    by (auto simp: CreateChild_def insert_child_def bind_outcome_Panic_iff
        split: option.splits authority_node.splits)
qed simp

section \<open>Reachable hierarchies\<close>

text \<open>
  One step of the hierarchy: an operation of the root on a path, or one of the object methods
  on any authority a caller may still hold (a removed one included). A failing operation
  leaves the heap as it was: by \<open>CreateDescendant_from_Err\<close> the creation loop fails only
  at a leaf that was there before, so before it has created anything.
\<close>

inductive authority_step :: "authority_heap \<Rightarrow> authority_heap \<Rightarrow> bool" where
  create: "CreateDescendant h names = Ok (h', a) \<Longrightarrow> authority_step h h'"
| create_leaf: "CreateLeafDescendant h names mk = Ok (h', a) \<Longrightarrow> authority_step h h'"
| remove: "RemoveDescendant h names = Ok h' \<Longrightarrow> authority_step h h'"
| child: "x < length h \<Longrightarrow> CreateChild h x nm = Ok (h', a) \<Longrightarrow> authority_step h h'"
| leaf_child: "x < length h \<Longrightarrow> CreateLeafChild h x nm = Ok (h', a) \<Longrightarrow> authority_step h h'"
| remove_child: "x < length h \<Longrightarrow> RemoveChild h x nm = Ok h' \<Longrightarrow> authority_step h h'"

inductive authority_reachable :: "string \<Rightarrow> authority_heap \<Rightarrow> bool" for root where
  start: "authority_reachable root (NewRootAuthority root)"
| step: "authority_reachable root h \<Longrightarrow> authority_step h h' \<Longrightarrow> authority_reachable root h'"

lemma child_inserted_root:
  assumes "authority_ok h" "child_inserted h x nm h'"
  shows "an_name (h' ! 0) = an_name (h ! 0)"
  using assms authority_okD(1) [OF assms(1)] by (simp add: child_inserted_def)

lemma authority_step_ok:
  assumes "authority_step h h'" "authority_ok h"
  shows "authority_ok h' \<and> an_name (h' ! 0) = an_name (h ! 0)"
  using assms
proof (induction rule: authority_step.induct)
  case (create h names h' a)
  then show ?case using CreateDescendant_Ok by blast
next
  case (create_leaf h names mk h' a)
  then show ?case using CreateLeafDescendant_Ok by blast
next
  case (remove h names h')
  obtain p where "p < length h" "RemoveChild h p (last names) = Ok h'"
    using remove(2,1) by (rule RemoveDescendant_Ok)
  then show ?case
    using RemoveChild_ok [OF remove(2)] RemoveChild_frame(2) authority_okD(1) [OF remove(2)] by auto
next
  case (child x h nm h' a)
  note ins = CreateChild_Ok [OF child(2,1)]
  show ?case
    using child_inserted_ok [OF child(3,1) ins(1,3)] child_inserted_root [OF child(3) ins(1)] by simp
next
  case (leaf_child x h nm h' a)
  note ins = CreateLeafChild_Ok [OF leaf_child(2,1)]
  show ?case
    using child_inserted_ok [OF leaf_child(3,1) ins(1,3)] child_inserted_root [OF leaf_child(3) ins(1)] by simp
next
  case (remove_child x h nm h')
  show ?case
    using RemoveChild_ok [OF remove_child(3,1,2)] RemoveChild_frame(2) [OF remove_child(2)]
      authority_okD(1) [OF remove_child(3)] by simp
qed

lemma authority_reachable_inv:
  "authority_reachable root h \<Longrightarrow> authority_ok h \<and> an_name (h ! 0) = root"
proof (induction rule: authority_reachable.induct)
  case start
  show ?case by (simp add: authority_ok_root) (simp add: NewRootAuthority_def)
next
  case (step h h')
  then show ?case using authority_step_ok by auto
qed

section \<open>Properties\<close>

text \<open>
  C8. In every hierarchy the program can build, the parent walk of \<open>FullName\<close> ends for every
  authority object, and the authority found under a path carries exactly that path (after the
  root's label) as its full name: the two directions of links never disagree.
\<close>

theorem authority_names_agree:
  assumes "authority_reachable root h"
  shows "(\<forall>a < length h. FullName h a \<noteq> None) \<and>
    (\<forall>ns a. GetDescendant h ns = Some a \<longrightarrow> FullName h a = Some (root # ns))"
proof -
  have ok: "authority_ok h" and "an_name (h ! 0) = root"
    using authority_reachable_inv [OF assms] by auto
  then show ?thesis
    using FullName_total [OF ok] GetDescendant_FullName(2) [OF ok] by fastforce
qed

definition example_hierarchy :: authority_heap where
  "example_hierarchy =
     [intermediateAuthority ''local'' None [(''admin'', 1)],
      intermediateAuthority ''admin'' (Some 0) [(''ca'', 2)],
      intermediateAuthority ''ca'' (Some 1) []]"

lemma example_reachable: "authority_reachable ''local'' example_hierarchy"
proof -
  have "CreateDescendant (NewRootAuthority ''local'') [''admin'', ''ca''] = Ok (example_hierarchy, 2)"
    by (simp add: CreateDescendant_def NewRootAuthority_def CreateChild_def insert_child_def
        GetChild_def example_hierarchy_def)
  then show ?thesis
    by (rule authority_reachable.step [OF authority_reachable.start authority_step.create])
qed

theorem authority_names_agree_witness:
  "FullName example_hierarchy 2 = Some [''local'', ''admin'', ''ca'']"
  using authority_names_agree [OF example_reachable]
  by (auto simp: GetDescendant_def example_hierarchy_def GetChild_def
      dest!: spec [of _ "[''admin'', ''ca'']"])

text \<open>
  C6. Creating a descendant adds the missing authorities and nothing else: the paths
  that resolve afterwards are those that did before and the prefixes of the requested path,
  every authority found before is found unchanged, and the result is the authority at the
  requested path. It fails exactly when the path runs through a leaf, and then names that leaf.
\<close>

theorem CreateDescendant_refines:
  assumes "authority_ok h"
  shows "case CreateDescendant h names of
      Ok (h', a) \<Rightarrow> live_paths h' = live_paths h \<union> set (prefixes names) \<and>
        GetDescendant h' names = Some a \<and>
        (\<forall>ms y. GetDescendant h ms = Some y \<longrightarrow> GetDescendant h' ms = Some y)
    | Err e \<Rightarrow> (\<exists>ms l. strict_prefix ms names \<and> GetDescendant h ms = Some l \<and> IsLeaf (h ! l) \<and>
        e = CannotCreateChild (an_name (h ! l)))
    | Panic \<Rightarrow> False"
proof (cases "CreateDescendant h names")
  case (Ok r)
  then obtain h' a where r: "CreateDescendant h names = Ok (h', a)" by (cases r) auto
  show ?thesis using CreateDescendant_Ok [OF assms r] r by auto
next
  case (Err e)
  then obtain ms n ns l where "names = ms @ n # ns" "GetDescendant h ms = Some l" "IsLeaf (h ! l)"
      "e = CannotCreateChild (an_name (h ! l))"
    using CreateDescendant_Err [OF assms, of names e] by auto
  then show ?thesis using Err by (auto intro!: exI [of _ ms] simp: strict_prefix_def)
next
  case Panic
  then show ?thesis using CreateDescendant_from_no_Panic by (simp add: CreateDescendant_def)
qed

theorem CreateDescendant_refines_witness:
  "\<exists>h'. CreateDescendant example_hierarchy [''sys''] = Ok (h', 3) \<and>
     live_paths h' = live_paths example_hierarchy \<union> {[], [''sys'']}"
proof -
  have ok: "authority_ok example_hierarchy"
    using authority_reachable_inv [OF example_reachable] by simp
  obtain h' where "CreateDescendant example_hierarchy [''sys''] = Ok (h', 3)"
    by (simp add: CreateDescendant_def CreateChild_def insert_child_def GetChild_def example_hierarchy_def)
  then show ?thesis using CreateDescendant_refines [OF ok, of "[''sys'']"] by auto
qed

text \<open>
  C7. Removing a descendant succeeds exactly when the path names a live authority other than
  the root that has no child, and then it removes that one path and no other.
\<close>

theorem RemoveDescendant_refines:
  assumes "authority_ok h"
  shows "((\<exists>h'. RemoveDescendant h names = Ok h') \<longleftrightarrow>
      names \<noteq> [] \<and> names \<in> live_paths h \<and> (\<forall>n. names @ [n] \<notin> live_paths h)) \<and>
    (\<forall>h'. RemoveDescendant h names = Ok h' \<longrightarrow>
      GetDescendant h' = (GetDescendant h)(names := None))"
proof (intro conjI allI impI)
  fix h' assume rm: "RemoveDescendant h names = Ok h'"
  show "GetDescendant h' = (GetDescendant h)(names := None)"
  proof -
    obtain p where "names \<noteq> []" "GetDescendant h (butlast names) = Some p"
        "RemoveChild h p (last names) = Ok h'"
      using assms rm by (rule RemoveDescendant_Ok)
    then show ?thesis using RemoveChild_live [OF assms] by fastforce
  qed
next
  show "(\<exists>h'. RemoveDescendant h names = Ok h') \<longleftrightarrow>
      names \<noteq> [] \<and> names \<in> live_paths h \<and> (\<forall>n. names @ [n] \<notin> live_paths h)"
  proof (cases "names = []")
    case True
    then show ?thesis by (simp add: RemoveDescendant_def)
  next
    case False
    then obtain P nm where names: "names = P @ [nm]" by (cases names rule: rev_cases) auto
    show ?thesis
    proof (cases "GetDescendant h P")
      case None
      then show ?thesis using live_paths_prefix [of "P @ [nm]" h P]
        by (auto simp: names RemoveDescendant_def live_paths_def)
    next
      case (Some p)
      have edge: "GetDescendant h (P @ [nm]) = GetChild h p nm"
        using live_paths_snoc [OF Some, of nm "[]"] by (simp split: option.splits)
      have below: "(\<forall>n. names @ [n] \<notin> live_paths h) \<longleftrightarrow> Children h c = []"
        if "GetChild h p nm = Some c" for c
      proof -
        have "GetDescendant h (names @ [n]) = map_of (an_children (h ! c)) n" for n
          using live_paths_snoc [of h names c n "[]"] that edge
          by (simp add: names GetChild_children split: option.splits)
        then show ?thesis
          by (cases "an_children (h ! c)") (auto simp: live_paths_def Children_children)
      qed
      show ?thesis
        using Some edge below
        by (auto simp: names RemoveDescendant_def RemoveChild_def live_paths_def GetChild_def
            split: authority_node.splits option.splits)
    qed
  qed
qed

theorem RemoveDescendant_refines_witness:
  "(\<exists>h'. RemoveDescendant example_hierarchy [''admin'', ''ca''] = Ok h' \<and>
      GetDescendant h' [''admin'', ''ca''] = None) \<and>
   \<not> (\<exists>h'. RemoveDescendant example_hierarchy [''admin''] = Ok h')"
proof -
  have ok: "authority_ok example_hierarchy"
    using authority_reachable_inv [OF example_reachable] by simp
  obtain h' where h': "RemoveDescendant example_hierarchy [''admin'', ''ca''] = Ok h'"
    by (simp add: RemoveDescendant_def GetDescendant_def RemoveChild_def GetChild_def Children_def
        example_hierarchy_def)
  have "[''admin''] @ [''ca''] \<in> live_paths example_hierarchy"
    by (simp add: live_paths_def GetDescendant_def GetChild_def example_hierarchy_def)
  then have "\<not> (\<exists>h'. RemoveDescendant example_hierarchy [''admin''] = Ok h')"
    using RemoveDescendant_refines [OF ok, of "[''admin'']"] by blast
  moreover have "GetDescendant h' = (GetDescendant example_hierarchy)([''admin'', ''ca''] := None)"
    using RemoveDescendant_refines [OF ok, of "[''admin'', ''ca'']"] h' by blast
  ultimately show ?thesis using h' by auto
qed

text \<open>
  A full name survives the trip through a certificate's common name: below a root labelled
  with the domain, lower-case labels without dots are read back from the printed common name by
  both parsers exactly as they were; the strict parser rejects any name outside the domain.
\<close>

theorem CommonName_roundtrip:
  assumes "dot_free ns" "ns \<noteq> []" "ns \<noteq> [[]]" "\<forall>n \<in> set (domain # ns). ToLower n = n"
  shows "ParseCommonNameToFullNameStrict (CommonName (domain # ns)) domain = Ok ns \<and>
    ParseCommonNameToFullName (CommonName (domain # ns)) domain = ns \<and>
    (\<not> HasSuffix (ToLower s) (''.'' @ domain) \<longrightarrow>
      ParseCommonNameToFullNameStrict s domain = Err (InvalidCommonName (ToLower s)))"
proof -
  have dot: "ToLower ''.'' = ''.''" by (simp add: ToLower_def ToLower_byte_def)
  have join: "\<forall>n \<in> set ms. ToLower n = n \<Longrightarrow> ToLower (Join ms ''.'') = Join ms ''.''" for ms
    using dot by (induction ms "''.''" rule: Join.induct) (auto simp: ToLower_def)
  have low: "ToLower (CommonName ns) = CommonName ns"
    unfolding CommonName_Join by (rule join) (use assms(4) in auto)
  have full: "ToLower (CommonName (domain # ns)) = CommonName ns @ ''.'' @ domain"
    "ToLower domain = domain"
    using low dot assms(4) by (simp_all add: CommonName_Cons [OF assms(2)]) (simp add: ToLower_def)
  have "CommonName ns \<noteq> []"
    using Split_CommonName [OF assms(2,1)] assms(2,3) by (auto dest: arg_cong [of _ _ rev])
  moreover have "HasSuffix (CommonName ns @ ''.'' @ domain) (''.'' @ domain)"
    by (auto simp: HasSuffix_def suffix_def)
  moreover have "TrimSuffix (CommonName ns @ ''.'' @ domain) (''.'' @ domain) = CommonName ns"
    by (rule TrimSuffix_append)
  ultimately show ?thesis
    by (simp only: ParseCommonNameToFullNameStrict_def ParseCommonNameToFullName_def Let_def full
        Split_CommonName [OF assms(2,1)]) (use assms(2) in simp)
qed

theorem CommonName_roundtrip_witness:
  "ParseCommonNameToFullNameStrict ''node1.l4lb.kscale.local'' ''kscale.local'' = Ok [''l4lb'', ''node1'']"
  using CommonName_roundtrip [of "[''l4lb'', ''node1'']" "''kscale.local''"]
  by (simp add: dot_free_def ToLower_def ToLower_byte_def CommonName_def)

end
