(* ===== verification/Attributes.thy ===== *)
theory Attributes
  imports Authority
begin

text \<open>
  Attributes and the four contexts of an access request: \<open>access/attribute.go\<close>,
  \<open>access/user.go\<close>, \<open>access/resource.go\<close>, \<open>access/action.go\<close>, \<open>access/environment.go\<close>
  and the resolution of a dotted attribute path, \<open>Resolve\<close> of \<open>access/policy/attribute.go\<close>.
  Go dispatches dynamically on the interface \<open>Attribute\<close>; here the concrete types are the
  constructors of one datatype and the methods are functions on it.
\<close>

section \<open>Values\<close>

text \<open>
  The dynamic type \<open>any\<close>, restricted to what the modelled conditions inspect. \<open>AForeign\<close>
  stands for a value of any other Go type; its flag says whether it is one of the further types
  \<open>CheckAttributeType\<close> knows (float64, time.Duration, time.Time, netip.Addr).
\<close>

datatype any =
    ANil
  | AString string
  | AInt64 i64
  | AStrings "string list"
  | AStringSet "string list"
  | AMap "(string \<times> any) list"
  | AForeign bool

text \<open>\<open>CheckAttributeType\<close> panics on a type it does not know.\<close>

fun CheckAttributeType :: "any \<Rightarrow> bool" where
  "CheckAttributeType ANil = True"
| "CheckAttributeType (AString _) = True"
| "CheckAttributeType (AInt64 _) = True"
| "CheckAttributeType (AStrings _) = True"
| "CheckAttributeType (AStringSet _) = False"
| "CheckAttributeType (AMap _) = False"
| "CheckAttributeType (AForeign known) = known"

section \<open>Attributes\<close>

type_synonym converters = "(string \<times> (any \<Rightarrow> any option)) list"

datatype attribute =
    StaticAttribute string any
  | DynamicAttribute string "unit \<Rightarrow> any"
  | AttributeManager string "(string \<times> attribute) list"
  | OverriddenAttributeGetter attribute "(string \<times> attribute) list"
  | StringArrayAttribute string "string list" converters
  | ConvertibleAttribute attribute converters
  | MapAttribute string "(string \<times> any) list"
  | UserAuthorityAttribute nat
  | AuthorityAttributeMapper nat
  | UserContext nat attribute
  | ResourceContext string attribute
  | ActionContext string "string list"

text \<open>Which of the types also implement \<open>AttributeGetter\<close> (the type assertion of \<open>Resolve\<close>).\<close>

fun is_getter :: "attribute \<Rightarrow> bool" where
  "is_getter (StaticAttribute _ _) = False"
| "is_getter (DynamicAttribute _ _) = False"
| "is_getter _ = True"

fun attr_name :: "authority_heap \<Rightarrow> attribute \<Rightarrow> string" where
  "attr_name h (StaticAttribute key _) = key"
| "attr_name h (DynamicAttribute key _) = key"
| "attr_name h (AttributeManager name _) = name"
| "attr_name h (OverriddenAttributeGetter inner _) = attr_name h inner"
| "attr_name h (StringArrayAttribute name _ _) = name"
| "attr_name h (ConvertibleAttribute a _) = attr_name h a"
| "attr_name h (MapAttribute name _) = name"
| "attr_name h (UserAuthorityAttribute _) = ''authority''"
| "attr_name h (AuthorityAttributeMapper _) = ''authority''"
| "attr_name h (UserContext _ inner) = attr_name h inner"
| "attr_name h (ResourceContext name _) = name"
| "attr_name h (ActionContext name _) = name"

text \<open>
  The text form of an authority's full name; a parent walk that never ends exhausts the stack,
  which ends the process as a panic does.
\<close>

definition full_name_text :: "(string list \<Rightarrow> string) \<Rightarrow> authority_heap \<Rightarrow> nat \<Rightarrow> ('e, string) outcome" where
  "full_name_text fmt h a = (case FullName h a of None \<Rightarrow> Panic | Some ns \<Rightarrow> Ok (fmt ns))"

fun attr_value :: "authority_heap \<Rightarrow> attribute \<Rightarrow> ('e, any) outcome" where
  "attr_value h (StaticAttribute _ v) = Ok v"
| "attr_value h (DynamicAttribute _ getter) = Ok (getter ())"
| "attr_value h (AttributeManager _ _) = Ok ANil"
| "attr_value h (OverriddenAttributeGetter inner _) = attr_value h inner"
| "attr_value h (StringArrayAttribute _ values _) = Ok (AStrings values)"
| "attr_value h (ConvertibleAttribute a _) = attr_value h a"
| "attr_value h (MapAttribute _ m) = Ok (AMap m)"
| "attr_value h (UserAuthorityAttribute a) =
     bind_outcome (full_name_text FullName_String h a) (\<lambda>s. Ok (AString s))"
| "attr_value h (AuthorityAttributeMapper a) =
     bind_outcome (full_name_text CommonName h a) (\<lambda>s. Ok (AString s))"
| "attr_value h (UserContext _ inner) = attr_value h inner"
| "attr_value h (ResourceContext _ inner) = attr_value h inner"
| "attr_value h (ActionContext name _) = Ok (AString name)"

definition NewAttribute :: "string \<Rightarrow> any \<Rightarrow> ('e, attribute) outcome" where
  "NewAttribute key v = (if CheckAttributeType v then Ok (StaticAttribute key v) else Panic)"

definition NewAttributeManager :: "authority_heap \<Rightarrow> string \<Rightarrow> attribute list \<Rightarrow> attribute" where
  "NewAttributeManager h name attrs =
     AttributeManager name (foldl (\<lambda>m a. AList.update (attr_name h a) a m) [] attrs)"

definition NewUserContext :: "authority_heap \<Rightarrow> nat \<Rightarrow> attribute list \<Rightarrow> attribute" where
  "NewUserContext h authority attrs = UserContext authority (NewAttributeManager h ''user'' attrs)"

definition NewEnvironment :: "authority_heap \<Rightarrow> attribute list \<Rightarrow> attribute" where
  "NewEnvironment h attrs = NewAttributeManager h ''env'' attrs"

definition lookup_attribute :: "(string \<times> attribute) list \<Rightarrow> string \<Rightarrow> (unit, attribute) outcome" where
  "lookup_attribute m name = (case map_of m name of None \<Rightarrow> Err () | Some a \<Rightarrow> Ok a)"

text \<open>
  \<open>GetAttribute(name)\<close> of every getter; \<open>Err ()\<close> is the \<open>false\<close> of the Go pair. The two
  attribute types without the method are never asked (see \<open>is_getter\<close>).
\<close>

fun GetAttribute :: "authority_heap \<Rightarrow> attribute \<Rightarrow> string \<Rightarrow> (unit, attribute) outcome" where
  "GetAttribute h (StaticAttribute _ _) name = Err ()"
| "GetAttribute h (DynamicAttribute _ _) name = Err ()"
| "GetAttribute h (AttributeManager _ attributes) name = lookup_attribute attributes name"
| "GetAttribute h (OverriddenAttributeGetter inner override) name =
     (case map_of override name of Some a \<Rightarrow> Ok a | None \<Rightarrow> GetAttribute h inner name)"
| "GetAttribute h (StringArrayAttribute nm values conv) name =
     (if name = ''len'' then NewAttribute (nm @ ''.len'') (AInt64 (of_nat (length values)))
      else
        (case ParseUint10 64 name of
           None \<Rightarrow> Err ()
         | Some index \<Rightarrow>
             if index \<ge> length values then Err ()
             else bind_outcome (NewAttribute (nm @ ''.'' @ decimal index) (AString (values ! index)))
                    (\<lambda>a. Ok (ConvertibleAttribute a conv))))"
| "GetAttribute h (ConvertibleAttribute a conv) name =
     (case map_of conv name of
        None \<Rightarrow> Err ()
      | Some f \<Rightarrow>
          bind_outcome (attr_value h a)
            (\<lambda>v. case f v of None \<Rightarrow> Err ()
                 | Some converted \<Rightarrow> NewAttribute (attr_name h a @ ''.'' @ name) converted))"
| "GetAttribute h (MapAttribute nm m) name =
     (case map_of m name of
        Some (AMap nested) \<Rightarrow> Ok (MapAttribute (nm @ ''.'' @ name) nested)
      | Some v \<Rightarrow> NewAttribute name v
      | None \<Rightarrow> Err ())"
| "GetAttribute h (UserAuthorityAttribute a) name =
     (if name = ''name'' then NewAttribute ''name'' (AString (an_name (h ! a)))
      else if name = ''full_name'' then
        bind_outcome (full_name_text CommonName h a) (\<lambda>s. NewAttribute ''full_name'' (AString s))
      else Err ())"
| "GetAttribute h (AuthorityAttributeMapper a) name =
     (if name = [] then
        bind_outcome (full_name_text CommonName h a)
          (\<lambda>s. NewAttribute ''full_name_suffix'' (AString (''.'' @ s)))
      else
        (case GetChild h a name of
           Some child \<Rightarrow> Ok (AuthorityAttributeMapper child)
         | None \<Rightarrow> Err ()))"
| "GetAttribute h (UserContext authority inner) name =
     (if name = ''authority'' then Ok (UserAuthorityAttribute authority) else GetAttribute h inner name)"
| "GetAttribute h (ResourceContext nm inner) name =
     (if name = ''name'' then NewAttribute ''name'' (AString nm) else GetAttribute h inner name)"
| "GetAttribute h (ActionContext nm args) name =
     (if name = ''name'' then NewAttribute ''name'' (AString nm)
      else if name = ''args'' then Ok (StringArrayAttribute ''args'' args [])
      else Err ())"

section \<open>Resolving an attribute path (access/policy/attribute.go)\<close>

record policy_context =
  pc_hierarchy :: authority_heap
  pc_user :: "attribute option"
  pc_environment :: "attribute option"
  pc_resource :: "attribute option"
  pc_action :: "attribute option"

datatype resolve_error =
    UnknownContext string
  | NoAttribute
  | AttributeNotFound "string list"
  | NotNested "string list"

text \<open>The loop over the path: \<open>before\<close> is what has been walked, for the error texts.\<close>

fun Resolve_from ::
    "authority_heap \<Rightarrow> string list \<Rightarrow> attribute \<Rightarrow> string list \<Rightarrow> (resolve_error, any) outcome" where
  "Resolve_from h before current [] = Err NoAttribute"
| "Resolve_from h before current [nest] =
     (case GetAttribute h current nest of
        Err _ \<Rightarrow> Err (AttributeNotFound (before @ [nest]))
      | Panic \<Rightarrow> Panic
      | Ok attr \<Rightarrow> attr_value h attr)"
| "Resolve_from h before current (nest # nest' # rest) =
     (case GetAttribute h current nest of
        Err _ \<Rightarrow> Err (AttributeNotFound (before @ nest # nest' # rest))
      | Panic \<Rightarrow> Panic
      | Ok attrg \<Rightarrow>
          if is_getter attrg then Resolve_from h (before @ [nest]) attrg (nest' # rest)
          else Err (NotNested (before @ [nest])))"

definition context_of :: "string \<Rightarrow> policy_context \<Rightarrow> attribute option option" where
  "context_of context ctx =
     (if context = ''user'' then Some (pc_user ctx)
      else if context = ''resource'' then Some (pc_resource ctx)
      else if context = ''env'' then Some (pc_environment ctx)
      else if context = ''action'' then Some (pc_action ctx)
      else None)"

text \<open>A nil context is dereferenced by the first \<open>GetAttribute\<close>, which panics.\<close>

definition Resolve :: "string \<Rightarrow> string list \<Rightarrow> policy_context \<Rightarrow> (resolve_error, any) outcome" where
  "Resolve context name ctx =
     (case context_of context ctx of
        None \<Rightarrow> Err (UnknownContext context)
      | Some attrs \<Rightarrow>
          if name = [] then Err NoAttribute
          else (case attrs of
                  None \<Rightarrow> Panic
                | Some current \<Rightarrow> Resolve_from (pc_hierarchy ctx) [] current name))"

section \<open>What the paths of the policies resolve to\<close>

lemma Resolve_user_full_name:
  assumes "pc_user ctx = Some (UserContext a inner)" "FullName (pc_hierarchy ctx) a = Some ns"
  shows "Resolve ''user'' [''authority'', ''full_name''] ctx = Ok (AString (CommonName ns))"
  using assms by (simp add: Resolve_def context_of_def full_name_text_def NewAttribute_def)

lemma Resolve_from_mapper:
  assumes "GetDescendant_from h x path = Some a" "[] \<notin> set path" "FullName h a = Some ns"
  shows "Resolve_from h before (AuthorityAttributeMapper x) (path @ [[]]) =
    Ok (AString (''.'' @ CommonName ns))"
  using assms
proof (induction path arbitrary: x before)
  case Nil
  then show ?case by (simp add: full_name_text_def NewAttribute_def)
next
  case (Cons m path)
  then obtain c where c: "GetChild h x m = Some c" "GetDescendant_from h c path = Some a"
    by (auto split: option.splits)
  obtain q qs where q: "path @ [[]] = q # qs" by (cases "path @ [[]]") auto
  have "Resolve_from h before (AuthorityAttributeMapper x) ((m # path) @ [[]]) =
      Resolve_from h (before @ [m]) (AuthorityAttributeMapper c) (path @ [[]])"
    using Cons.prems(2) c(1) by (auto simp: q)
  with Cons.IH [OF c(2)] Cons.prems(2,3) show ?case by simp
qed

lemma Resolve_env_authority:
  assumes env: "pc_environment ctx = Some env"
    and auth: "GetAttribute (pc_hierarchy ctx) env ''authority'' = Ok (AuthorityAttributeMapper 0)"
    and path: "GetDescendant (pc_hierarchy ctx) path = Some a" "[] \<notin> set path"
    and name: "FullName (pc_hierarchy ctx) a = Some ns"
  shows "Resolve ''env'' (''authority'' # path @ [[]]) ctx = Ok (AString (''.'' @ CommonName ns))"
proof -
  obtain q qs where q: "path @ [[]] = q # qs" by (cases "path @ [[]]") auto
  have "Resolve ''env'' (''authority'' # path @ [[]]) ctx =
      Resolve_from (pc_hierarchy ctx) [''authority''] (AuthorityAttributeMapper 0) (path @ [[]])"
    using env auth by (simp add: Resolve_def context_of_def q)
  also have "\<dots> = Ok (AString (''.'' @ CommonName ns))"
    using path name by (intro Resolve_from_mapper) (auto simp: GetDescendant_def)
  finally show ?thesis .
qed

section \<open>Well-formed attributes\<close>

fun map_value_ok :: "any \<Rightarrow> bool" where
  "map_value_ok (AMap m) = list_all map_value_ok (map snd m)"
| "map_value_ok v = CheckAttributeType v"

definition converters_ok :: "converters \<Rightarrow> bool" where
  "converters_ok conv \<longleftrightarrow>
     (\<forall>(k, f) \<in> set conv. \<forall>v w. f v = Some w \<longrightarrow> CheckAttributeType w)"

fun attribute_ok :: "authority_heap \<Rightarrow> attribute \<Rightarrow> bool" where
  "attribute_ok h (StaticAttribute _ _) = True"
| "attribute_ok h (DynamicAttribute _ _) = True"
| "attribute_ok h (AttributeManager _ m) = list_all (attribute_ok h) (map snd m)"
| "attribute_ok h (OverriddenAttributeGetter inner m) =
     (attribute_ok h inner \<and> list_all (attribute_ok h) (map snd m))"
| "attribute_ok h (StringArrayAttribute _ _ conv) = converters_ok conv"
| "attribute_ok h (ConvertibleAttribute a conv) = (attribute_ok h a \<and> converters_ok conv)"
| "attribute_ok h (MapAttribute _ m) = list_all map_value_ok (map snd m)"
| "attribute_ok h (UserAuthorityAttribute a) = (a < length h)"
| "attribute_ok h (AuthorityAttributeMapper a) = (a < length h)"
| "attribute_ok h (UserContext a inner) = (a < length h \<and> attribute_ok h inner)"
| "attribute_ok h (ResourceContext _ inner) = attribute_ok h inner"
| "attribute_ok h (ActionContext _ _) = True"

definition context_ok :: "policy_context \<Rightarrow> bool" where
  "context_ok ctx \<longleftrightarrow>
     authority_ok (pc_hierarchy ctx) \<and>
     (\<forall>f \<in> {pc_user, pc_environment, pc_resource, pc_action}.
        \<exists>a. f ctx = Some a \<and> attribute_ok (pc_hierarchy ctx) a)"

lemma full_name_text_Ok:
  "authority_ok h \<Longrightarrow> a < length h \<Longrightarrow> \<exists>s. full_name_text fmt h a = Ok s"
  using FullName_total by (fastforce simp: full_name_text_def)

lemma attr_value_Ok:
  "authority_ok h \<Longrightarrow> attribute_ok h attr \<Longrightarrow> \<exists>v. attr_value h attr = Ok v"
  by (induction attr rule: attr_value.induct [where ?a0.0 = h])
    (auto simp: full_name_text_Ok dest: full_name_text_Ok)

lemma NewAttribute_ok: "CheckAttributeType v \<Longrightarrow> NewAttribute k v = Ok (StaticAttribute k v)"
  by (simp add: NewAttribute_def)

text \<open>\<open>GetAttribute\<close> on a well-formed attribute: an attribute that is well formed, or \<open>false\<close>.\<close>

definition getter_result_ok :: "authority_heap \<Rightarrow> (unit, attribute) outcome \<Rightarrow> bool" where
  "getter_result_ok h r \<longleftrightarrow> (case r of Ok a \<Rightarrow> attribute_ok h a | Err _ \<Rightarrow> True | Panic \<Rightarrow> False)"

lemma getter_result_ok_simps [simp]:
  "getter_result_ok h (Ok a) = attribute_ok h a" "getter_result_ok h (Err u)"
  "\<not> getter_result_ok h Panic"
  "CheckAttributeType v \<Longrightarrow> getter_result_ok h (NewAttribute k v)"
  by (simp_all add: getter_result_ok_def NewAttribute_def)

lemma lookup_attribute_ok:
  "list_all (attribute_ok h) (map snd m) \<Longrightarrow> getter_result_ok h (lookup_attribute m name)"
  by (auto simp: lookup_attribute_def split: option.splits dest: list_all_map_of)

lemma GetAttribute_map_ok:
  assumes "list_all map_value_ok (map snd m)"
  shows "getter_result_ok h (GetAttribute h (MapAttribute nm m) name)"
proof (cases "map_of m name")
  case (Some v)
  with assms have "map_value_ok v" by (rule list_all_map_of)
  with Some show ?thesis by (cases v) auto
qed simp

lemma GetAttribute_ok:
  assumes "authority_ok h"
  shows "attribute_ok h attr \<Longrightarrow> getter_result_ok h (GetAttribute h attr name)"
proof (induction attr)
  case (ConvertibleAttribute a conv)
  obtain v where v: "(attr_value h a :: (unit, any) outcome) = Ok v"
    using attr_value_Ok [OF assms] ConvertibleAttribute.prems by fastforce
  show ?case
  proof (cases "map_of conv name")
    case (Some f)
    with ConvertibleAttribute.prems have "\<forall>w. f v = Some w \<longrightarrow> CheckAttributeType w"
      by (fastforce simp: converters_ok_def dest: map_of_SomeD)
    with Some v show ?thesis by (auto split: option.split)
  qed simp
next
  case (UserAuthorityAttribute a)
  then obtain s where "(full_name_text CommonName h a :: (unit, string) outcome) = Ok s"
    using full_name_text_Ok [OF assms] by fastforce
  then show ?case by simp
next
  case (AuthorityAttributeMapper a)
  then obtain s where "(full_name_text CommonName h a :: (unit, string) outcome) = Ok s"
    using full_name_text_Ok [OF assms] by fastforce
  with AuthorityAttributeMapper show ?case
    using GetChild_ok(1) [OF assms] by (auto split: option.split)
next
  case (MapAttribute nm m)
  then show ?case by (intro GetAttribute_map_ok) simp
next
  case (OverriddenAttributeGetter inner m)
  then show ?case
    by (auto split: option.split dest: list_all_map_of)
qed (auto simp: lookup_attribute_ok NewAttribute_ok converters_ok_def split: option.splits)

lemma Resolve_from_no_Panic:
  assumes "authority_ok h"
  shows "attribute_ok h current \<Longrightarrow> Resolve_from h before current name \<noteq> Panic"
proof (induction name arbitrary: before current)
  case Nil
  then show ?case by simp
next
  case (Cons nest rest)
  note got = GetAttribute_ok [OF assms Cons.prems, of nest]
  show ?case
  proof (cases "GetAttribute h current nest")
    case (Ok a)
    with got have a: "attribute_ok h a" by simp
    then obtain v where "(attr_value h a :: (resolve_error, any) outcome) = Ok v"
      using attr_value_Ok [OF assms] by fastforce
    with Ok Cons.IH [OF a] show ?thesis by (cases rest) auto
  next
    case (Err e)
    then show ?thesis by (cases rest) simp_all
  next
    case Panic
    with got show ?thesis by simp
  qed
qed

text \<open>
  Resolving an attribute path never panics over a well-formed hierarchy and contexts whose
  attributes hold only values of the checked types.
\<close>

lemma Resolve_no_Panic:
  assumes "context_ok ctx"
  shows "Resolve context name ctx \<noteq> Panic"
proof -
  have ok: "authority_ok (pc_hierarchy ctx)" using assms by (simp add: context_ok_def)
  have "\<exists>a. attrs = Some a \<and> attribute_ok (pc_hierarchy ctx) a"
    if "context_of context ctx = Some attrs" for attrs
  proof -
    from that have "attrs \<in> {pc_user ctx, pc_environment ctx, pc_resource ctx, pc_action ctx}"
      by (auto simp: context_of_def split: if_splits)
    with assms show ?thesis unfolding context_ok_def by blast
  qed
  then show ?thesis
    using Resolve_from_no_Panic [OF ok] by (auto simp: Resolve_def split: option.split)
qed

definition example_context :: policy_context where
  "example_context =
     \<lparr>pc_hierarchy = example_hierarchy,
      pc_user = Some (NewUserContext example_hierarchy 2 [StaticAttribute ''roles'' (AStrings [''admin''])]),
      pc_environment = Some (NewEnvironment example_hierarchy [AuthorityAttributeMapper 0]),
      pc_resource = Some (ResourceContext ''vip'' (AttributeManager ''vip'' [])),
      pc_action = Some (ActionContext ''apply'' [''10.0.0.1''])\<rparr>"

lemma example_context_ok: "context_ok example_context"
  using authority_reachable_inv [OF example_reachable]
  by (simp add: context_ok_def example_context_def NewUserContext_def NewEnvironment_def
      NewAttributeManager_def)
    (simp add: example_hierarchy_def)

end
