(* ===== verification/Go_Literals.thy ===== *)
theory Go_Literals
  imports Kscale_Prelude
begin

text \<open>
  What the policy language takes from the Go package \<open>strconv\<close>: \<open>ParseInt(s, 0, 64)\<close> and
  \<open>Unquote\<close>. Strings are byte strings; bytes from 128 on pass through \<open>Unquote\<close> unchanged,
  as they do for valid UTF-8 text. \<open>Unquote\<close> is modelled for the two quotes the policy parser
  produces (double quote and back quote); it is never given a single-quoted rune.
\<close>

section \<open>ParseInt with base 0\<close>

definition lower :: "char \<Rightarrow> char" where
  "lower c = ToLower_byte c"

text \<open>The value of a digit in bases up to 36.\<close>

definition base_digit :: "char \<Rightarrow> nat option" where
  "base_digit c =
     (let l = (of_char (lower c) :: nat) in
      if is_digit c then Some (digit_value c)
      else if 97 \<le> l \<and> l \<le> 122 then Some (l - 97 + 10)
      else None)"

text \<open>The digit loop of \<open>ParseUint\<close>; an underscore is skipped and remembered.\<close>

fun ParseUint_loop :: "nat \<Rightarrow> string \<Rightarrow> nat \<Rightarrow> bool \<Rightarrow> (nat \<times> bool) option" where
  "ParseUint_loop base [] n underscores = Some (n, underscores)"
| "ParseUint_loop base (c # s) n underscores =
     (if c = CHR ''_'' then ParseUint_loop base s n True
      else (case base_digit c of
              None \<Rightarrow> None
            | Some d \<Rightarrow>
                if d \<ge> base then None
                else if n * base + d \<ge> 2 ^ 64 then None
                else ParseUint_loop base s (n * base + d) underscores))"

text \<open>\<open>underscoreOK\<close>: underscores only between digits, the base prefix counting as a digit.\<close>

datatype seen = SeenStart | SeenDigit | SeenUnderscore | SeenOther

fun underscore_loop :: "bool \<Rightarrow> seen \<Rightarrow> string \<Rightarrow> bool" where
  "underscore_loop hex i [] = (i \<noteq> SeenUnderscore)"
| "underscore_loop hex i (c # s) =
     (if is_digit c \<or> (hex \<and> 97 \<le> (of_char (lower c) :: nat) \<and> (of_char (lower c) :: nat) \<le> 102)
      then underscore_loop hex SeenDigit s
      else if c = CHR ''_'' then (if i \<noteq> SeenDigit then False else underscore_loop hex SeenUnderscore s)
      else if i = SeenUnderscore then False
      else underscore_loop hex SeenOther s)"

definition underscoreOK :: "string \<Rightarrow> bool" where
  "underscoreOK s =
     (case s of
        a # b # s' \<Rightarrow>
          if a = CHR ''0'' \<and> lower b \<in> {CHR ''b'', CHR ''o'', CHR ''x''}
          then underscore_loop (lower b = CHR ''x'') SeenDigit s'
          else underscore_loop False SeenStart s
      | _ \<Rightarrow> underscore_loop False SeenStart s)"

text \<open>The base and the digits of a literal: a prefix, or a leading zero for octal.\<close>

definition split_base :: "string \<Rightarrow> nat \<times> string" where
  "split_base s =
     (case s of
        CHR ''0'' # b # c # s' \<Rightarrow>
          if lower b = CHR ''b'' then (2, c # s')
          else if lower b = CHR ''o'' then (8, c # s')
          else if lower b = CHR ''x'' then (16, c # s')
          else (8, b # c # s')
      | CHR ''0'' # s' \<Rightarrow> (8, s')
      | _ \<Rightarrow> (10, s))"

definition ParseUint0 :: "string \<Rightarrow> nat option" where
  "ParseUint0 s =
     (if s = [] then None
      else
        let (base, digits) = split_base s in
        case ParseUint_loop base digits 0 False of
          None \<Rightarrow> None
        | Some (n, underscores) \<Rightarrow> if underscores \<and> \<not> underscoreOK s then None else Some n)"

definition ParseInt0 :: "string \<Rightarrow> i64 option" where
  "ParseInt0 s =
     (if s = [] then None
      else
        let neg = (hd s = CHR ''-'');
            body = (if hd s = CHR ''-'' \<or> hd s = CHR ''+'' then tl s else s) in
        case ParseUint0 body of
          None \<Rightarrow> None
        | Some un \<Rightarrow>
            if \<not> neg \<and> un \<ge> 2 ^ 63 then None
            else if neg \<and> un > 2 ^ 63 then None
            else Some (if neg then word_of_int (- int un) else word_of_int (int un)))"

section \<open>Unquote\<close>

definition hex_value :: "char \<Rightarrow> nat option" where
  "hex_value c = (case base_digit c of Some d \<Rightarrow> if d < 16 then Some d else None | None \<Rightarrow> None)"

fun hex_digits :: "string \<Rightarrow> nat \<Rightarrow> nat option" where
  "hex_digits [] v = Some v"
| "hex_digits (c # s) v = (case hex_value c of None \<Rightarrow> None | Some d \<Rightarrow> hex_digits s (16 * v + d))"

text \<open>\<open>utf8.AppendRune\<close> of a valid code point.\<close>

definition utf8_rune :: "nat \<Rightarrow> string" where
  "utf8_rune r =
     (if r < 128 then [char_of r]
      else if r < 2048 then [char_of (192 + r div 64), char_of (128 + r mod 64)]
      else if r < 65536 then
        [char_of (224 + r div 4096), char_of (128 + r div 64 mod 64), char_of (128 + r mod 64)]
      else [char_of (240 + r div 262144), char_of (128 + r div 4096 mod 64),
            char_of (128 + r div 64 mod 64), char_of (128 + r mod 64)])"

definition ValidRune :: "nat \<Rightarrow> bool" where
  "ValidRune r \<longleftrightarrow> r < 55296 \<or> (57343 < r \<and> r \<le> 1114111)"

definition simple_escape :: "char \<Rightarrow> char option" where
  "simple_escape c =
     (if c = CHR ''a'' then Some (char_of (7::nat))
      else if c = CHR ''b'' then Some (char_of (8::nat))
      else if c = CHR ''f'' then Some (char_of (12::nat))
      else if c = CHR ''n'' then Some (char_of (10::nat))
      else if c = CHR ''r'' then Some (char_of (13::nat))
      else if c = CHR ''t'' then Some (char_of (9::nat))
      else if c = CHR ''v'' then Some (char_of (11::nat))
      else if c = CHR 0x5C then Some (CHR 0x5C)
      else if c = CHR 0x22 then Some (CHR 0x22)
      else None)"

definition octal_value :: "char \<Rightarrow> nat option" where
  "octal_value c = (if is_digit c \<and> digit_value c < 8 then Some (digit_value c) else None)"

text \<open>
  \<open>UnquoteChar\<close> inside double quotes: the bytes the next character stands for and the rest.
  \<open>CHR 0x5C\<close> is the backslash, \<open>CHR 0x22\<close> the double quote.
\<close>

fun UnquoteChar :: "string \<Rightarrow> (string \<times> string) option" where
  "UnquoteChar [] = None"
| "UnquoteChar (c # s) =
     (if c \<noteq> CHR 0x5C then Some ([c], s)
      else (case s of
          [] \<Rightarrow> None
        | e # s' \<Rightarrow>
            (case simple_escape e of
               Some b \<Rightarrow> Some ([b], s')
             | None \<Rightarrow>
                 if e = CHR ''x'' \<or> e = CHR ''u'' \<or> e = CHR ''U'' then
                   let n = (if e = CHR ''x'' then 2 else if e = CHR ''u'' then 4 else 8) in
                   if length s' < n then None
                   else (case hex_digits (take n s') 0 of
                           None \<Rightarrow> None
                         | Some v \<Rightarrow>
                             if e = CHR ''x'' then Some ([char_of v], drop n s')
                             else if \<not> ValidRune v then None
                             else Some (utf8_rune v, drop n s'))
                 else (case (octal_value e, s') of
                         (Some a, o1 # o2 # s'') \<Rightarrow>
                           (case (octal_value o1, octal_value o2) of
                              (Some b, Some d) \<Rightarrow>
                                let v = 64 * a + 8 * b + d in
                                if v > 255 then None else Some ([char_of v], s'')
                            | _ \<Rightarrow> None)
                       | _ \<Rightarrow> None))))"

lemma UnquoteChar_shorter: "UnquoteChar s = Some (b, r) \<Longrightarrow> length r < length s"
  by (cases s)
    (auto simp: Let_def split: if_splits list.splits option.splits prod.splits)

text \<open>The loop of \<open>unquote\<close> after the opening double quote: the bytes, and what follows the
  closing quote. A line feed ends the literal with an error.\<close>

function unquote_loop :: "string \<Rightarrow> (string \<times> string) option" where
  "unquote_loop s =
     (case s of
        [] \<Rightarrow> None
      | c # s' \<Rightarrow>
          if c = CHR 0x22 then Some ([], s')
          else if c = CHR 0x0A then None
          else (case UnquoteChar s of
                  None \<Rightarrow> None
                | Some (b, r) \<Rightarrow> map_option (\<lambda>(out, rem). (b @ out, rem)) (unquote_loop r)))"
  by pat_completeness auto
termination
proof (relation "measure length")
  fix s c s' p b r
  assume "UnquoteChar s = Some p" "(b, r) = p"
  then show "(r, s) \<in> measure length" using UnquoteChar_shorter [of s b r] by simp
qed simp

declare unquote_loop.simps [simp del]

definition Unquote :: "string \<Rightarrow> string option" where
  "Unquote s =
     (if length s < 2 then None
      else if hd s = CHR 0x60 then
        (case Cut (CHR 0x60) (tl s) of
           None \<Rightarrow> None
         | Some (body, rem) \<Rightarrow>
             if rem \<noteq> [] then None else Some (filter (\<lambda>c. c \<noteq> CHR 0x0D) body))
      else if hd s = CHR 0x22 then
        (case unquote_loop (tl s) of
           None \<Rightarrow> None
         | Some (out, rem) \<Rightarrow> if rem \<noteq> [] then None else Some out)
      else None)"

end
