(* ===== verification/Conditions.thy ===== *)
theory Conditions
  imports Attributes Go_Literals
begin

text \<open>
  The comparison conditions of the policy language: \<open>MaybeVariable\<close> and \<open>GenericCondition\<close> of
  \<open>access/policy/generic.go\<close>, the helpers of \<open>compare_helper.go\<close>, and, of the 42 operations of
  \<open>compare.go\<close>, the nineteen on strings, integers, string lists and existence with their
  \<open>Compare\<close>, \<open>Parse\<close>, \<open>ParseDirect\<close> and \<open>UnmarshalFromMap\<close> methods. The operations on floats,
  durations, times, addresses, globs and regular expressions are recognised by name and give
  the error \<open>UnmodelledOperation\<close>.
\<close>

section \<open>Conditions and the audit trail\<close>

text \<open>\<open>MaybeVariable[T, U]\<close>; \<open>PrecompiledValue\<close> is set exactly when the flag \<open>Precompiled\<close> is.\<close>

record ('t, 'u) maybe_variable =
  mv_Value :: 't
  mv_Precompiled :: "'u option"
  mv_Variable :: "string list"

type_synonym 't plain_variable = "('t, unit) maybe_variable"

datatype condition =
    StringEquals "string plain_variable"
  | StringNotEquals "string plain_variable"
  | StringPrefix "string plain_variable"
  | StringSuffix "string plain_variable"
  | StringContains "string plain_variable"
  | IntegerEquals "i64 plain_variable"
  | IntegerNotEquals "i64 plain_variable"
  | IntegerGreaterThan "i64 plain_variable"
  | IntegerGreaterThanOrEqual "i64 plain_variable"
  | IntegerLessThan "i64 plain_variable"
  | IntegerLessThanOrEqual "i64 plain_variable"
  | IntegerBetween "i64 plain_variable" "i64 plain_variable"
  | StringListContains "string plain_variable"
  | StringInList "string list plain_variable"
  | StringListContainsAny "(string list, string list) maybe_variable"
  | StringListContainsAll "string list plain_variable"
  | StringListIsEmpty
  | Exists
  | NotExists

datatype value_error =
    ResolveFailed "string list" resolve_error
  | VariableHasType "string list" any
  | BadLiteral
  | NotSingleVariable nat
  | ExpectedTypeOrMap any
  | ExpectedVarKey
  | VarNotString

datatype cond_error =
    TargetHasType string any
  | ArgumentFailed string nat value_error
  | ArgCount string nat nat
  | ListArgCount nat
  | MissingField string string
  | NotInitialized
  | NoArguments
  | OperationNotString
  | UnknownOperation string
  | UnmodelledOperation string

text \<open>The three audit records and the resolver that collects them (policy/attribute.go).\<close>

record resolve_record =
  rr_PolicyName :: string
  rr_Context :: string
  rr_Attribute :: "string list"
  rr_Resolved :: "(resolve_error, any) outcome"

record used_value_record =
  uv_PolicyName :: string
  uv_Field :: string
  uv_Value :: any

record compare_record =
  cr_Condition :: condition
  cr_Target :: any
  cr_Result :: bool
  cr_Err :: "cond_error option"

record attribute_resolver =
  ar_ctx :: policy_context
  ar_policyName :: string
  ar_auditResolve :: "resolve_record list"
  ar_auditUse :: "used_value_record list"
  ar_auditCompare :: "compare_record list"

type_synonym compare_result = "(cond_error, bool) outcome \<times> attribute_resolver"

definition resolver_Resolve ::
    "attribute_resolver \<Rightarrow> string list \<Rightarrow> (resolve_error, any) outcome \<times> attribute_resolver" where
  "resolver_Resolve r name =
     (case name of
        [] \<Rightarrow> (Err NoAttribute, r)
      | context # attrName \<Rightarrow>
          let resolved = Resolve context attrName (ar_ctx r) in
          (resolved,
           if resolved = Panic then r
           else r\<lparr>ar_auditResolve := ar_auditResolve r @
             [\<lparr>rr_PolicyName = ar_policyName r, rr_Context = context, rr_Attribute = attrName,
               rr_Resolved = resolved\<rparr>]\<rparr>))"

definition AuditValue :: "attribute_resolver \<Rightarrow> string \<Rightarrow> any \<Rightarrow> attribute_resolver" where
  "AuditValue r field v = r\<lparr>ar_auditUse := ar_auditUse r @
     [\<lparr>uv_PolicyName = ar_policyName r, uv_Field = field, uv_Value = v\<rparr>]\<rparr>"

definition AuditResult ::
    "attribute_resolver \<Rightarrow> condition \<Rightarrow> any \<Rightarrow> bool \<Rightarrow> cond_error option \<Rightarrow> attribute_resolver" where
  "AuditResult r c target result err = r\<lparr>ar_auditCompare := ar_auditCompare r @
     [\<lparr>cr_Condition = c, cr_Target = target, cr_Result = result, cr_Err = err\<rparr>]\<rparr>"

section \<open>MaybeVariable (access/policy/generic.go)\<close>

text \<open>A Go type argument: its type assertion and its embedding into \<open>any\<close>.\<close>

type_synonym 't go_type = "(any \<Rightarrow> 't option) \<times> ('t \<Rightarrow> any)"

definition string_type :: "string go_type" where
  "string_type = (\<lambda>x. case x of AString s \<Rightarrow> Some s | _ \<Rightarrow> None, AString)"

definition int64_type :: "i64 go_type" where
  "int64_type = (\<lambda>x. case x of AInt64 i \<Rightarrow> Some i | _ \<Rightarrow> None, AInt64)"

definition strings_type :: "string list go_type" where
  "strings_type = (\<lambda>x. case x of AStrings l \<Rightarrow> Some l | _ \<Rightarrow> None, AStrings)"

definition string_set_type :: "string list go_type" where
  "string_set_type = (\<lambda>x. case x of AStringSet l \<Rightarrow> Some l | _ \<Rightarrow> None, AStringSet)"

definition zero_variable :: "'t \<Rightarrow> ('t, 'u) maybe_variable" where
  "zero_variable z = \<lparr>mv_Value = z, mv_Precompiled = None, mv_Variable = []\<rparr>"

definition IsVariable :: "('t, 'u) maybe_variable \<Rightarrow> bool" where
  "IsVariable mv \<longleftrightarrow> length (mv_Variable mv) > 0"

definition ParseStringList ::
    "(string list \<Rightarrow> 't option) \<Rightarrow> string list \<Rightarrow> ('t, 'u) maybe_variable \<Rightarrow>
       (value_error, ('t, 'u) maybe_variable) outcome" where
  "ParseStringList parse inputs mv =
     (if length inputs \<ge> 1 \<and> HasPrefix (hd inputs) ''$'' then
        if length inputs \<noteq> 1 then Err (NotSingleVariable (length inputs))
        else Ok (mv\<lparr>mv_Variable := Split (CHR ''.'') (tl (hd inputs))\<rparr>)
      else (case parse inputs of
              None \<Rightarrow> Err BadLiteral
            | Some value \<Rightarrow> Ok (mv\<lparr>mv_Value := value\<rparr>)))"

definition ParseString ::
    "(string \<Rightarrow> 't option) \<Rightarrow> string \<Rightarrow> ('t, 'u) maybe_variable \<Rightarrow>
       (value_error, ('t, 'u) maybe_variable) outcome" where
  "ParseString parse input mv =
     (if length input \<ge> 2 \<and> hd input = CHR ''$'' then
        Ok (mv\<lparr>mv_Variable := Split (CHR ''.'') (tl input)\<rparr>)
      else (case parse input of
              None \<Rightarrow> Err BadLiteral
            | Some value \<Rightarrow> Ok (mv\<lparr>mv_Value := value\<rparr>)))"

definition ParseAny ::
    "'t go_type \<Rightarrow> any \<Rightarrow> ('t, 'u) maybe_variable \<Rightarrow>
       (value_error, ('t, 'u) maybe_variable) outcome" where
  "ParseAny ty input mv =
     (case fst ty input of
        Some v \<Rightarrow> Ok (mv\<lparr>mv_Value := v\<rparr>)
      | None \<Rightarrow>
          (case input of
             AMap m \<Rightarrow>
               (case map_of m ''var'' of
                  None \<Rightarrow> Err ExpectedVarKey
                | Some (AString varName) \<Rightarrow> Ok (mv\<lparr>mv_Variable := Split (CHR ''.'') varName\<rparr>)
                | Some _ \<Rightarrow> Err VarNotString)
           | _ \<Rightarrow> Err (ExpectedTypeOrMap input)))"

definition GetValue ::
    "'t go_type \<Rightarrow> ('t, 'u) maybe_variable \<Rightarrow> attribute_resolver \<Rightarrow> string \<Rightarrow>
       (value_error, 't) outcome \<times> attribute_resolver" where
  "GetValue ty mv r field =
     (if IsVariable mv then
        (case resolver_Resolve r (mv_Variable mv) of
           (Panic, r') \<Rightarrow> (Panic, r')
         | (Err e, r') \<Rightarrow> (Err (ResolveFailed (mv_Variable mv) e), r')
         | (Ok x, r') \<Rightarrow>
             (case fst ty x of
                None \<Rightarrow> (Err (VariableHasType (mv_Variable mv) x), r')
              | Some val \<Rightarrow> (Ok val, AuditValue r' field (snd ty val))))
      else (Ok (mv_Value mv), AuditValue r field (snd ty (mv_Value mv))))"

text \<open>Precompilation with a function that cannot fail (\<open>makeStringSet\<close> is the only one modelled).\<close>

definition Precompile :: "('t \<Rightarrow> 'u) \<Rightarrow> ('t, 'u) maybe_variable \<Rightarrow> ('t, 'u) maybe_variable" where
  "Precompile precompileFunc mv =
     (if IsVariable mv then mv
      else mv\<lparr>mv_Precompiled := Some (precompileFunc (mv_Value mv))\<rparr>)"

definition GetPrecompiledValue ::
    "'t go_type \<Rightarrow> 'u go_type \<Rightarrow> ('t \<Rightarrow> 'u) \<Rightarrow> ('t, 'u) maybe_variable \<Rightarrow> attribute_resolver \<Rightarrow>
       string \<Rightarrow> (value_error, 'u) outcome \<times> attribute_resolver" where
  "GetPrecompiledValue ty uty precompileFunc mv r field =
     (if IsVariable mv then
        (case resolver_Resolve r (mv_Variable mv) of
           (Panic, r') \<Rightarrow> (Panic, r')
         | (Err e, r') \<Rightarrow> (Err (ResolveFailed (mv_Variable mv) e), r')
         | (Ok x, r') \<Rightarrow>
             (case fst uty x of
                Some u \<Rightarrow> (Ok u, r')
              | None \<Rightarrow>
                  (case fst ty x of
                     None \<Rightarrow> (Err (VariableHasType (mv_Variable mv) x), r')
                   | Some t \<Rightarrow>
                       let val = precompileFunc t in (Ok val, AuditValue r' field (snd uty val)))))
      else (case mv_Precompiled mv of
              Some u \<Rightarrow> (Ok u, AuditValue r field (snd uty u))
            | None \<Rightarrow>
                let val = precompileFunc (mv_Value mv) in (Ok val, AuditValue r field (snd uty val))))"

section \<open>Helpers of the generated methods\<close>

definition parseString :: "string \<Rightarrow> string option" where
  "parseString input = Unquote input"

definition parseInt64 :: "string \<Rightarrow> i64 option" where
  "parseInt64 input = ParseInt0 input"

fun parseStringList :: "string list \<Rightarrow> string list option" where
  "parseStringList [] = Some []"
| "parseStringList (s # input) =
     (case Unquote s of
        None \<Rightarrow> None
      | Some unquoted \<Rightarrow> map_option (\<lambda>rest. unquoted # rest) (parseStringList input))"

fun stringListContainsAny :: "string list \<Rightarrow> string list \<Rightarrow> bool" where
  "stringListContainsAny [] candidates = False"
| "stringListContainsAny (t # target) candidates =
     (if t \<in> set candidates then True else stringListContainsAny target candidates)"

fun stringListContainsAll :: "string list \<Rightarrow> string list \<Rightarrow> bool" where
  "stringListContainsAll target [] = True"
| "stringListContainsAll target (req # required) =
     (if \<not> List.list_ex (\<lambda>t. t = req) target then False else stringListContainsAll target required)"

text \<open>A Go set \<open>map[string]struct{}\<close> is the list of its members.\<close>

definition makeStringSet :: "string list \<Rightarrow> string list" where
  "makeStringSet l = remdups l"

definition audited :: "condition \<Rightarrow> attribute_resolver \<Rightarrow> any \<Rightarrow> bool \<Rightarrow> compare_result" where
  "audited c r rawTarget result = (Ok result, AuditResult r c rawTarget result None)"

definition target_type_error :: "string \<Rightarrow> condition \<Rightarrow> attribute_resolver \<Rightarrow> any \<Rightarrow> compare_result" where
  "target_type_error op c r rawTarget =
     (let err = TargetHasType op rawTarget in (Err err, AuditResult r c rawTarget False (Some err)))"

text \<open>The generated \<open>Compare\<close> of an operation with one plain argument.\<close>

definition compare_unary ::
    "string \<Rightarrow> string \<Rightarrow> 'a go_type \<Rightarrow> 't go_type \<Rightarrow> ('a \<Rightarrow> 't \<Rightarrow> bool) \<Rightarrow> 't plain_variable \<Rightarrow>
       condition \<Rightarrow> attribute_resolver \<Rightarrow> any \<Rightarrow> compare_result" where
  "compare_unary op field target_ty arg_ty rel v c r rawTarget =
     (case fst target_ty rawTarget of
        None \<Rightarrow> target_type_error op c r rawTarget
      | Some target \<Rightarrow>
          (case GetValue arg_ty v r field of
             (Panic, r') \<Rightarrow> (Panic, r')
           | (Err e, r') \<Rightarrow> (Err (ArgumentFailed op 0 e), r')
           | (Ok arg0, r') \<Rightarrow> audited c r' rawTarget (rel target arg0)))"

definition parse_unary ::
    "string \<Rightarrow> (string \<Rightarrow> 't option) \<Rightarrow> 't \<Rightarrow> ('t plain_variable \<Rightarrow> condition) \<Rightarrow> string list \<Rightarrow>
       (cond_error, condition) outcome" where
  "parse_unary op parse z build args =
     (if length args \<noteq> 1 then Err (ArgCount op 1 (length args))
      else bind_outcome (map_error (ArgumentFailed op 0) (ParseString parse (hd args) (zero_variable z)))
             (\<lambda>v. Ok (build v)))"

definition direct_unary ::
    "string \<Rightarrow> 't go_type \<Rightarrow> 't \<Rightarrow> ('t plain_variable \<Rightarrow> condition) \<Rightarrow> any list \<Rightarrow>
       (cond_error, condition) outcome" where
  "direct_unary op ty z build args =
     (if length args \<noteq> 1 then Err (ArgCount op 1 (length args))
      else bind_outcome (map_error (ArgumentFailed op 0) (ParseAny ty (hd args) (zero_variable z)))
             (\<lambda>v. Ok (build v)))"

definition unmarshal_unary ::
    "string \<Rightarrow> string \<Rightarrow> 't go_type \<Rightarrow> 't \<Rightarrow> (('t, 'u) maybe_variable \<Rightarrow> condition) \<Rightarrow>
       (string \<times> any) list \<Rightarrow> (cond_error, condition) outcome" where
  "unmarshal_unary op field ty z build m =
     (case map_of m field of
        None \<Rightarrow> Err (MissingField op field)
      | Some v0 \<Rightarrow>
          bind_outcome (map_error (ArgumentFailed op 0) (ParseAny ty v0 (zero_variable z)))
            (\<lambda>v. Ok (build v)))"

text \<open>The generated \<open>Parse\<close> and \<open>ParseDirect\<close> of an operation whose argument is a list.\<close>

definition parse_list ::
    "string \<Rightarrow> ((string list, 'u) maybe_variable \<Rightarrow> (cond_error, condition) outcome) \<Rightarrow> string list \<Rightarrow>
       (cond_error, condition) outcome" where
  "parse_list op finish args =
     bind_outcome (map_error (ArgumentFailed op 0) (ParseStringList parseStringList args (zero_variable [])))
       finish"

definition direct_list ::
    "string \<Rightarrow> ((string list, 'u) maybe_variable \<Rightarrow> (cond_error, condition) outcome) \<Rightarrow> any list \<Rightarrow>
       (cond_error, condition) outcome" where
  "direct_list op finish args =
     (if length args \<noteq> 1 then Err (ListArgCount (length args))
      else bind_outcome (map_error (ArgumentFailed op 0) (ParseAny strings_type (hd args) (zero_variable [])))
             finish)"

section \<open>The operations (access/policy/compare.go)\<close>

definition StringEquals_Compare :: "(string, unit) maybe_variable \<Rightarrow> attribute_resolver \<Rightarrow> any \<Rightarrow> compare_result" where
  "StringEquals_Compare v = compare_unary ''StringEquals'' ''StringEquals.Value'' string_type string_type
     (\<lambda>target arg0. target = arg0) v (StringEquals v)"

definition StringEquals_Parse :: "string list \<Rightarrow> (cond_error, condition) outcome" where
  "StringEquals_Parse = parse_unary ''StringEquals'' parseString [] StringEquals"

definition StringEquals_ParseDirect :: "any list \<Rightarrow> (cond_error, condition) outcome" where
  "StringEquals_ParseDirect = direct_unary ''StringEquals'' string_type [] StringEquals"

definition StringEquals_UnmarshalFromMap :: "(string \<times> any) list \<Rightarrow> (cond_error, condition) outcome" where
  "StringEquals_UnmarshalFromMap = unmarshal_unary ''StringEquals'' ''value'' string_type [] StringEquals"

definition StringNotEquals_Compare :: "(string, unit) maybe_variable \<Rightarrow> attribute_resolver \<Rightarrow> any \<Rightarrow> compare_result" where
  "StringNotEquals_Compare v = compare_unary ''StringNotEquals'' ''StringNotEquals.Value'' string_type string_type
     (\<lambda>target arg0. target \<noteq> arg0) v (StringNotEquals v)"

definition StringNotEquals_Parse :: "string list \<Rightarrow> (cond_error, condition) outcome" where
  "StringNotEquals_Parse = parse_unary ''StringNotEquals'' parseString [] StringNotEquals"

definition StringNotEquals_ParseDirect :: "any list \<Rightarrow> (cond_error, condition) outcome" where
  "StringNotEquals_ParseDirect = direct_unary ''StringNotEquals'' string_type [] StringNotEquals"

definition StringNotEquals_UnmarshalFromMap :: "(string \<times> any) list \<Rightarrow> (cond_error, condition) outcome" where
  "StringNotEquals_UnmarshalFromMap = unmarshal_unary ''StringNotEquals'' ''value'' string_type [] StringNotEquals"

definition StringPrefix_Compare :: "(string, unit) maybe_variable \<Rightarrow> attribute_resolver \<Rightarrow> any \<Rightarrow> compare_result" where
  "StringPrefix_Compare v = compare_unary ''StringPrefix'' ''StringPrefix.Prefix'' string_type string_type
     (\<lambda>target arg0. HasPrefix target arg0) v (StringPrefix v)"

definition StringPrefix_Parse :: "string list \<Rightarrow> (cond_error, condition) outcome" where
  "StringPrefix_Parse = parse_unary ''StringPrefix'' parseString [] StringPrefix"

definition StringPrefix_ParseDirect :: "any list \<Rightarrow> (cond_error, condition) outcome" where
  "StringPrefix_ParseDirect = direct_unary ''StringPrefix'' string_type [] StringPrefix"

definition StringPrefix_UnmarshalFromMap :: "(string \<times> any) list \<Rightarrow> (cond_error, condition) outcome" where
  "StringPrefix_UnmarshalFromMap = unmarshal_unary ''StringPrefix'' ''prefix'' string_type [] StringPrefix"

definition StringSuffix_Compare :: "(string, unit) maybe_variable \<Rightarrow> attribute_resolver \<Rightarrow> any \<Rightarrow> compare_result" where
  "StringSuffix_Compare v = compare_unary ''StringSuffix'' ''StringSuffix.Suffix'' string_type string_type
     (\<lambda>target arg0. HasSuffix target arg0) v (StringSuffix v)"

definition StringSuffix_Parse :: "string list \<Rightarrow> (cond_error, condition) outcome" where
  "StringSuffix_Parse = parse_unary ''StringSuffix'' parseString [] StringSuffix"

definition StringSuffix_ParseDirect :: "any list \<Rightarrow> (cond_error, condition) outcome" where
  "StringSuffix_ParseDirect = direct_unary ''StringSuffix'' string_type [] StringSuffix"

definition StringSuffix_UnmarshalFromMap :: "(string \<times> any) list \<Rightarrow> (cond_error, condition) outcome" where
  "StringSuffix_UnmarshalFromMap = unmarshal_unary ''StringSuffix'' ''suffix'' string_type [] StringSuffix"

definition StringContains_Compare :: "(string, unit) maybe_variable \<Rightarrow> attribute_resolver \<Rightarrow> any \<Rightarrow> compare_result" where
  "StringContains_Compare v = compare_unary ''StringContains'' ''StringContains.Substr'' string_type string_type
     (\<lambda>target arg0. Contains target arg0) v (StringContains v)"

definition StringContains_Parse :: "string list \<Rightarrow> (cond_error, condition) outcome" where
  "StringContains_Parse = parse_unary ''StringContains'' parseString [] StringContains"

definition StringContains_ParseDirect :: "any list \<Rightarrow> (cond_error, condition) outcome" where
  "StringContains_ParseDirect = direct_unary ''StringContains'' string_type [] StringContains"

definition StringContains_UnmarshalFromMap :: "(string \<times> any) list \<Rightarrow> (cond_error, condition) outcome" where
  "StringContains_UnmarshalFromMap = unmarshal_unary ''StringContains'' ''substr'' string_type [] StringContains"

definition IntegerEquals_Compare :: "(i64, unit) maybe_variable \<Rightarrow> attribute_resolver \<Rightarrow> any \<Rightarrow> compare_result" where
  "IntegerEquals_Compare v = compare_unary ''IntegerEquals'' ''IntegerEquals.Value'' int64_type int64_type
     (\<lambda>target arg0. target = arg0) v (IntegerEquals v)"

definition IntegerEquals_Parse :: "string list \<Rightarrow> (cond_error, condition) outcome" where
  "IntegerEquals_Parse = parse_unary ''IntegerEquals'' parseInt64 0 IntegerEquals"

definition IntegerEquals_ParseDirect :: "any list \<Rightarrow> (cond_error, condition) outcome" where
  "IntegerEquals_ParseDirect = direct_unary ''IntegerEquals'' int64_type 0 IntegerEquals"

definition IntegerEquals_UnmarshalFromMap :: "(string \<times> any) list \<Rightarrow> (cond_error, condition) outcome" where
  "IntegerEquals_UnmarshalFromMap = unmarshal_unary ''IntegerEquals'' ''value'' int64_type 0 IntegerEquals"

definition IntegerNotEquals_Compare :: "(i64, unit) maybe_variable \<Rightarrow> attribute_resolver \<Rightarrow> any \<Rightarrow> compare_result" where
  "IntegerNotEquals_Compare v = compare_unary ''IntegerNotEquals'' ''IntegerNotEquals.Value'' int64_type int64_type
     (\<lambda>target arg0. target \<noteq> arg0) v (IntegerNotEquals v)"

definition IntegerNotEquals_Parse :: "string list \<Rightarrow> (cond_error, condition) outcome" where
  "IntegerNotEquals_Parse = parse_unary ''IntegerNotEquals'' parseInt64 0 IntegerNotEquals"

definition IntegerNotEquals_ParseDirect :: "any list \<Rightarrow> (cond_error, condition) outcome" where
  "IntegerNotEquals_ParseDirect = direct_unary ''IntegerNotEquals'' int64_type 0 IntegerNotEquals"

definition IntegerNotEquals_UnmarshalFromMap :: "(string \<times> any) list \<Rightarrow> (cond_error, condition) outcome" where
  "IntegerNotEquals_UnmarshalFromMap = unmarshal_unary ''IntegerNotEquals'' ''value'' int64_type 0 IntegerNotEquals"

definition IntegerGreaterThan_Compare :: "(i64, unit) maybe_variable \<Rightarrow> attribute_resolver \<Rightarrow> any \<Rightarrow> compare_result" where
  "IntegerGreaterThan_Compare v = compare_unary ''IntegerGreaterThan'' ''IntegerGreaterThan.Threshold'' int64_type int64_type
     (\<lambda>target arg0. sint target > sint arg0) v (IntegerGreaterThan v)"

definition IntegerGreaterThan_Parse :: "string list \<Rightarrow> (cond_error, condition) outcome" where
  "IntegerGreaterThan_Parse = parse_unary ''IntegerGreaterThan'' parseInt64 0 IntegerGreaterThan"

definition IntegerGreaterThan_ParseDirect :: "any list \<Rightarrow> (cond_error, condition) outcome" where
  "IntegerGreaterThan_ParseDirect = direct_unary ''IntegerGreaterThan'' int64_type 0 IntegerGreaterThan"

definition IntegerGreaterThan_UnmarshalFromMap :: "(string \<times> any) list \<Rightarrow> (cond_error, condition) outcome" where
  "IntegerGreaterThan_UnmarshalFromMap = unmarshal_unary ''IntegerGreaterThan'' ''threshold'' int64_type 0 IntegerGreaterThan"

definition IntegerGreaterThanOrEqual_Compare :: "(i64, unit) maybe_variable \<Rightarrow> attribute_resolver \<Rightarrow> any \<Rightarrow> compare_result" where
  "IntegerGreaterThanOrEqual_Compare v = compare_unary ''IntegerGreaterThanOrEqual'' ''IntegerGreaterThanOrEqual.Threshold'' int64_type int64_type
     (\<lambda>target arg0. sint target \<ge> sint arg0) v (IntegerGreaterThanOrEqual v)"

definition IntegerGreaterThanOrEqual_Parse :: "string list \<Rightarrow> (cond_error, condition) outcome" where
  "IntegerGreaterThanOrEqual_Parse = parse_unary ''IntegerGreaterThanOrEqual'' parseInt64 0 IntegerGreaterThanOrEqual"

definition IntegerGreaterThanOrEqual_ParseDirect :: "any list \<Rightarrow> (cond_error, condition) outcome" where
  "IntegerGreaterThanOrEqual_ParseDirect = direct_unary ''IntegerGreaterThanOrEqual'' int64_type 0 IntegerGreaterThanOrEqual"

definition IntegerGreaterThanOrEqual_UnmarshalFromMap :: "(string \<times> any) list \<Rightarrow> (cond_error, condition) outcome" where
  "IntegerGreaterThanOrEqual_UnmarshalFromMap = unmarshal_unary ''IntegerGreaterThanOrEqual'' ''threshold'' int64_type 0 IntegerGreaterThanOrEqual"

definition IntegerLessThan_Compare :: "(i64, unit) maybe_variable \<Rightarrow> attribute_resolver \<Rightarrow> any \<Rightarrow> compare_result" where
  "IntegerLessThan_Compare v = compare_unary ''IntegerLessThan'' ''IntegerLessThan.Threshold'' int64_type int64_type
     (\<lambda>target arg0. sint target < sint arg0) v (IntegerLessThan v)"

definition IntegerLessThan_Parse :: "string list \<Rightarrow> (cond_error, condition) outcome" where
  "IntegerLessThan_Parse = parse_unary ''IntegerLessThan'' parseInt64 0 IntegerLessThan"

definition IntegerLessThan_ParseDirect :: "any list \<Rightarrow> (cond_error, condition) outcome" where
  "IntegerLessThan_ParseDirect = direct_unary ''IntegerLessThan'' int64_type 0 IntegerLessThan"

definition IntegerLessThan_UnmarshalFromMap :: "(string \<times> any) list \<Rightarrow> (cond_error, condition) outcome" where
  "IntegerLessThan_UnmarshalFromMap = unmarshal_unary ''IntegerLessThan'' ''threshold'' int64_type 0 IntegerLessThan"

definition IntegerLessThanOrEqual_Compare :: "(i64, unit) maybe_variable \<Rightarrow> attribute_resolver \<Rightarrow> any \<Rightarrow> compare_result" where
  "IntegerLessThanOrEqual_Compare v = compare_unary ''IntegerLessThanOrEqual'' ''IntegerLessThanOrEqual.Threshold'' int64_type int64_type
     (\<lambda>target arg0. sint target \<le> sint arg0) v (IntegerLessThanOrEqual v)"

definition IntegerLessThanOrEqual_Parse :: "string list \<Rightarrow> (cond_error, condition) outcome" where
  "IntegerLessThanOrEqual_Parse = parse_unary ''IntegerLessThanOrEqual'' parseInt64 0 IntegerLessThanOrEqual"

definition IntegerLessThanOrEqual_ParseDirect :: "any list \<Rightarrow> (cond_error, condition) outcome" where
  "IntegerLessThanOrEqual_ParseDirect = direct_unary ''IntegerLessThanOrEqual'' int64_type 0 IntegerLessThanOrEqual"

definition IntegerLessThanOrEqual_UnmarshalFromMap :: "(string \<times> any) list \<Rightarrow> (cond_error, condition) outcome" where
  "IntegerLessThanOrEqual_UnmarshalFromMap = unmarshal_unary ''IntegerLessThanOrEqual'' ''threshold'' int64_type 0 IntegerLessThanOrEqual"

definition StringListContains_Compare :: "(string, unit) maybe_variable \<Rightarrow> attribute_resolver \<Rightarrow> any \<Rightarrow> compare_result" where
  "StringListContains_Compare v = compare_unary ''StringListContains'' ''StringListContains.Item'' strings_type string_type
     (\<lambda>target arg0. arg0 \<in> set target) v (StringListContains v)"

definition StringListContains_Parse :: "string list \<Rightarrow> (cond_error, condition) outcome" where
  "StringListContains_Parse = parse_unary ''StringListContains'' parseString [] StringListContains"

definition StringListContains_ParseDirect :: "any list \<Rightarrow> (cond_error, condition) outcome" where
  "StringListContains_ParseDirect = direct_unary ''StringListContains'' string_type [] StringListContains"

definition StringListContains_UnmarshalFromMap :: "(string \<times> any) list \<Rightarrow> (cond_error, condition) outcome" where
  "StringListContains_UnmarshalFromMap = unmarshal_unary ''StringListContains'' ''item'' string_type [] StringListContains"

definition StringInList_Compare :: "(string list, unit) maybe_variable \<Rightarrow> attribute_resolver \<Rightarrow> any \<Rightarrow> compare_result" where
  "StringInList_Compare v = compare_unary ''StringInList'' ''StringInList.AllowedList'' string_type strings_type
     (\<lambda>target arg0. target \<in> set arg0) v (StringInList v)"

definition StringInList_Parse :: "string list \<Rightarrow> (cond_error, condition) outcome" where
  "StringInList_Parse = parse_list ''StringInList'' (\<lambda>v. Ok (StringInList v))"

definition StringInList_ParseDirect :: "any list \<Rightarrow> (cond_error, condition) outcome" where
  "StringInList_ParseDirect = direct_list ''StringInList'' (\<lambda>v. Ok (StringInList v))"

definition StringInList_UnmarshalFromMap :: "(string \<times> any) list \<Rightarrow> (cond_error, condition) outcome" where
  "StringInList_UnmarshalFromMap = unmarshal_unary ''StringInList'' ''allowedList'' strings_type [] StringInList"

definition StringListContainsAll_Compare :: "(string list, unit) maybe_variable \<Rightarrow> attribute_resolver \<Rightarrow> any \<Rightarrow> compare_result" where
  "StringListContainsAll_Compare v = compare_unary ''StringListContainsAll'' ''StringListContainsAll.RequiredItems'' strings_type strings_type
     (\<lambda>target arg0. stringListContainsAll target arg0) v (StringListContainsAll v)"

definition StringListContainsAll_Parse :: "string list \<Rightarrow> (cond_error, condition) outcome" where
  "StringListContainsAll_Parse = parse_list ''StringListContainsAll'' (\<lambda>v. Ok (StringListContainsAll v))"

definition StringListContainsAll_ParseDirect :: "any list \<Rightarrow> (cond_error, condition) outcome" where
  "StringListContainsAll_ParseDirect = direct_list ''StringListContainsAll'' (\<lambda>v. Ok (StringListContainsAll v))"

definition StringListContainsAll_UnmarshalFromMap :: "(string \<times> any) list \<Rightarrow> (cond_error, condition) outcome" where
  "StringListContainsAll_UnmarshalFromMap = unmarshal_unary ''StringListContainsAll'' ''requiredItems'' strings_type [] StringListContainsAll"

definition StringListIsEmpty_Compare :: "attribute_resolver \<Rightarrow> any \<Rightarrow> compare_result" where
  "StringListIsEmpty_Compare r rawTarget =
     (case fst strings_type rawTarget of
        None \<Rightarrow> target_type_error ''StringListIsEmpty'' StringListIsEmpty r rawTarget
      | Some target \<Rightarrow> audited StringListIsEmpty r rawTarget (length target = 0))"

definition StringListIsEmpty_Parse :: "string list \<Rightarrow> (cond_error, condition) outcome" where
  "StringListIsEmpty_Parse args =
     (if length args \<noteq> 0 then Err (ArgCount ''StringListIsEmpty'' 0 (length args)) else Ok StringListIsEmpty)"

definition StringListIsEmpty_ParseDirect :: "any list \<Rightarrow> (cond_error, condition) outcome" where
  "StringListIsEmpty_ParseDirect args =
     (if length args \<noteq> 0 then Err (ArgCount ''StringListIsEmpty'' 0 (length args)) else Ok StringListIsEmpty)"

definition StringListIsEmpty_UnmarshalFromMap :: "(string \<times> any) list \<Rightarrow> (cond_error, condition) outcome" where
  "StringListIsEmpty_UnmarshalFromMap m = Ok StringListIsEmpty"

definition Exists_Compare :: "attribute_resolver \<Rightarrow> any \<Rightarrow> compare_result" where
  "Exists_Compare r target = audited Exists r target (target \<noteq> ANil)"

definition Exists_Parse :: "string list \<Rightarrow> (cond_error, condition) outcome" where
  "Exists_Parse args =
     (if length args \<noteq> 0 then Err (ArgCount ''Exists'' 0 (length args)) else Ok Exists)"

definition Exists_ParseDirect :: "any list \<Rightarrow> (cond_error, condition) outcome" where
  "Exists_ParseDirect args =
     (if length args \<noteq> 0 then Err (ArgCount ''Exists'' 0 (length args)) else Ok Exists)"

definition Exists_UnmarshalFromMap :: "(string \<times> any) list \<Rightarrow> (cond_error, condition) outcome" where
  "Exists_UnmarshalFromMap m = Ok Exists"

definition NotExists_Compare :: "attribute_resolver \<Rightarrow> any \<Rightarrow> compare_result" where
  "NotExists_Compare r target = audited NotExists r target (target = ANil)"

definition NotExists_Parse :: "string list \<Rightarrow> (cond_error, condition) outcome" where
  "NotExists_Parse args =
     (if length args \<noteq> 0 then Err (ArgCount ''NotExists'' 0 (length args)) else Ok NotExists)"

definition NotExists_ParseDirect :: "any list \<Rightarrow> (cond_error, condition) outcome" where
  "NotExists_ParseDirect args =
     (if length args \<noteq> 0 then Err (ArgCount ''NotExists'' 0 (length args)) else Ok NotExists)"

definition NotExists_UnmarshalFromMap :: "(string \<times> any) list \<Rightarrow> (cond_error, condition) outcome" where
  "NotExists_UnmarshalFromMap m = Ok NotExists"

definition IntegerBetween_Compare ::
    "(i64, unit) maybe_variable \<Rightarrow> (i64, unit) maybe_variable \<Rightarrow>
       attribute_resolver \<Rightarrow> any \<Rightarrow> compare_result" where
  "IntegerBetween_Compare mn mx r rawTarget =
     (case fst int64_type rawTarget of
        None \<Rightarrow> target_type_error ''IntegerBetween'' (IntegerBetween mn mx) r rawTarget
      | Some target \<Rightarrow>
          (case GetValue int64_type mn r ''IntegerBetween.Min'' of
             (Panic, r') \<Rightarrow> (Panic, r')
           | (Err e, r') \<Rightarrow> (Err (ArgumentFailed ''IntegerBetween'' 0 e), r')
           | (Ok arg0, r') \<Rightarrow>
               (case GetValue int64_type mx r' ''IntegerBetween.Max'' of
                  (Panic, r'') \<Rightarrow> (Panic, r'')
                | (Err e, r'') \<Rightarrow> (Err (ArgumentFailed ''IntegerBetween'' 1 e), r'')
                | (Ok arg1, r'') \<Rightarrow>
                    audited (IntegerBetween mn mx) r'' rawTarget
                      (sint target \<ge> sint arg0 \<and> sint target \<le> sint arg1))))"

definition IntegerBetween_Parse :: "string list \<Rightarrow> (cond_error, condition) outcome" where
  "IntegerBetween_Parse args =
     (if length args \<noteq> 2 then Err (ArgCount ''IntegerBetween'' 2 (length args))
      else bind_outcome (map_error (ArgumentFailed ''IntegerBetween'' 0)
                           (ParseString parseInt64 (args ! 0) (zero_variable 0)))
             (\<lambda>mn. bind_outcome (map_error (ArgumentFailed ''IntegerBetween'' 1)
                                   (ParseString parseInt64 (args ! 1) (zero_variable 0)))
                      (\<lambda>mx. Ok (IntegerBetween mn mx))))"

definition IntegerBetween_ParseDirect :: "any list \<Rightarrow> (cond_error, condition) outcome" where
  "IntegerBetween_ParseDirect args =
     (if length args \<noteq> 2 then Err (ArgCount ''IntegerBetween'' 2 (length args))
      else bind_outcome (map_error (ArgumentFailed ''IntegerBetween'' 0)
                           (ParseAny int64_type (args ! 0) (zero_variable 0)))
             (\<lambda>mn. bind_outcome (map_error (ArgumentFailed ''IntegerBetween'' 1)
                                   (ParseAny int64_type (args ! 1) (zero_variable 0)))
                      (\<lambda>mx. Ok (IntegerBetween mn mx))))"

definition IntegerBetween_UnmarshalFromMap ::
    "(string \<times> any) list \<Rightarrow> (cond_error, condition) outcome" where
  "IntegerBetween_UnmarshalFromMap m =
     (case map_of m ''min'' of
        None \<Rightarrow> Err (MissingField ''IntegerBetween'' ''min'')
      | Some v0 \<Rightarrow>
          bind_outcome (map_error (ArgumentFailed ''IntegerBetween'' 0)
                          (ParseAny int64_type v0 (zero_variable 0)))
            (\<lambda>mn. case map_of m ''max'' of
                     None \<Rightarrow> Err (MissingField ''IntegerBetween'' ''max'')
                   | Some v1 \<Rightarrow>
                       bind_outcome (map_error (ArgumentFailed ''IntegerBetween'' 1)
                                       (ParseAny int64_type v1 (zero_variable 0)))
                         (\<lambda>mx. Ok (IntegerBetween mn mx))))"

definition StringListContainsAny_Precompile ::
    "(string list, string list) maybe_variable \<Rightarrow> condition" where
  "StringListContainsAny_Precompile v = StringListContainsAny (Precompile makeStringSet v)"

definition StringListContainsAny_Compare ::
    "(string list, string list) maybe_variable \<Rightarrow> attribute_resolver \<Rightarrow> any \<Rightarrow> compare_result" where
  "StringListContainsAny_Compare v r rawTarget =
     (case fst strings_type rawTarget of
        None \<Rightarrow> target_type_error ''StringListContainsAny'' (StringListContainsAny v) r rawTarget
      | Some target \<Rightarrow>
          (case GetPrecompiledValue strings_type string_set_type makeStringSet v r
                  ''StringListContainsAny.Candidates'' of
             (Panic, r') \<Rightarrow> (Panic, r')
           | (Err e, r') \<Rightarrow> (Err (ArgumentFailed ''StringListContainsAny'' 0 e), r')
           | (Ok arg0, r') \<Rightarrow>
               audited (StringListContainsAny v) r' rawTarget (stringListContainsAny target arg0)))"

definition StringListContainsAny_Parse :: "string list \<Rightarrow> (cond_error, condition) outcome" where
  "StringListContainsAny_Parse =
     parse_list ''StringListContainsAny'' (\<lambda>v. Ok (StringListContainsAny_Precompile v))"

definition StringListContainsAny_ParseDirect :: "any list \<Rightarrow> (cond_error, condition) outcome" where
  "StringListContainsAny_ParseDirect =
     direct_list ''StringListContainsAny'' (\<lambda>v. Ok (StringListContainsAny_Precompile v))"

definition StringListContainsAny_UnmarshalFromMap ::
    "(string \<times> any) list \<Rightarrow> (cond_error, condition) outcome" where
  "StringListContainsAny_UnmarshalFromMap =
     unmarshal_unary ''StringListContainsAny'' ''candidates'' strings_type []
       StringListContainsAny_Precompile"

section \<open>Dispatch and GenericCondition (access/policy/generic.go)\<close>

fun Compare :: "condition \<Rightarrow> attribute_resolver \<Rightarrow> any \<Rightarrow> compare_result" where
  "Compare (StringEquals v) = StringEquals_Compare v"
| "Compare (StringNotEquals v) = StringNotEquals_Compare v"
| "Compare (StringPrefix v) = StringPrefix_Compare v"
| "Compare (StringSuffix v) = StringSuffix_Compare v"
| "Compare (StringContains v) = StringContains_Compare v"
| "Compare (IntegerEquals v) = IntegerEquals_Compare v"
| "Compare (IntegerNotEquals v) = IntegerNotEquals_Compare v"
| "Compare (IntegerGreaterThan v) = IntegerGreaterThan_Compare v"
| "Compare (IntegerGreaterThanOrEqual v) = IntegerGreaterThanOrEqual_Compare v"
| "Compare (IntegerLessThan v) = IntegerLessThan_Compare v"
| "Compare (IntegerLessThanOrEqual v) = IntegerLessThanOrEqual_Compare v"
| "Compare (StringListContains v) = StringListContains_Compare v"
| "Compare (IntegerBetween mn mx) = IntegerBetween_Compare mn mx"
| "Compare (StringInList v) = StringInList_Compare v"
| "Compare (StringListContainsAll v) = StringListContainsAll_Compare v"
| "Compare (StringListContainsAny v) = StringListContainsAny_Compare v"
| "Compare StringListIsEmpty = StringListIsEmpty_Compare"
| "Compare Exists = Exists_Compare"
| "Compare NotExists = NotExists_Compare"

record operation =
  op_Parse :: "string list \<Rightarrow> (cond_error, condition) outcome"
  op_ParseDirect :: "any list \<Rightarrow> (cond_error, condition) outcome"
  op_UnmarshalFromMap :: "(string \<times> any) list \<Rightarrow> (cond_error, condition) outcome"

definition CompareOpFactory :: "(string \<times> operation) list" where
  "CompareOpFactory =
    [(''StringEquals'', \<lparr>op_Parse = StringEquals_Parse, op_ParseDirect = StringEquals_ParseDirect,
        op_UnmarshalFromMap = StringEquals_UnmarshalFromMap\<rparr>),
     (''StringNotEquals'', \<lparr>op_Parse = StringNotEquals_Parse, op_ParseDirect = StringNotEquals_ParseDirect,
        op_UnmarshalFromMap = StringNotEquals_UnmarshalFromMap\<rparr>),
     (''StringPrefix'', \<lparr>op_Parse = StringPrefix_Parse, op_ParseDirect = StringPrefix_ParseDirect,
        op_UnmarshalFromMap = StringPrefix_UnmarshalFromMap\<rparr>),
     (''StringSuffix'', \<lparr>op_Parse = StringSuffix_Parse, op_ParseDirect = StringSuffix_ParseDirect,
        op_UnmarshalFromMap = StringSuffix_UnmarshalFromMap\<rparr>),
     (''StringContains'', \<lparr>op_Parse = StringContains_Parse, op_ParseDirect = StringContains_ParseDirect,
        op_UnmarshalFromMap = StringContains_UnmarshalFromMap\<rparr>),
     (''IntegerEquals'', \<lparr>op_Parse = IntegerEquals_Parse, op_ParseDirect = IntegerEquals_ParseDirect,
        op_UnmarshalFromMap = IntegerEquals_UnmarshalFromMap\<rparr>),
     (''IntegerNotEquals'', \<lparr>op_Parse = IntegerNotEquals_Parse, op_ParseDirect = IntegerNotEquals_ParseDirect,
        op_UnmarshalFromMap = IntegerNotEquals_UnmarshalFromMap\<rparr>),
     (''IntegerGreaterThan'', \<lparr>op_Parse = IntegerGreaterThan_Parse, op_ParseDirect = IntegerGreaterThan_ParseDirect,
        op_UnmarshalFromMap = IntegerGreaterThan_UnmarshalFromMap\<rparr>),
     (''IntegerGreaterThanOrEqual'', \<lparr>op_Parse = IntegerGreaterThanOrEqual_Parse, op_ParseDirect = IntegerGreaterThanOrEqual_ParseDirect,
        op_UnmarshalFromMap = IntegerGreaterThanOrEqual_UnmarshalFromMap\<rparr>),
     (''IntegerLessThan'', \<lparr>op_Parse = IntegerLessThan_Parse, op_ParseDirect = IntegerLessThan_ParseDirect,
        op_UnmarshalFromMap = IntegerLessThan_UnmarshalFromMap\<rparr>),
     (''IntegerLessThanOrEqual'', \<lparr>op_Parse = IntegerLessThanOrEqual_Parse, op_ParseDirect = IntegerLessThanOrEqual_ParseDirect,
        op_UnmarshalFromMap = IntegerLessThanOrEqual_UnmarshalFromMap\<rparr>),
     (''StringListContains'', \<lparr>op_Parse = StringListContains_Parse, op_ParseDirect = StringListContains_ParseDirect,
        op_UnmarshalFromMap = StringListContains_UnmarshalFromMap\<rparr>),
     (''IntegerBetween'', \<lparr>op_Parse = IntegerBetween_Parse, op_ParseDirect = IntegerBetween_ParseDirect,
        op_UnmarshalFromMap = IntegerBetween_UnmarshalFromMap\<rparr>),
     (''StringInList'', \<lparr>op_Parse = StringInList_Parse, op_ParseDirect = StringInList_ParseDirect,
        op_UnmarshalFromMap = StringInList_UnmarshalFromMap\<rparr>),
     (''StringListContainsAll'', \<lparr>op_Parse = StringListContainsAll_Parse, op_ParseDirect = StringListContainsAll_ParseDirect,
        op_UnmarshalFromMap = StringListContainsAll_UnmarshalFromMap\<rparr>),
     (''StringListContainsAny'', \<lparr>op_Parse = StringListContainsAny_Parse, op_ParseDirect = StringListContainsAny_ParseDirect,
        op_UnmarshalFromMap = StringListContainsAny_UnmarshalFromMap\<rparr>),
     (''StringListIsEmpty'', \<lparr>op_Parse = StringListIsEmpty_Parse, op_ParseDirect = StringListIsEmpty_ParseDirect,
        op_UnmarshalFromMap = StringListIsEmpty_UnmarshalFromMap\<rparr>),
     (''Exists'', \<lparr>op_Parse = Exists_Parse, op_ParseDirect = Exists_ParseDirect,
        op_UnmarshalFromMap = Exists_UnmarshalFromMap\<rparr>),
     (''NotExists'', \<lparr>op_Parse = NotExists_Parse, op_ParseDirect = NotExists_ParseDirect,
        op_UnmarshalFromMap = NotExists_UnmarshalFromMap\<rparr>)]"

definition CompareOpList :: "string list" where
  "CompareOpList =
    [''StringEquals'', ''StringNotEquals'', ''StringPrefix'',
     ''StringSuffix'', ''StringContains'', ''StringGlob'',
     ''StringRegex'', ''NumericEquals'', ''NumericNotEquals'',
     ''NumericGreaterThan'', ''NumericGreaterThanOrEqual'', ''NumericLessThan'',
     ''NumericLessThanOrEqual'', ''NumericBetween'', ''IntegerEquals'',
     ''IntegerNotEquals'', ''IntegerGreaterThan'', ''IntegerGreaterThanOrEqual'',
     ''IntegerLessThan'', ''IntegerLessThanOrEqual'', ''IntegerBetween'',
     ''DurationEquals'', ''DurationNotEquals'', ''DurationLessThan'',
     ''DurationLessThanOrEqual'', ''DurationGreaterThan'', ''DurationGreaterThanOrEqual'',
     ''DurationBetween'', ''TimeEquals'', ''TimeNotEquals'',
     ''TimeBefore'', ''TimeAfter'', ''TimeBetween'',
     ''StringListContains'', ''StringInList'', ''StringListContainsAny'',
     ''StringListContainsAll'', ''StringListIsEmpty'', ''IPEquals'',
     ''IPInCIDR'', ''Exists'', ''NotExists'']"

definition CompareOpAlias :: "(string \<times> string) list" where
  "CompareOpAlias =
    [(''string_equal'', ''StringEquals''),
     (''str_eq'', ''StringEquals''),
     (''string_not_equal'', ''StringNotEquals''),
     (''str_neq'', ''StringNotEquals''),
     (''startswith'', ''StringPrefix''),
     (''prefix'', ''StringPrefix''),
     (''endswith'', ''StringSuffix''),
     (''suffix'', ''StringSuffix''),
     (''substring'', ''StringContains''),
     (''contains'', ''StringContains''),
     (''wildcard'', ''StringGlob''),
     (''glob'', ''StringGlob''),
     (''regex'', ''StringRegex''),
     (''num_equal'', ''NumericEquals''),
     (''num_eq'', ''NumericEquals''),
     (''num_not_equal'', ''NumericNotEquals''),
     (''num_neq'', ''NumericNotEquals''),
     (''num_greater_than'', ''NumericGreaterThan''),
     (''num_gt'', ''NumericGreaterThan''),
     (''num_greater_than_or_equal'', ''NumericGreaterThanOrEqual''),
     (''num_gte'', ''NumericGreaterThanOrEqual''),
     (''num_less_than'', ''NumericLessThan''),
     (''num_lt'', ''NumericLessThan''),
     (''num_less_than_or_equal'', ''NumericLessThanOrEqual''),
     (''num_lte'', ''NumericLessThanOrEqual''),
     (''num_between'', ''NumericBetween''),
     (''int_equal'', ''IntegerEquals''),
     (''int_eq'', ''IntegerEquals''),
     (''int_not_equal'', ''IntegerNotEquals''),
     (''int_neq'', ''IntegerNotEquals''),
     (''int_greater_than'', ''IntegerGreaterThan''),
     (''int_gt'', ''IntegerGreaterThan''),
     (''int_greater_than_or_equal'', ''IntegerGreaterThanOrEqual''),
     (''int_gte'', ''IntegerGreaterThanOrEqual''),
     (''int_less_than'', ''IntegerLessThan''),
     (''int_lt'', ''IntegerLessThan''),
     (''int_less_than_or_equal'', ''IntegerLessThanOrEqual''),
     (''int_lte'', ''IntegerLessThanOrEqual''),
     (''int_between'', ''IntegerBetween''),
     (''duration_equal'', ''DurationEquals''),
     (''duration_eq'', ''DurationEquals''),
     (''duration_not_equal'', ''DurationNotEquals''),
     (''duration_neq'', ''DurationNotEquals''),
     (''duration_less_than'', ''DurationLessThan''),
     (''duration_lt'', ''DurationLessThan''),
     (''duration_less_than_or_equal'', ''DurationLessThanOrEqual''),
     (''duration_lte'', ''DurationLessThanOrEqual''),
     (''duration_greater_than'', ''DurationGreaterThan''),
     (''duration_gt'', ''DurationGreaterThan''),
     (''duration_greater_than_or_equal'', ''DurationGreaterThanOrEqual''),
     (''duration_gte'', ''DurationGreaterThanOrEqual''),
     (''duration_between'', ''DurationBetween''),
     (''time_equal'', ''TimeEquals''),
     (''time_eq'', ''TimeEquals''),
     (''time_not_equal'', ''TimeNotEquals''),
     (''time_neq'', ''TimeNotEquals''),
     (''time_before'', ''TimeBefore''),
     (''time_after'', ''TimeAfter''),
     (''time_between'', ''TimeBetween''),
     (''list_contains'', ''StringListContains''),
     (''str_in_list'', ''StringInList''),
     (''in'', ''StringInList''),
     (''list_contains_any'', ''StringListContainsAny''),
     (''exists'', ''Exists''),
     (''not_exists'', ''NotExists'')]"

definition CompareOpArgCount :: "(string \<times> int) list" where
  "CompareOpArgCount =
    [(''StringEquals'', 1), (''StringNotEquals'', 1),
     (''StringPrefix'', 1), (''StringSuffix'', 1),
     (''StringContains'', 1), (''StringGlob'', 1),
     (''StringRegex'', 1), (''NumericEquals'', 1),
     (''NumericNotEquals'', 1), (''NumericGreaterThan'', 1),
     (''NumericGreaterThanOrEqual'', 1), (''NumericLessThan'', 1),
     (''NumericLessThanOrEqual'', 1), (''NumericBetween'', 2),
     (''IntegerEquals'', 1), (''IntegerNotEquals'', 1),
     (''IntegerGreaterThan'', 1), (''IntegerGreaterThanOrEqual'', 1),
     (''IntegerLessThan'', 1), (''IntegerLessThanOrEqual'', 1),
     (''IntegerBetween'', 2), (''DurationEquals'', 1),
     (''DurationNotEquals'', 1), (''DurationLessThan'', 1),
     (''DurationLessThanOrEqual'', 1), (''DurationGreaterThan'', 1),
     (''DurationGreaterThanOrEqual'', 1), (''DurationBetween'', 2),
     (''TimeEquals'', 1), (''TimeNotEquals'', 1),
     (''TimeBefore'', 1), (''TimeAfter'', 1),
     (''TimeBetween'', 2), (''StringListContains'', 1),
     (''StringInList'', -1), (''StringListContainsAny'', -1),
     (''StringListContainsAll'', -1), (''StringListIsEmpty'', 0),
     (''IPEquals'', 1), (''IPInCIDR'', 1),
     (''Exists'', 0), (''NotExists'', 0)]"

text \<open>\<open>GenericCondition\<close>: the operation's name and the condition, nil before it is parsed.\<close>

record generic_condition =
  gc_Op :: string
  gc_Condition :: "condition option"

definition find_operation :: "string \<Rightarrow> (cond_error, operation) outcome" where
  "find_operation op =
     (case map_of CompareOpFactory op of
        Some f \<Rightarrow> Ok f
      | None \<Rightarrow> if op \<in> set CompareOpList then Err (UnmodelledOperation op) else Err (UnknownOperation op))"

definition resolve_alias :: "string \<Rightarrow> string" where
  "resolve_alias op = (case map_of CompareOpAlias op of Some aliasOp \<Rightarrow> aliasOp | None \<Rightarrow> op)"

definition generic_Compare :: "generic_condition \<Rightarrow> attribute_resolver \<Rightarrow> any \<Rightarrow> compare_result" where
  "generic_Compare gc r target =
     (case gc_Condition gc of
        None \<Rightarrow> (Err NotInitialized, r)
      | Some c \<Rightarrow> Compare c r target)"

definition generic_Parse :: "string list \<Rightarrow> (cond_error, generic_condition) outcome" where
  "generic_Parse args =
     (case args of
        [] \<Rightarrow> Err NoArguments
      | op0 # rest \<Rightarrow>
          let op = resolve_alias op0 in
          bind_outcome (find_operation op)
            (\<lambda>factory. bind_outcome (op_Parse factory rest)
               (\<lambda>cond. Ok \<lparr>gc_Op = op, gc_Condition = Some cond\<rparr>)))"

definition generic_ParseDirect :: "any list \<Rightarrow> (cond_error, generic_condition) outcome" where
  "generic_ParseDirect args =
     (case args of
        [] \<Rightarrow> Err NoArguments
      | AString op0 # rest \<Rightarrow>
          let op = resolve_alias op0 in
          bind_outcome (find_operation op)
            (\<lambda>factory. bind_outcome (op_ParseDirect factory rest)
               (\<lambda>cond. Ok \<lparr>gc_Op = op, gc_Condition = Some cond\<rparr>))
      | _ # rest \<Rightarrow> Err OperationNotString)"

definition generic_UnmarshalFromMap ::
    "(string \<times> any) list \<Rightarrow> (cond_error, generic_condition) outcome" where
  "generic_UnmarshalFromMap data =
     (case map_of data ''op'' of
        None \<Rightarrow> Err (MissingField [] ''op'')
      | Some (AString op) \<Rightarrow>
          bind_outcome (find_operation op)
            (\<lambda>factory. bind_outcome (op_UnmarshalFromMap factory data)
               (\<lambda>cond. Ok \<lparr>gc_Op = op, gc_Condition = Some cond\<rparr>))
      | Some _ \<Rightarrow> Err OperationNotString)"

end
