(* ===== verification/Comparison_Laws.thy ===== *)
theory Comparison_Laws
  imports Conditions
begin

text \<open>
  What the comparisons of \<open>Conditions\<close> compute: the value a comparison gives and the audit
  records it leaves, stated once for the generated methods (\<open>compare_unary_value\<close>,
  \<open>Compare_audited\<close>, \<open>Compare_no_Panic\<close>), and the properties of the operations, of the
  three input forms and of the arity table.
\<close>

section \<open>What a comparison computes\<close>

text \<open>
  A comparison reads its arguments through the resolver, which only ever appends to the audit
  trail: the outcome depends on the policy context alone, and the trail grows at its end.
\<close>

lemmas compare_op_defs =
  StringEquals_Compare_def StringNotEquals_Compare_def StringPrefix_Compare_def
  StringSuffix_Compare_def StringContains_Compare_def IntegerEquals_Compare_def
  IntegerNotEquals_Compare_def IntegerGreaterThan_Compare_def
  IntegerGreaterThanOrEqual_Compare_def IntegerLessThan_Compare_def
  IntegerLessThanOrEqual_Compare_def StringListContains_Compare_def StringInList_Compare_def
  StringListContainsAll_Compare_def

definition read_value :: "'t go_type \<Rightarrow> ('t, 'u) maybe_variable \<Rightarrow> policy_context \<Rightarrow> (value_error, 't) outcome" where
  "read_value ty mv ctx =
     (if IsVariable mv then
        (case Resolve (hd (mv_Variable mv)) (tl (mv_Variable mv)) ctx of
           Panic \<Rightarrow> Panic
         | Err e \<Rightarrow> Err (ResolveFailed (mv_Variable mv) e)
         | Ok x \<Rightarrow> (case fst ty x of None \<Rightarrow> Err (VariableHasType (mv_Variable mv) x) | Some v \<Rightarrow> Ok v))
      else Ok (mv_Value mv))"

definition audit_extends :: "attribute_resolver \<Rightarrow> attribute_resolver \<Rightarrow> bool" where
  "audit_extends r r' \<longleftrightarrow> ar_ctx r' = ar_ctx r \<and> ar_policyName r' = ar_policyName r \<and>
     ar_auditCompare r' = ar_auditCompare r \<and>
     prefix (ar_auditResolve r) (ar_auditResolve r') \<and> prefix (ar_auditUse r) (ar_auditUse r')"

lemma audit_extends_refl [simp]: "audit_extends r r"
  by (simp add: audit_extends_def)

lemma audit_extends_trans [trans]:
  "audit_extends r s \<Longrightarrow> audit_extends s t \<Longrightarrow> audit_extends r t"
  by (auto simp: audit_extends_def)

lemma audit_extends_ctx: "audit_extends r r' \<Longrightarrow> ar_ctx r' = ar_ctx r"
  by (simp add: audit_extends_def)

lemma AuditValue_extends [simp]: "audit_extends r (AuditValue r f v)"
  by (simp add: AuditValue_def audit_extends_def)

lemma resolver_Resolve_extends: "audit_extends r (snd (resolver_Resolve r name))"
  by (cases name) (simp_all add: resolver_Resolve_def Let_def audit_extends_def)

lemma resolver_Resolve_value:
  "name \<noteq> [] \<Longrightarrow> fst (resolver_Resolve r name) = Resolve (hd name) (tl name) (ar_ctx r)"
  by (cases name) (simp_all add: resolver_Resolve_def Let_def)

lemma GetValue_value: "fst (GetValue ty mv r f) = read_value ty mv (ar_ctx r)"
proof (cases "IsVariable mv")
  case True
  then have "fst (resolver_Resolve r (mv_Variable mv)) =
      Resolve (hd (mv_Variable mv)) (tl (mv_Variable mv)) (ar_ctx r)"
    by (simp add: IsVariable_def resolver_Resolve_value)
  with True show ?thesis
    by (cases "resolver_Resolve r (mv_Variable mv)")
      (auto simp: GetValue_def read_value_def split: outcome.splits option.splits)
qed (simp add: GetValue_def read_value_def)

lemma GetValue_extends: "audit_extends r (snd (GetValue ty mv r f))"
proof (cases "IsVariable mv")
  case True
  obtain o' r' where rr: "resolver_Resolve r (mv_Variable mv) = (o', r')" by fastforce
  then have "audit_extends r r'" using resolver_Resolve_extends by (metis snd_conv)
  with True rr show ?thesis
    by (auto simp: GetValue_def split: outcome.splits option.splits
        intro: audit_extends_trans [OF _ AuditValue_extends])
qed (simp add: GetValue_def)

lemma GetValue_obtain:
  obtains r' where "GetValue ty mv r f = (read_value ty mv (ar_ctx r), r')" and "audit_extends r r'"
  by (metis GetValue_extends GetValue_value prod.collapse)

text \<open>The value a comparison of one argument gives, without the audit trail.\<close>

lemma fst_audited [simp]: "fst (audited c r t b) = Ok b"
  by (simp add: audited_def)

lemma fst_target_type_error [simp]: "fst (target_type_error op c r t) = Err (TargetHasType op t)"
  by (simp add: target_type_error_def Let_def)

lemma compare_unary_value:
  "fst (compare_unary op f target_ty arg_ty rel v c r t) =
     (case fst target_ty t of
        None \<Rightarrow> Err (TargetHasType op t)
      | Some x \<Rightarrow> bind_outcome (map_error (ArgumentFailed op 0) (read_value arg_ty v (ar_ctx r)))
                    (\<lambda>a. Ok (rel x a)))"
proof -
  obtain r' where "GetValue arg_ty v r f = (read_value arg_ty v (ar_ctx r), r')"
    by (rule GetValue_obtain)
  then show ?thesis
    by (auto simp: compare_unary_def split: option.splits outcome.splits)
qed

lemma compare_unary_Ok:
  "fst (compare_unary op f target_ty arg_ty rel v c r t) = Ok b \<longleftrightarrow>
     (\<exists>x a. fst target_ty t = Some x \<and> read_value arg_ty v (ar_ctx r) = Ok a \<and> b = rel x a)"
  by (auto simp: compare_unary_value split: option.splits)

lemma read_value_cong:
  "mv_Value v = mv_Value w \<Longrightarrow> mv_Variable v = mv_Variable w \<Longrightarrow> read_value ty v ctx = read_value ty w ctx"
  by (simp add: read_value_def IsVariable_def cong: outcome.case_cong option.case_cong)

lemma IntegerBetween_value:
  "fst (IntegerBetween_Compare mn mx r t) = Ok b \<longleftrightarrow>
     (\<exists>x lo hi. fst int64_type t = Some x \<and> read_value int64_type mn (ar_ctx r) = Ok lo \<and>
        read_value int64_type mx (ar_ctx r) = Ok hi \<and> b = (sint lo \<le> sint x \<and> sint x \<le> sint hi))"
proof -
  obtain r' where lo: "GetValue int64_type mn r ''IntegerBetween.Min'' =
      (read_value int64_type mn (ar_ctx r), r')" and r': "audit_extends r r'"
    by (rule GetValue_obtain)
  obtain r'' where hi: "GetValue int64_type mx r' ''IntegerBetween.Max'' =
      (read_value int64_type mx (ar_ctx r), r'')"
    using GetValue_obtain [of int64_type mx r'] audit_extends_ctx [OF r'] by metis
  show ?thesis
    unfolding IntegerBetween_Compare_def lo
    by (cases "fst int64_type t"; cases "read_value int64_type mn (ar_ctx r)";
        cases "read_value int64_type mx (ar_ctx r)") (auto simp: hi)
qed

text \<open>Precompiling a literal set gives the same comparison as building the set on each call.\<close>

definition precompiled_ok :: "('t \<Rightarrow> 'u) \<Rightarrow> ('t, 'u) maybe_variable \<Rightarrow> bool" where
  "precompiled_ok f mv \<longleftrightarrow> (\<forall>u. mv_Precompiled mv = Some u \<longrightarrow> u = f (mv_Value mv))"

lemma Precompile_ok: "precompiled_ok f mv \<Longrightarrow> precompiled_ok f (Precompile f mv)"
  by (simp add: precompiled_ok_def Precompile_def)

lemma Precompile_fields [simp]:
  "mv_Value (Precompile f mv) = mv_Value mv" "mv_Variable (Precompile f mv) = mv_Variable mv"
  "IsVariable (Precompile f mv) = IsVariable mv"
  by (simp_all add: Precompile_def IsVariable_def)

lemma GetPrecompiledValue_eq:
  assumes "precompiled_ok f mv"
  shows "GetPrecompiledValue ty uty f (Precompile f mv) r field = GetPrecompiledValue ty uty f mv r field"
  using assms by (auto simp: GetPrecompiledValue_def precompiled_ok_def Precompile_def IsVariable_def
      Let_def split: option.splits)

lemma stringListContainsAny_iff: "stringListContainsAny xs cs \<longleftrightarrow> (\<exists>x\<in>set xs. x \<in> set cs)"
  by (induction xs) auto

lemma stringListContainsAll_iff: "stringListContainsAll xs rs \<longleftrightarrow> set rs \<subseteq> set xs"
  by (induction rs) (auto simp: list_ex_iff)

lemma makeStringSet_set [simp]: "set (makeStringSet l) = set l"
  by (simp add: makeStringSet_def)

section \<open>Properties of the comparisons\<close>

text \<open>
  \<open>IntegerBetween\<close> is exactly the conjunction of \<open>IntegerGreaterThanOrEqual\<close> on its
  first argument and \<open>IntegerLessThanOrEqual\<close> on its second, for literal and for variable
  arguments and on every target: it returns a result exactly when both of them do, and the result
  is their conjunction; where one of them fails to read its argument or its target, so does it.
\<close>

theorem IntegerBetween_conjunction:
  "fst (Compare (IntegerBetween mn mx) r t) = Ok b \<longleftrightarrow>
     (\<exists>b1 b2. fst (Compare (IntegerGreaterThanOrEqual mn) r t) = Ok b1 \<and>
        fst (Compare (IntegerLessThanOrEqual mx) r t) = Ok b2 \<and> b = (b1 \<and> b2))"
  unfolding Compare.simps IntegerBetween_value IntegerGreaterThanOrEqual_Compare_def
    IntegerLessThanOrEqual_Compare_def compare_unary_Ok
  by fastforce

text \<open>
  The set that \<open>StringListContainsAny\<close> precompiles when a policy is parsed changes no
  comparison: the precompiled condition gives, in the same resolver, the outcome and the resolve
  and use records of the condition that builds its set on every call, and on a list target with a
  literal list of candidates the outcome is whether the two lists have a common element.
\<close>

theorem StringListContainsAny_precompiled:
  assumes "precompiled_ok makeStringSet v"
  shows "fst (Compare (StringListContainsAny_Precompile v) r t) = fst (Compare (StringListContainsAny v) r t) \<and>
         ar_auditResolve (snd (Compare (StringListContainsAny_Precompile v) r t)) =
           ar_auditResolve (snd (Compare (StringListContainsAny v) r t)) \<and>
         ar_auditUse (snd (Compare (StringListContainsAny_Precompile v) r t)) =
           ar_auditUse (snd (Compare (StringListContainsAny v) r t)) \<and>
         (\<not> IsVariable v \<longrightarrow> t = AStrings xs \<longrightarrow>
            fst (Compare (StringListContainsAny_Precompile v) r t) = Ok (set xs \<inter> set (mv_Value v) \<noteq> {}))"
proof -
  obtain o' r' where g: "GetPrecompiledValue strings_type string_set_type makeStringSet v r
      ''StringListContainsAny.Candidates'' = (o', r')" by fastforce
  have lit: "o' = Ok (makeStringSet (mv_Value v))" if "\<not> IsVariable v"
    using that g assms
    by (auto simp: GetPrecompiledValue_def Let_def precompiled_ok_def split: option.splits)
  show ?thesis
    unfolding StringListContainsAny_Precompile_def Compare.simps StringListContainsAny_Compare_def
      GetPrecompiledValue_eq [OF assms] g
    using lit
    by (cases "fst strings_type t"; cases o')
      (auto simp: target_type_error_def Let_def audited_def AuditResult_def strings_type_def
        stringListContainsAny_iff)
qed

definition example_resolver :: attribute_resolver where
  "example_resolver = \<lparr>ar_ctx = example_context, ar_policyName = ''p'', ar_auditResolve = [],
     ar_auditUse = [], ar_auditCompare = []\<rparr>"

definition example_candidates :: "(string list, string list) maybe_variable" where
  "example_candidates = zero_variable [''a'', ''b'']"

theorem StringListContainsAny_precompiled_witness:
  "precompiled_ok makeStringSet example_candidates \<and>
   fst (Compare (StringListContainsAny_Precompile example_candidates) example_resolver
     (AStrings [''b'', ''c''])) = Ok True"
proof -
  have ok: "precompiled_ok makeStringSet example_candidates" and lit: "\<not> IsVariable example_candidates"
    and val: "set [''b'', ''c''] \<inter> set (mv_Value example_candidates) \<noteq> {}"
    by (simp_all add: example_candidates_def precompiled_ok_def zero_variable_def IsVariable_def)
  from StringListContainsAny_precompiled [OF ok, of example_resolver "AStrings [''b'', ''c'']" "[''b'', ''c'']"]
  have "\<not> IsVariable example_candidates \<longrightarrow> fst (Compare (StringListContainsAny_Precompile example_candidates)
      example_resolver (AStrings [''b'', ''c''])) = Ok (set [''b'', ''c''] \<inter> set (mv_Value example_candidates) \<noteq> {})"
    by blast
  from mp [OF this lit] ok show ?thesis by (simp only: val simp_thms)
qed

text \<open>
  Each negated operation is the negation of its positive one and each strict order the
  negation of the opposite weak order: on every target and argument the two fail together, and
  where they return, they return opposite results.
\<close>

theorem negated_comparisons:
  assumes "(c, d) \<in> {(StringEquals v, StringNotEquals v), (IntegerEquals w, IntegerNotEquals w),
              (IntegerLessThan w, IntegerGreaterThanOrEqual w),
              (IntegerGreaterThan w, IntegerLessThanOrEqual w), (Exists, NotExists)}"
  shows "fst (Compare d r t) = Ok b \<longleftrightarrow> fst (Compare c r t) = Ok (\<not> b)"
  using assms
  by (auto simp: compare_op_defs compare_unary_Ok Exists_Compare_def NotExists_Compare_def)

theorem negated_comparisons_witness:
  "(IntegerLessThan (zero_variable 3), IntegerGreaterThanOrEqual (zero_variable 3)) \<in>
     {(StringEquals (zero_variable []), StringNotEquals (zero_variable [])),
      (IntegerEquals (zero_variable 3), IntegerNotEquals (zero_variable 3)),
      (IntegerLessThan (zero_variable 3), IntegerGreaterThanOrEqual (zero_variable 3)),
      (IntegerGreaterThan (zero_variable 3), IntegerLessThanOrEqual (zero_variable 3)),
      (Exists, NotExists)} \<and>
   (fst (Compare (IntegerGreaterThanOrEqual (zero_variable 3)) example_resolver (AInt64 5)) = Ok True \<longleftrightarrow>
    fst (Compare (IntegerLessThan (zero_variable 3)) example_resolver (AInt64 5)) = Ok (\<not> True))"
  by (rule conjI, simp, rule negated_comparisons [of _ _ "zero_variable []" "zero_variable 3"], simp)

text \<open>The maps from an operation's name to its methods, read off the factory once.\<close>

lemma in_factory: "find_operation op = Ok f \<longleftrightarrow> map_of CompareOpFactory op = Some f"
  by (simp add: find_operation_def split: option.splits)

text \<open>The fields an operation's arguments have in the map form, in the order of \<open>ParseDirect\<close>.\<close>

definition argument_fields :: "(string \<times> string list) list" where
  "argument_fields =
    [(''StringEquals'', [''value'']), (''StringNotEquals'', [''value'']),
     (''StringPrefix'', [''prefix'']), (''StringSuffix'', [''suffix'']),
     (''StringContains'', [''substr'']), (''IntegerEquals'', [''value'']),
     (''IntegerNotEquals'', [''value'']), (''IntegerGreaterThan'', [''threshold'']),
     (''IntegerGreaterThanOrEqual'', [''threshold'']), (''IntegerLessThan'', [''threshold'']),
     (''IntegerLessThanOrEqual'', [''threshold'']), (''IntegerBetween'', [''min'', ''max'']),
     (''StringListContains'', [''item'']), (''StringInList'', [''allowedList'']),
     (''StringListContainsAny'', [''candidates'']), (''StringListContainsAll'', [''requiredItems'']),
     (''StringListIsEmpty'', []), (''Exists'', []), (''NotExists'', [])]"

lemmas direct_defs =
  StringEquals_ParseDirect_def StringNotEquals_ParseDirect_def StringPrefix_ParseDirect_def
  StringSuffix_ParseDirect_def StringContains_ParseDirect_def IntegerEquals_ParseDirect_def
  IntegerNotEquals_ParseDirect_def IntegerGreaterThan_ParseDirect_def
  IntegerGreaterThanOrEqual_ParseDirect_def IntegerLessThan_ParseDirect_def
  IntegerLessThanOrEqual_ParseDirect_def StringListContains_ParseDirect_def
  StringInList_ParseDirect_def StringListContainsAll_ParseDirect_def
  StringListContainsAny_ParseDirect_def StringListIsEmpty_ParseDirect_def
  Exists_ParseDirect_def NotExists_ParseDirect_def

lemmas unmarshal_defs =
  StringEquals_UnmarshalFromMap_def StringNotEquals_UnmarshalFromMap_def
  StringPrefix_UnmarshalFromMap_def StringSuffix_UnmarshalFromMap_def
  StringContains_UnmarshalFromMap_def IntegerEquals_UnmarshalFromMap_def
  IntegerNotEquals_UnmarshalFromMap_def IntegerGreaterThan_UnmarshalFromMap_def
  IntegerGreaterThanOrEqual_UnmarshalFromMap_def IntegerLessThan_UnmarshalFromMap_def
  IntegerLessThanOrEqual_UnmarshalFromMap_def StringListContains_UnmarshalFromMap_def
  StringInList_UnmarshalFromMap_def StringListContainsAll_UnmarshalFromMap_def
  StringListContainsAny_UnmarshalFromMap_def StringListIsEmpty_UnmarshalFromMap_def
  Exists_UnmarshalFromMap_def NotExists_UnmarshalFromMap_def

lemma one_argument: "length xs = Suc 0 \<longleftrightarrow> (\<exists>x. xs = [x])"
  by (cases xs) auto

lemma two_arguments: "length xs = Suc (Suc 0) \<longleftrightarrow> (\<exists>x y. xs = [x, y])"
  by (cases xs; cases "tl xs") auto

lemma operations_not_aliases: "list_all (\<lambda>op. op \<notin> fst ` set CompareOpAlias) (map fst argument_fields)"
  by code_simp

lemma factory_direct_map:
  "list_all (\<lambda>(op, fs). \<forall>args. length args = length fs \<longrightarrow>
     (\<exists>f. map_of CompareOpFactory op = Some f \<and>
        op_ParseDirect f args = op_UnmarshalFromMap f ((''op'', x) # zip fs args))) argument_fields"
  unfolding argument_fields_def
  by (simp add: CompareOpFactory_def one_argument two_arguments direct_defs unmarshal_defs
      direct_unary_def unmarshal_unary_def direct_list_def
      IntegerBetween_ParseDirect_def IntegerBetween_UnmarshalFromMap_def)
    (intro conjI allI impI; elim exE; simp)

text \<open>
  The programmatic and the map form of a condition agree: for every modelled operation and
  every list of arguments of its length, \<open>ParseDirect\<close> of the operation's name and the arguments
  gives exactly what \<open>UnmarshalFromMap\<close> gives on the map with the same name and the
  arguments under the operation's field names, errors included.
\<close>

theorem ParseDirect_agrees_with_map:
  assumes "map_of argument_fields op = Some fs" "length args = length fs"
  shows "generic_ParseDirect (AString op # args) =
         generic_UnmarshalFromMap ((''op'', AString op) # zip fs args)"
proof -
  have m: "(op, fs) \<in> set argument_fields" using assms(1) by (rule map_of_SomeD)
  from factory_direct_map [of "AString op"] m
  have "\<forall>args. length args = length fs \<longrightarrow>
     (\<exists>f. map_of CompareOpFactory op = Some f \<and>
        op_ParseDirect f args = op_UnmarshalFromMap f ((''op'', AString op) # zip fs args))"
    unfolding list_all_iff by blast
  with assms(2) obtain f where f: "map_of CompareOpFactory op = Some f"
    and eq: "op_ParseDirect f args = op_UnmarshalFromMap f ((''op'', AString op) # zip fs args)"
    by blast
  have "op \<notin> fst ` set CompareOpAlias"
    using operations_not_aliases m unfolding list_all_iff by force
  then have "map_of CompareOpAlias op = None" by (simp only: map_of_eq_None_iff simp_thms)
  with f eq show ?thesis
    by (simp add: generic_ParseDirect_def generic_UnmarshalFromMap_def resolve_alias_def
        find_operation_def Let_def)
qed

theorem ParseDirect_agrees_with_map_witness:
  "map_of argument_fields ''IntegerBetween'' = Some [''min'', ''max''] \<and>
   length [AInt64 1, AMap [(''var'', AString ''env.limit'')]] = length [''min'', ''max''] \<and>
   generic_ParseDirect [AString ''IntegerBetween'', AInt64 1, AMap [(''var'', AString ''env.limit'')]] =
   generic_UnmarshalFromMap [(''op'', AString ''IntegerBetween''), (''min'', AInt64 1),
     (''max'', AMap [(''var'', AString ''env.limit'')])]"
proof -
  have a: "map_of argument_fields ''IntegerBetween'' = Some [''min'', ''max'']"
    by (simp add: argument_fields_def)
  have b: "length [AInt64 1, AMap [(''var'', AString ''env.limit'')]] = length [''min'', ''max'']"
    by simp
  from ParseDirect_agrees_with_map [OF a b] a b show ?thesis by (simp only: zip_Cons_Cons zip_Nil simp_thms)
qed

text \<open>The arity table, and the audit trail of a comparison.\<close>

lemma parse_unary_arity: "parse_unary op p z mk args = Ok c \<Longrightarrow> length args = 1"
  by (simp add: parse_unary_def split: if_splits)

lemma CompareOpArgCount_parse:
  "list_all (\<lambda>(op, f). op \<in> set CompareOpList \<and> (\<exists>n. map_of CompareOpArgCount op = Some n \<and>
     (n \<noteq> -1 \<longrightarrow> (\<forall>args. is_ok (op_Parse f args) \<longrightarrow> int (length args) = n)))) CompareOpFactory"
  unfolding CompareOpFactory_def
  by (simp add: CompareOpArgCount_def CompareOpList_def is_ok_iff
      StringEquals_Parse_def StringNotEquals_Parse_def StringPrefix_Parse_def
      StringSuffix_Parse_def StringContains_Parse_def IntegerEquals_Parse_def
      IntegerNotEquals_Parse_def IntegerGreaterThan_Parse_def
      IntegerGreaterThanOrEqual_Parse_def IntegerLessThan_Parse_def
      IntegerLessThanOrEqual_Parse_def StringListContains_Parse_def
      StringListIsEmpty_Parse_def Exists_Parse_def NotExists_Parse_def IntegerBetween_Parse_def)
    (auto dest: parse_unary_arity split: if_splits)

text \<open>
  C9. The table of argument counts is what the parser enforces: a condition that parses has
  a listed operation, the one its name or alias denotes, and, unless the table says that the
  operation takes any number of arguments, was given exactly as many as the table says.
\<close>

theorem parsed_arity:
  assumes "generic_Parse args = Ok gc"
  shows "gc_Op gc \<in> set CompareOpList \<and> gc_Op gc = resolve_alias (hd args) \<and>
         (\<exists>n. map_of CompareOpArgCount (gc_Op gc) = Some n \<and>
            (n = -1 \<or> int (length args) = n + 1)) \<and> gc_Condition gc \<noteq> None"
proof -
  from assms obtain op0 rest where args: "args = op0 # rest"
    by (cases args) (auto simp: generic_Parse_def)
  with assms obtain f c where f: "map_of CompareOpFactory (resolve_alias op0) = Some f"
    and c: "op_Parse f rest = Ok c" and gc: "gc = \<lparr>gc_Op = resolve_alias op0, gc_Condition = Some c\<rparr>"
    by (auto simp: generic_Parse_def Let_def in_factory)
  from f have "(resolve_alias op0, f) \<in> set CompareOpFactory" by (rule map_of_SomeD)
  with CompareOpArgCount_parse obtain n where "resolve_alias op0 \<in> set CompareOpList"
    "map_of CompareOpArgCount (resolve_alias op0) = Some n"
    "n \<noteq> -1 \<longrightarrow> (\<forall>args. is_ok (op_Parse f args) \<longrightarrow> int (length args) = n)"
    unfolding list_all_iff by blast
  with c gc args show ?thesis by fastforce
qed

theorem parsed_arity_witness:
  "generic_Parse [''int_between'', ''1'', ''0x10''] =
     Ok \<lparr>gc_Op = ''IntegerBetween'', gc_Condition = Some (IntegerBetween (zero_variable 1) (zero_variable 16))\<rparr> \<and>
   (\<exists>n. map_of CompareOpArgCount ''IntegerBetween'' = Some n \<and>
      (n = -1 \<or> int (length [''int_between'', ''1'', ''0x10'']) = n + 1))"
proof -
  have p: "parseInt64 ''1'' = Some 1" "parseInt64 ''0x10'' = Some 16"
    by (simp_all add: parseInt64_def ParseInt0_def ParseUint0_def split_base_def base_digit_def
        is_digit_def digit_value_def lower_def ToLower_byte_def)
  have g: "generic_Parse [''int_between'', ''1'', ''0x10''] =
     Ok \<lparr>gc_Op = ''IntegerBetween'', gc_Condition = Some (IntegerBetween (zero_variable 1) (zero_variable 16))\<rparr>"
    using p by (simp add: generic_Parse_def resolve_alias_def CompareOpAlias_def find_operation_def
        CompareOpFactory_def IntegerBetween_Parse_def ParseString_def zero_variable_def)
  from parsed_arity [OF g] have "\<exists>n. map_of CompareOpArgCount ''IntegerBetween'' = Some n \<and>
      (n = -1 \<or> int (length [''int_between'', ''1'', ''0x10'']) = n + 1)"
    unfolding generic_condition.select_convs by blast
  with g show ?thesis by (rule conjI)
qed

text \<open>What one comparison leaves in the audit trail.\<close>

definition compare_audited :: "condition \<Rightarrow> attribute_resolver \<Rightarrow> any \<Rightarrow> compare_result \<Rightarrow> bool" where
  "compare_audited c r t out \<longleftrightarrow> (\<exists>r1. audit_extends r r1 \<and>
     (case fst out of
        Ok b \<Rightarrow> snd out = AuditResult r1 c t b None
      | Err (TargetHasType op x) \<Rightarrow>
          r1 = r \<and> x = t \<and> snd out = AuditResult r c t False (Some (TargetHasType op t))
      | _ \<Rightarrow> snd out = r1))"

lemma compare_audited_intros:
  "audit_extends r r1 \<Longrightarrow> compare_audited c r t (audited c r1 t b)"
  "compare_audited c r t (target_type_error op c r t)"
  "audit_extends r r1 \<Longrightarrow> compare_audited c r t (Panic, r1)"
  "audit_extends r r1 \<Longrightarrow> compare_audited c r t (Err (ArgumentFailed op i e), r1)"
  by (auto simp: compare_audited_def audited_def target_type_error_def Let_def)

lemma compare_unary_audited: "compare_audited c r t (compare_unary op f target_ty arg_ty rel v c r t)"
proof (cases "fst target_ty t")
  case (Some x)
  obtain r1 where r1: "GetValue arg_ty v r f = (read_value arg_ty v (ar_ctx r), r1)"
    and ext: "audit_extends r r1" by (rule GetValue_obtain)
  show ?thesis unfolding compare_unary_def Some r1
    by (cases "read_value arg_ty v (ar_ctx r)") (simp_all add: compare_audited_intros ext)
qed (simp add: compare_unary_def compare_audited_intros)

lemma IntegerBetween_audited:
  "compare_audited (IntegerBetween mn mx) r t (IntegerBetween_Compare mn mx r t)"
proof (cases "fst int64_type t")
  case (Some x)
  obtain r1 where r1: "GetValue int64_type mn r ''IntegerBetween.Min'' =
      (read_value int64_type mn (ar_ctx r), r1)" and ext: "audit_extends r r1"
    by (rule GetValue_obtain)
  obtain r2 where r2: "GetValue int64_type mx r1 ''IntegerBetween.Max'' =
      (read_value int64_type mx (ar_ctx r1), r2)" and ext2: "audit_extends r1 r2"
    by (rule GetValue_obtain)
  have ext3: "audit_extends r r2" using ext ext2 by (rule audit_extends_trans)
  show ?thesis unfolding IntegerBetween_Compare_def Some r1
    by (cases "read_value int64_type mn (ar_ctx r)"; cases "read_value int64_type mx (ar_ctx r1)")
      (simp_all add: compare_audited_intros ext ext3 r2)
qed (simp add: IntegerBetween_Compare_def compare_audited_intros)

lemma GetPrecompiledValue_extends: "audit_extends r (snd (GetPrecompiledValue ty uty g mv r f))"
proof (cases "IsVariable mv")
  case True
  obtain o' r' where rr: "resolver_Resolve r (mv_Variable mv) = (o', r')" by fastforce
  then have "audit_extends r r'" using resolver_Resolve_extends by (metis snd_conv)
  with True rr show ?thesis
    by (auto simp: GetPrecompiledValue_def Let_def split: outcome.splits option.splits
        intro: audit_extends_trans [OF _ AuditValue_extends])
qed (simp add: GetPrecompiledValue_def Let_def split: option.splits)

lemma StringListContainsAny_audited:
  "compare_audited (StringListContainsAny v) r t (StringListContainsAny_Compare v r t)"
proof (cases "fst strings_type t")
  case (Some x)
  obtain o' r1 where g: "GetPrecompiledValue strings_type string_set_type makeStringSet v r
      ''StringListContainsAny.Candidates'' = (o', r1)" by fastforce
  then have ext: "audit_extends r r1" using GetPrecompiledValue_extends by (metis snd_conv)
  show ?thesis unfolding StringListContainsAny_Compare_def Some g
    by (cases o') (simp_all add: compare_audited_intros ext)
qed (simp add: StringListContainsAny_Compare_def compare_audited_intros)

lemma Compare_audited: "compare_audited c r t (Compare c r t)"
  by (cases c) (simp_all add: compare_op_defs compare_unary_audited IntegerBetween_audited
      StringListContainsAny_audited StringListIsEmpty_Compare_def Exists_Compare_def
      NotExists_Compare_def compare_audited_intros split: option.split)

lemma Compare_obtain:
  assumes "Compare c r t = (out, r')"
  obtains r1 where "audit_extends r r1"
    and "\<And>b. out = Ok b \<Longrightarrow> r' = AuditResult r1 c t b None"
    and "\<And>op x. out = Err (TargetHasType op x) \<Longrightarrow> r' = AuditResult r c t False (Some (TargetHasType op x))"
    and "out = Panic \<or> (\<exists>op i e. out = Err (ArgumentFailed op i e)) \<Longrightarrow> r' = r1"
proof -
  from Compare_audited [of c r t] obtain r1 where "audit_extends r r1"
    and "case out of
        Ok b \<Rightarrow> r' = AuditResult r1 c t b None
      | Err (TargetHasType op x) \<Rightarrow>
          r1 = r \<and> x = t \<and> r' = AuditResult r c t False (Some (TargetHasType op t))
      | _ \<Rightarrow> r' = r1"
    unfolding assms compare_audited_def fst_conv snd_conv by blast
  then show ?thesis by (intro that [of r1]) auto
qed

lemma read_value_no_Panic: "context_ok ctx \<Longrightarrow> read_value ty v ctx \<noteq> Panic"
  by (auto simp: read_value_def Resolve_no_Panic split: outcome.splits option.splits)

lemma Compare_no_Panic:
  assumes "context_ok (ar_ctx r)"
  shows "fst (Compare c r t) \<noteq> Panic"
proof -
  have rv: "read_value ty v (ar_ctx r) \<noteq> Panic" for ty :: "'a go_type" and v :: "('a, 'b) maybe_variable"
    using assms by (rule read_value_no_Panic)
  have un: "fst (compare_unary op f target_ty arg_ty rel v c r t) \<noteq> Panic"
    for op f rel c v and target_ty :: "'a go_type" and arg_ty :: "'b go_type"
    using read_value_no_Panic [OF assms, of arg_ty v]
    by (auto simp: compare_unary_value bind_outcome_Panic_iff split: option.split)
  have res: "fst (resolver_Resolve r' (mv_Variable w)) \<noteq> Panic"
    if "ar_ctx r' = ar_ctx r" "IsVariable w" for r' and w :: "('a, 'b) maybe_variable"
    using that Resolve_no_Panic [OF assms] by (simp add: resolver_Resolve_value IsVariable_def)
  have between: "fst (IntegerBetween_Compare mn mx r t) \<noteq> Panic" for mn mx
  proof -
    obtain r1 where r1: "GetValue int64_type mn r ''IntegerBetween.Min'' =
        (read_value int64_type mn (ar_ctx r), r1)" and e1: "audit_extends r r1" by (rule GetValue_obtain)
    obtain r2 where r2: "GetValue int64_type mx r1 ''IntegerBetween.Max'' =
        (read_value int64_type mx (ar_ctx r1), r2)" by (rule GetValue_obtain)
    show ?thesis unfolding IntegerBetween_Compare_def r1
      using read_value_no_Panic [OF assms, of int64_type mn] read_value_no_Panic [OF assms, of int64_type mx]
      by (auto simp: r2 audit_extends_ctx [OF e1] split: option.split outcome.split)
  qed
  have any: "fst (StringListContainsAny_Compare v r t) \<noteq> Panic" for v
  proof -
    have "fst (GetPrecompiledValue strings_type string_set_type makeStringSet v r
        ''StringListContainsAny.Candidates'') \<noteq> Panic"
      using res [of r v]
      by (auto simp: GetPrecompiledValue_def Let_def split: prod.split outcome.split option.split)
    then show ?thesis
      by (auto simp: StringListContainsAny_Compare_def split: option.split prod.split outcome.split)
  qed
  show ?thesis
    by (cases c) (simp_all add: compare_op_defs un between any StringListIsEmpty_Compare_def
        Exists_Compare_def NotExists_Compare_def split: option.split)
qed

end
