(* ===== verification/Policies.thy ===== *)
theory Policies
  imports Comparison_Laws
begin

text \<open>
  Access policies and the access controller: \<open>attributePolicy\<close> (access/policy/attribute.go),
  \<open>andPolicy\<close>, \<open>orPolicy\<close>, \<open>xorPolicy\<close>, \<open>notPolicy\<close> and \<open>policySetBase\<close>
  (access/policy/logic.go), \<open>Decision\<close> (access/types.go), and \<open>accessController\<close> and
  \<open>ContextCollector\<close> (access/access.go). The audit sink of the context is the list of the
  records made, in order.
\<close>

section \<open>Policies, decisions and the audit log\<close>

datatype policy =
    AttributePolicy (ap_name: string) (ap_context: string) (ap_originalName: string)
      (ap_attributeNests: "string list") (ap_compare: generic_condition)
  | AndPolicy string "policy list"
  | OrPolicy string "policy list"
  | XorPolicy string "policy list"
  | NotPolicy string policy
  | DefaultDenyPolicy

text \<open>The \<open>Name\<close> method of the types.\<close>

fun policy_name :: "policy \<Rightarrow> string" where
  "policy_name (AttributePolicy name _ _ _ _) = name"
| "policy_name (AndPolicy name _) = name"
| "policy_name (OrPolicy name _) = name"
| "policy_name (XorPolicy name _) = name"
| "policy_name (NotPolicy name _) = name"
| "policy_name DefaultDenyPolicy = ''DefaultDeny''"

definition NewAttributePolicy :: "string \<Rightarrow> string \<Rightarrow> string \<Rightarrow> generic_condition \<Rightarrow> policy" where
  "NewAttributePolicy name context attribute cmp =
     AttributePolicy name context attribute (Split (CHR ''.'') attribute) cmp"

datatype satisfy_error = ResolveError resolve_error | CompareError cond_error

text \<open>\<open>access.Decision\<close>; \<open>Reason\<close> is the constant part of the message, \<open>Err\<close> holds the error.\<close>

datatype decision = Decision
  (Result: bool) (Reason: string) (Err_of: "satisfy_error option") (Policy: policy)
  (Derived: "decision list")

datatype decision_type = DecisionTypeAllow | DecisionTypeDeny

datatype audit_record =
    RecordPolicyStart decision_type string
  | RecordPolicyDecision decision_type decision
  | RecordAttributeResolve resolve_record
  | RecordUsedValue used_value_record
  | RecordCompareResult compare_record

type_synonym audit = "audit_record list"

type_synonym satisfy_result = "(unit, decision) outcome \<times> audit"

section \<open>Satisfy\<close>

definition new_resolver :: "policy_context \<Rightarrow> string \<Rightarrow> attribute_resolver" where
  "new_resolver ctx name = \<lparr>ar_ctx = ctx, ar_policyName = name, ar_auditResolve = [],
     ar_auditUse = [], ar_auditCompare = []\<rparr>"

text \<open>The three loops that hand the resolver's records to the audit.\<close>

definition flush_resolver :: "attribute_resolver \<Rightarrow> audit" where
  "flush_resolver r = map RecordAttributeResolve (ar_auditResolve r) @
     map RecordUsedValue (ar_auditUse r) @ map RecordCompareResult (ar_auditCompare r)"

definition attribute_Satisfy :: "policy_context \<Rightarrow> policy \<Rightarrow> audit \<Rightarrow> satisfy_result" where
  "attribute_Satisfy ctx p log =
     (let value = Resolve (ap_context p) (ap_attributeNests p) ctx;
          log1 = log @ [RecordAttributeResolve \<lparr>rr_PolicyName = ap_name p, rr_Context = ap_context p,
                   rr_Attribute = ap_attributeNests p, rr_Resolved = value\<rparr>]
      in case value of
           Panic \<Rightarrow> (Panic, log)
         | Err e \<Rightarrow>
             (Ok (Decision False ''failed to resolve attribute'' (Some (ResolveError e)) p []), log1)
         | Ok v \<Rightarrow>
             (case generic_Compare (ap_compare p) (new_resolver ctx (ap_name p)) v of
                (Panic, r) \<Rightarrow> (Panic, log1)
              | (Err e, r) \<Rightarrow>
                  (Ok (Decision False ''error during attribute comparison'' (Some (CompareError e)) p []),
                   log1 @ flush_resolver r)
              | (Ok result, r) \<Rightarrow>
                  (Ok (Decision result
                     (if result then ''attribute condition satisfied''
                      else ''attribute condition not satisfied'') None p []),
                   log1 @ flush_resolver r)))"

text \<open>The policies of a set are visited in order; \<open>derived\<close> is \<open>derivedPerms\<close>.\<close>

function Satisfy :: "policy_context \<Rightarrow> policy \<Rightarrow> audit \<Rightarrow> satisfy_result"
  and and_loop :: "policy_context \<Rightarrow> policy \<Rightarrow> policy list \<Rightarrow> decision list \<Rightarrow> audit \<Rightarrow> satisfy_result"
  and or_loop :: "policy_context \<Rightarrow> policy \<Rightarrow> policy list \<Rightarrow> decision list \<Rightarrow> audit \<Rightarrow> satisfy_result"
  and xor_loop :: "policy_context \<Rightarrow> policy \<Rightarrow> policy list \<Rightarrow> decision list \<Rightarrow> nat \<Rightarrow> audit \<Rightarrow> satisfy_result"
where
  "Satisfy ctx (AttributePolicy name c orig nests cmp) log =
     attribute_Satisfy ctx (AttributePolicy name c orig nests cmp) log"
| "Satisfy ctx (AndPolicy name policies) log = and_loop ctx (AndPolicy name policies) policies [] log"
| "Satisfy ctx (OrPolicy name policies) log = or_loop ctx (OrPolicy name policies) policies [] log"
| "Satisfy ctx (XorPolicy name policies) log = xor_loop ctx (XorPolicy name policies) policies [] 0 log"
| "Satisfy ctx (NotPolicy name policy) log =
     (case Satisfy ctx policy log of
        (Ok perm, log') \<Rightarrow>
          if Result perm
          then (Ok (Decision False ''inner policy satisfied'' None (NotPolicy name policy) [perm]), log')
          else (Ok (Decision True ''inner policy not satisfied'' None (NotPolicy name policy) [perm]), log')
      | (_, log') \<Rightarrow> (Panic, log'))"
| "Satisfy ctx DefaultDenyPolicy log =
     (Ok (Decision False ''default deny policy'' None DefaultDenyPolicy []), log)"
| "and_loop ctx p [] derived log =
     (Ok (Decision True ''all policies satisfied'' None p derived), log)"
| "and_loop ctx p (pol # pols) derived log =
     (case Satisfy ctx pol log of
        (Ok perm, log') \<Rightarrow>
          if \<not> Result perm
          then (Ok (Decision False ''at least one policy not satisfied'' None p (derived @ [perm])), log')
          else and_loop ctx p pols (derived @ [perm]) log'
      | (_, log') \<Rightarrow> (Panic, log'))"
| "or_loop ctx p [] derived log =
     (Ok (Decision False ''no policies satisfied'' None p derived), log)"
| "or_loop ctx p (pol # pols) derived log =
     (case Satisfy ctx pol log of
        (Ok perm, log') \<Rightarrow>
          if Result perm
          then (Ok (Decision True ''at least one policy satisfied'' None p (derived @ [perm])), log')
          else or_loop ctx p pols (derived @ [perm]) log'
      | (_, log') \<Rightarrow> (Panic, log'))"
| "xor_loop ctx p [] derived satisfiedCount log =
     (if satisfiedCount = 1
      then (Ok (Decision True ''exactly one policy satisfied'' None p derived), log)
      else (Ok (Decision False ''zero or multiple policies satisfied'' None p derived), log))"
| "xor_loop ctx p (pol # pols) derived satisfiedCount log =
     (case Satisfy ctx pol log of
        (Ok perm, log') \<Rightarrow>
          xor_loop ctx p pols (derived @ [perm])
            (if Result perm then satisfiedCount + 1 else satisfiedCount) log'
      | (_, log') \<Rightarrow> (Panic, log'))"
  by pat_completeness auto

termination
  by (relation "measure (\<lambda>x. case x of
        Inl (Inl (ctx, p, log)) \<Rightarrow> size p
      | Inl (Inr (ctx, p, pols, derived, log)) \<Rightarrow> size_list size pols
      | Inr (Inl (ctx, p, pols, derived, log)) \<Rightarrow> size_list size pols
      | Inr (Inr (ctx, p, pols, derived, n, log)) \<Rightarrow> size_list size pols)") auto

section \<open>Policy sets\<close>

definition AddPolicy :: "policy \<Rightarrow> policy list \<Rightarrow> policy list" where
  "AddPolicy pol policies =
     (if list_ex (\<lambda>existing. policy_name existing = policy_name pol) policies then policies
      else policies @ [pol])"

fun RemovePolicy :: "string \<Rightarrow> policy list \<Rightarrow> policy list" where
  "RemovePolicy name [] = []"
| "RemovePolicy name (pol # policies) =
     (if policy_name pol = name then policies else pol # RemovePolicy name policies)"

section \<open>The access controller (access/access.go)\<close>

record policy_list =
  Deny :: "policy list"
  Allow :: "policy list"

type_synonym policy_map = "(string \<times> (string \<times> policy_list) list) list"

text \<open>\<open>CanAccess\<close> returns nil or a \<open>DenyError\<close> with its cause; Panic is a panic of a policy.\<close>

type_synonym access_result = "(unit, decision option) outcome \<times> audit"

definition IsDefaultDenyError :: "decision option \<Rightarrow> bool" where
  "IsDefaultDenyError err = (case err of Some d \<Rightarrow> Policy d = DefaultDenyPolicy | None \<Rightarrow> False)"

definition default_deny :: "string \<Rightarrow> audit \<Rightarrow> access_result" where
  "default_deny reason log =
     (let d = Decision True reason None DefaultDenyPolicy [] in
      (Ok (Some d), log @ [RecordPolicyDecision DecisionTypeDeny d]))"

fun allow_loop :: "policy_context \<Rightarrow> policy list \<Rightarrow> audit \<Rightarrow> access_result" where
  "allow_loop ctx [] log = default_deny ''no allow policy matched'' log"
| "allow_loop ctx (policy # policies) log =
     (case Satisfy ctx policy (log @ [RecordPolicyStart DecisionTypeAllow (policy_name policy)]) of
        (Ok decision, log') \<Rightarrow>
          (let log'' = log' @ [RecordPolicyDecision DecisionTypeAllow decision] in
           if Result decision then (Ok None, log'') else allow_loop ctx policies log'')
      | (_, log') \<Rightarrow> (Panic, log'))"

fun deny_loop :: "policy_context \<Rightarrow> policy list \<Rightarrow> policy list \<Rightarrow> audit \<Rightarrow> access_result" where
  "deny_loop ctx [] allow log = allow_loop ctx allow log"
| "deny_loop ctx (policy # policies) allow log =
     (case Satisfy ctx policy (log @ [RecordPolicyStart DecisionTypeDeny (policy_name policy)]) of
        (Ok decision, log') \<Rightarrow>
          (let log'' = log' @ [RecordPolicyDecision DecisionTypeDeny decision] in
           if Result decision then (Ok (Some decision), log'') else deny_loop ctx policies allow log'')
      | (_, log') \<Rightarrow> (Panic, log'))"

definition CanAccess :: "policy_map \<Rightarrow> policy_context \<Rightarrow> audit \<Rightarrow> access_result" where
  "CanAccess policyMap p log =
     (case (pc_resource p, pc_action p) of
        (Some resource, Some action) \<Rightarrow>
          (case map_of policyMap (attr_name (pc_hierarchy p) resource) of
             None \<Rightarrow> default_deny ''no policies for resource'' log
           | Some resourcePolicies \<Rightarrow>
               (case map_of resourcePolicies (attr_name (pc_hierarchy p) action) of
                  None \<Rightarrow> default_deny ''no policies for action on resource'' log
                | Some policyList \<Rightarrow> deny_loop p (Deny policyList) (Allow policyList) log))
      | _ \<Rightarrow> default_deny ''resource or action is nil'' log)"

text \<open>The builder of a context; each step copies the others.\<close>

record context_collector =
  cc_User :: "attribute option"
  cc_Environment :: "attribute option"
  cc_Resource :: "attribute option"
  cc_Action :: "attribute option"

definition NewContextCollector :: context_collector where
  "NewContextCollector = \<lparr>cc_User = None, cc_Environment = None, cc_Resource = None, cc_Action = None\<rparr>"

definition CollectEnvironment :: "attribute \<Rightarrow> context_collector \<Rightarrow> context_collector" where
  "CollectEnvironment e cc = \<lparr>cc_User = cc_User cc, cc_Environment = Some e,
     cc_Resource = cc_Resource cc, cc_Action = cc_Action cc\<rparr>"

definition CollectUser :: "attribute \<Rightarrow> context_collector \<Rightarrow> context_collector" where
  "CollectUser u cc = \<lparr>cc_User = Some u, cc_Environment = cc_Environment cc,
     cc_Resource = cc_Resource cc, cc_Action = cc_Action cc\<rparr>"

definition CollectResource :: "attribute \<Rightarrow> context_collector \<Rightarrow> context_collector" where
  "CollectResource r cc = \<lparr>cc_User = cc_User cc, cc_Environment = cc_Environment cc,
     cc_Resource = Some r, cc_Action = cc_Action cc\<rparr>"

definition CollectAction :: "attribute \<Rightarrow> context_collector \<Rightarrow> context_collector" where
  "CollectAction a cc = \<lparr>cc_User = cc_User cc, cc_Environment = cc_Environment cc,
     cc_Resource = cc_Resource cc, cc_Action = Some a\<rparr>"

definition Build :: "authority_heap \<Rightarrow> context_collector \<Rightarrow> policy_context" where
  "Build h cc = \<lparr>pc_hierarchy = h, pc_user = cc_User cc, pc_environment = cc_Environment cc,
     pc_resource = cc_Resource cc, pc_action = cc_Action cc\<rparr>"

end
