(* ===== verification/Policy_Laws.thy ===== *)
theory Policy_Laws
  imports Policies
begin

text \<open>
  What the policies and the access controller decide: the boolean meaning of a policy,
  decisions that carry their own justification, the rule of the access controller, and the
  invariants of policy sets.
\<close>

section \<open>The meaning of a policy\<close>

text \<open>An attribute policy that cannot be evaluated does not hold.\<close>

definition attribute_holds :: "policy_context \<Rightarrow> policy \<Rightarrow> bool" where
  "attribute_holds ctx p =
     (case Resolve (ap_context p) (ap_attributeNests p) ctx of
        Ok v \<Rightarrow> fst (generic_Compare (ap_compare p) (new_resolver ctx (ap_name p)) v) = Ok True
      | _ \<Rightarrow> False)"

fun holds :: "policy_context \<Rightarrow> policy \<Rightarrow> bool" where
  "holds ctx (AttributePolicy name c orig nests cmp) =
     attribute_holds ctx (AttributePolicy name c orig nests cmp)"
| "holds ctx (AndPolicy name ps) \<longleftrightarrow> list_all (holds ctx) ps"
| "holds ctx (OrPolicy name ps) \<longleftrightarrow> list_ex (holds ctx) ps"
| "holds ctx (XorPolicy name ps) \<longleftrightarrow> length (filter (holds ctx) ps) = 1"
| "holds ctx (NotPolicy name p) \<longleftrightarrow> \<not> holds ctx p"
| "holds ctx DefaultDenyPolicy \<longleftrightarrow> False"

text \<open>A decision whose result follows from the decisions it lists, at every level.\<close>

definition step_justified :: "policy \<Rightarrow> bool \<Rightarrow> satisfy_error option \<Rightarrow> decision list \<Rightarrow> bool" where
  "step_justified p b err ds =
     (case p of
        AttributePolicy _ _ _ _ _ \<Rightarrow> ds = [] \<and> (err \<noteq> None \<longrightarrow> \<not> b)
      | AndPolicy _ ps \<Rightarrow> map Policy ds = take (length ds) ps \<and>
          (if b then length ds = length ps \<and> list_all Result ds
           else ds \<noteq> [] \<and> list_all Result (butlast ds) \<and> \<not> Result (last ds))
      | OrPolicy _ ps \<Rightarrow> map Policy ds = take (length ds) ps \<and>
          (if b then ds \<noteq> [] \<and> list_all (\<lambda>d. \<not> Result d) (butlast ds) \<and> Result (last ds)
           else length ds = length ps \<and> list_all (\<lambda>d. \<not> Result d) ds)
      | XorPolicy _ ps \<Rightarrow> map Policy ds = ps \<and> b = (length (filter Result ds) = 1)
      | NotPolicy _ p' \<Rightarrow> map Policy ds = [p'] \<and> map Result ds = [\<not> b]
      | DefaultDenyPolicy \<Rightarrow> ds = [] \<and> \<not> b)"

fun justified :: "decision \<Rightarrow> bool" where
  "justified (Decision b why err p ds) \<longleftrightarrow> step_justified p b err ds \<and> list_all justified ds"

definition decides :: "policy_context \<Rightarrow> policy \<Rightarrow> audit \<Rightarrow> satisfy_result \<Rightarrow> bool" where
  "decides ctx p log out \<longleftrightarrow> (\<exists>d new. out = (Ok d, log @ new) \<and> Policy d = p \<and>
     Result d = holds ctx p \<and> justified d)"

lemma decidesE:
  assumes "decides ctx p log out"
  obtains d new where "out = (Ok d, log @ new)" "Policy d = p" "Result d = holds ctx p" "justified d"
  using assms unfolding decides_def by blast

lemma generic_Compare_no_Panic:
  "context_ok (ar_ctx r) \<Longrightarrow> fst (generic_Compare gc r v) \<noteq> Panic"
  by (auto simp: generic_Compare_def Compare_no_Panic split: option.split)

lemma attribute_decides:
  assumes "context_ok ctx"
  shows "decides ctx (AttributePolicy n c orig nests g) log (Satisfy ctx (AttributePolicy n c orig nests g) log)"
proof -
  have np: "fst (generic_Compare g (new_resolver ctx n) v) \<noteq> Panic" for v
    using assms by (simp add: generic_Compare_no_Panic new_resolver_def)
  have nr: "Resolve c nests ctx \<noteq> Panic" using assms by (rule Resolve_no_Panic)
  show ?thesis
  proof (cases "Resolve c nests ctx")
    case (Ok v)
    obtain out r where "generic_Compare g (new_resolver ctx n) v = (out, r)" by fastforce
    with Ok np [of v] show ?thesis
      by (cases out) (simp_all add: decides_def attribute_Satisfy_def attribute_holds_def Let_def
          step_justified_def)
  qed (use nr in \<open>simp_all add: decides_def attribute_Satisfy_def attribute_holds_def Let_def
      step_justified_def\<close>)
qed

text \<open>The three loops, over children that are decided.\<close>

lemma and_loop_decides:
  assumes "\<forall>pol\<in>set pols. \<forall>log. decides ctx pol log (Satisfy ctx pol log)"
  shows "\<exists>b why ds new. and_loop ctx p pols derived log = (Ok (Decision b why None p (derived @ ds)), log @ new) \<and>
           b = list_all (holds ctx) pols \<and> list_all justified ds \<and>
           step_justified (AndPolicy n pols) b None ds"
  using assms
proof (induction pols arbitrary: derived log)
  case (Cons pol pols)
  from Cons.prems have "decides ctx pol log (Satisfy ctx pol log)" by simp
  then obtain d new where d: "Satisfy ctx pol log = (Ok d, log @ new)" "Policy d = pol"
    "Result d = holds ctx pol" "justified d" by (rule decidesE)
  show ?case
  proof (cases "Result d")
    case True
    from Cons.prems have "\<forall>pol\<in>set pols. \<forall>log. decides ctx pol log (Satisfy ctx pol log)" by simp
    from Cons.IH [OF this, of "derived @ [d]" "log @ new"] obtain b why ds new' where
      l: "and_loop ctx p pols ((derived @ [d])) (log @ new) =
            (Ok (Decision b why None p ((derived @ [d]) @ ds)), (log @ new) @ new')"
      and ds: "b = list_all (holds ctx) pols" "list_all justified ds" "step_justified (AndPolicy n pols) b None ds"
      by blast
    have "step_justified (AndPolicy n (pol # pols)) b None (d # ds)"
      using ds(3) d True by (auto simp: step_justified_def split: if_splits)
    with l ds d True show ?thesis by (intro exI [of _ b] exI [of _ why] exI [of _ "d # ds"]) simp
  next
    case False
    with d show ?thesis by (auto intro!: exI [of _ "[d]"] simp: step_justified_def)
  qed
qed (auto simp: step_justified_def)

lemma or_loop_decides:
  assumes "\<forall>pol\<in>set pols. \<forall>log. decides ctx pol log (Satisfy ctx pol log)"
  shows "\<exists>b why ds new. or_loop ctx p pols derived log = (Ok (Decision b why None p (derived @ ds)), log @ new) \<and>
           b = list_ex (holds ctx) pols \<and> list_all justified ds \<and>
           step_justified (OrPolicy n pols) b None ds"
  using assms
proof (induction pols arbitrary: derived log)
  case (Cons pol pols)
  from Cons.prems have "decides ctx pol log (Satisfy ctx pol log)" by simp
  then obtain d new where d: "Satisfy ctx pol log = (Ok d, log @ new)" "Policy d = pol"
    "Result d = holds ctx pol" "justified d" by (rule decidesE)
  show ?case
  proof (cases "Result d")
    case False
    from Cons.prems have "\<forall>pol\<in>set pols. \<forall>log. decides ctx pol log (Satisfy ctx pol log)" by simp
    from Cons.IH [OF this, of "derived @ [d]" "log @ new"] obtain b why ds new' where
      l: "or_loop ctx p pols ((derived @ [d])) (log @ new) =
            (Ok (Decision b why None p ((derived @ [d]) @ ds)), (log @ new) @ new')"
      and ds: "b = list_ex (holds ctx) pols" "list_all justified ds" "step_justified (OrPolicy n pols) b None ds"
      by blast
    have "step_justified (OrPolicy n (pol # pols)) b None (d # ds)"
      using ds(3) d False by (auto simp: step_justified_def split: if_splits)
    with l ds d False show ?thesis by (intro exI [of _ b] exI [of _ why] exI [of _ "d # ds"]) simp
  next
    case True
    with d show ?thesis by (auto intro!: exI [of _ "[d]"] simp: step_justified_def)
  qed
qed (auto simp: step_justified_def)

lemma xor_loop_decides:
  assumes "\<forall>pol\<in>set pols. \<forall>log. decides ctx pol log (Satisfy ctx pol log)"
  shows "\<exists>b why ds new. xor_loop ctx p pols derived k log = (Ok (Decision b why None p (derived @ ds)), log @ new) \<and>
           b = (k + length (filter (holds ctx) pols) = 1) \<and> list_all justified ds \<and>
           map Policy ds = pols \<and> length (filter Result ds) = length (filter (holds ctx) pols)"
  using assms
proof (induction pols arbitrary: derived k log)
  case (Cons pol pols)
  from Cons.prems have "decides ctx pol log (Satisfy ctx pol log)" by simp
  then obtain d new where d: "Satisfy ctx pol log = (Ok d, log @ new)" "Policy d = pol"
    "Result d = holds ctx pol" "justified d" by (rule decidesE)
  let ?k = "if Result d then k + 1 else k"
  from Cons.prems have "\<forall>pol\<in>set pols. \<forall>log. decides ctx pol log (Satisfy ctx pol log)" by simp
  from Cons.IH [OF this, of "derived @ [d]" ?k "log @ new"] obtain b why ds new' where
    l: "xor_loop ctx p pols ((derived @ [d])) ?k (log @ new) =
          (Ok (Decision b why None p ((derived @ [d]) @ ds)), (log @ new) @ new')"
    and ds: "b = (?k + length (filter (holds ctx) pols) = 1)" "list_all justified ds"
      "map Policy ds = pols" "length (filter Result ds) = length (filter (holds ctx) pols)"
    by blast
  from l ds d show ?case by (intro exI [of _ b] exI [of _ why] exI [of _ "d # ds"]) auto
qed simp

lemma Satisfy_decides:
  assumes "context_ok ctx"
  shows "decides ctx p log (Satisfy ctx p log)"
proof (induction p arbitrary: log)
  case (AttributePolicy n c orig nests g)
  show ?case using attribute_decides [OF assms] .
next
  case (AndPolicy n ps)
  then have "\<forall>pol\<in>set ps. \<forall>log. decides ctx pol log (Satisfy ctx pol log)" by simp
  from and_loop_decides [OF this, of "AndPolicy n ps" "[]" log n]
  show ?case unfolding Satisfy.simps decides_def by fastforce
next
  case (OrPolicy n ps)
  then have "\<forall>pol\<in>set ps. \<forall>log. decides ctx pol log (Satisfy ctx pol log)" by simp
  from or_loop_decides [OF this, of "OrPolicy n ps" "[]" log n]
  show ?case unfolding Satisfy.simps decides_def by fastforce
next
  case (XorPolicy n ps)
  then have "\<forall>pol\<in>set ps. \<forall>log. decides ctx pol log (Satisfy ctx pol log)" by simp
  from xor_loop_decides [OF this, of "XorPolicy n ps" "[]" 0 log] obtain b why ds new where
    "xor_loop ctx (XorPolicy n ps) ps [] 0 log = (Ok (Decision b why None (XorPolicy n ps) ds), log @ new)"
    "b = (length (filter (holds ctx) ps) = 1)" "list_all justified ds" "map Policy ds = ps"
    "length (filter Result ds) = length (filter (holds ctx) ps)" by auto
  then show ?case by (simp add: decides_def step_justified_def)
next
  case (NotPolicy n p)
  then have "decides ctx p log (Satisfy ctx p log)" by simp
  then obtain d new where "Satisfy ctx p log = (Ok d, log @ new)" "Policy d = p"
    "Result d = holds ctx p" "justified d" by (rule decidesE)
  then show ?case by (simp add: decides_def step_justified_def)
next
  case DefaultDenyPolicy
  show ?case by (simp add: decides_def step_justified_def)
qed

section \<open>The access controller\<close>

lemma allow_loop_decides:
  assumes "context_ok ctx"
  shows "\<exists>r new. allow_loop ctx ps log = (Ok r, log @ new) \<and>
           (if list_ex (holds ctx) ps then r = None
            else \<exists>why. r = Some (Decision True why None DefaultDenyPolicy []))"
proof (induction ps arbitrary: log)
  case Nil
  show ?case by (simp add: default_deny_def Let_def)
next
  case (Cons p ps)
  obtain d new where d: "Satisfy ctx p (log @ [RecordPolicyStart DecisionTypeAllow (policy_name p)]) =
      (Ok d, (log @ [RecordPolicyStart DecisionTypeAllow (policy_name p)]) @ new)"
    "Result d = holds ctx p"
    using Satisfy_decides [OF assms] by (metis decidesE)
  from Cons.IH [of "log @ RecordPolicyStart DecisionTypeAllow (policy_name p) # new @
      [RecordPolicyDecision DecisionTypeAllow d]"] d
  show ?case by (fastforce simp: Let_def)
qed

text \<open>The rule: the first deny policy that holds refuses, else an allow policy that holds grants.\<close>

definition access_rule :: "policy_context \<Rightarrow> policy list \<Rightarrow> policy list \<Rightarrow> decision option \<Rightarrow> bool" where
  "access_rule ctx deny allow r \<longleftrightarrow>
     (case find (holds ctx) deny of
        Some p \<Rightarrow> \<exists>d. r = Some d \<and> Policy d = p \<and> Result d \<and> justified d
      | None \<Rightarrow> if list_ex (holds ctx) allow then r = None
                else \<exists>why. r = Some (Decision True why None DefaultDenyPolicy []))"

lemma deny_loop_decides:
  assumes "context_ok ctx"
  shows "\<exists>r new. deny_loop ctx ps allow log = (Ok r, log @ new) \<and> access_rule ctx ps allow r"
proof (induction ps arbitrary: log)
  case Nil
  from allow_loop_decides [OF assms] show ?case by (simp add: access_rule_def)
next
  case (Cons p ps)
  obtain d new where d: "Satisfy ctx p (log @ [RecordPolicyStart DecisionTypeDeny (policy_name p)]) =
      (Ok d, (log @ [RecordPolicyStart DecisionTypeDeny (policy_name p)]) @ new)"
    "Result d = holds ctx p" "Policy d = p" "justified d"
    using Satisfy_decides [OF assms] by (metis decidesE)
  show ?case
  proof (cases "holds ctx p")
    case True
    with d show ?thesis by (simp add: Let_def access_rule_def)
  next
    case False
    then have "access_rule ctx (p # ps) allow r = access_rule ctx ps allow r" for r
      by (simp add: access_rule_def)
    with Cons.IH [of "log @ RecordPolicyStart DecisionTypeDeny (policy_name p) # new @
        [RecordPolicyDecision DecisionTypeDeny d]"] d False
    show ?thesis by (fastforce simp: Let_def)
  qed
qed

text \<open>The policies that govern a request: those of its resource and action.\<close>

definition governing_policies :: "policy_map \<Rightarrow> policy_context \<Rightarrow> policy_list option" where
  "governing_policies m ctx =
     (case (pc_resource ctx, pc_action ctx) of
        (Some resource, Some action) \<Rightarrow>
          (case map_of m (attr_name (pc_hierarchy ctx) resource) of
             None \<Rightarrow> None
           | Some rp \<Rightarrow> map_of rp (attr_name (pc_hierarchy ctx) action))
      | _ \<Rightarrow> None)"

lemma CanAccess_governed:
  "governing_policies m ctx = Some l \<Longrightarrow> CanAccess m ctx log = deny_loop ctx (Deny l) (Allow l) log"
  by (auto simp: CanAccess_def governing_policies_def split: option.splits)

lemma CanAccess_ungoverned:
  "governing_policies m ctx = None \<Longrightarrow> \<exists>why. CanAccess m ctx log = default_deny why log"
  by (auto simp: CanAccess_def governing_policies_def split: option.splits)

lemma find_holds: "find P xs = Some x \<Longrightarrow> x \<in> set xs \<and> P x"
  by (auto simp: find_Some_iff)

lemma access_rule_None:
  "access_rule ctx deny allow None \<longleftrightarrow> \<not> list_ex (holds ctx) deny \<and> list_ex (holds ctx) allow"
  by (auto simp: access_rule_def find_None_iff list_ex_iff split: option.split if_splits
      dest: find_holds)

text \<open>A request for the examples: an administrator applies a vip.\<close>

definition example_condition :: "condition \<Rightarrow> generic_condition" where
  "example_condition c = \<lparr>gc_Op = [], gc_Condition = Some c\<rparr>"

definition example_allow :: policy where
  "example_allow = NewAttributePolicy ''admins'' ''user'' ''roles''
     (example_condition (StringListContains (zero_variable ''admin'')))"

definition example_deny :: policy where
  "example_deny = NewAttributePolicy ''no-loopback'' ''action'' ''args.0''
     (example_condition (StringPrefix (zero_variable ''127.'')))"

definition example_unresolved :: policy where
  "example_unresolved = AttributePolicy ''quarantine'' ''user'' ''flags'' [''flags'']
     (example_condition (StringEquals (zero_variable ''quarantined'')))"

definition example_policy_map :: "policy list \<Rightarrow> policy list \<Rightarrow> policy_map" where
  "example_policy_map deny allow = [(''vip'', [(''apply'', \<lparr>Deny = deny, Allow = allow\<rparr>)])]"

lemma example_governed:
  "governing_policies (example_policy_map deny allow) example_context = Some \<lparr>Deny = deny, Allow = allow\<rparr>"
  by (simp add: governing_policies_def example_policy_map_def example_context_def)

lemmas example_eval = attribute_holds_def NewAttributePolicy_def example_condition_def
  generic_Compare_def Resolve_def context_of_def example_context_def NewUserContext_def
  NewAttributeManager_def compare_op_defs compare_unary_Ok read_value_def IsVariable_def
  zero_variable_def strings_type_def string_type_def

lemma example_allow_holds: "holds example_context example_allow"
  by (simp add: example_allow_def example_eval lookup_attribute_def)

lemma example_deny_not_holds: "\<not> holds example_context example_deny"
  by (simp add: example_deny_def example_eval NewAttribute_def HasPrefix_def ParseUint10_def is_digit_def
      decimal_value_def digit_value_def)

text \<open>
  C2. Deny overrides, default deny: the access controller always answers (no policy
  panics), grants a request exactly when the request names a resource and an action with a
  policy list none of whose deny policies holds and one of whose allow policies holds, and
  reports, when it refuses, either the first deny policy that holds, with a justified decision,
  or the default denial. The records it makes are appended to the audit.
\<close>

theorem CanAccess_correct:
  assumes "context_ok ctx"
  shows "\<exists>r new. CanAccess m ctx log = (Ok r, log @ new) \<and>
    (r = None \<longleftrightarrow> (\<exists>l. governing_policies m ctx = Some l \<and>
       \<not> list_ex (holds ctx) (Deny l) \<and> list_ex (holds ctx) (Allow l))) \<and>
    (\<forall>d. r = Some d \<longrightarrow> IsDefaultDenyError r \<or> (\<exists>l. governing_policies m ctx = Some l \<and>
       find (holds ctx) (Deny l) = Some (Policy d) \<and> Result d \<and> justified d))"
proof (cases "governing_policies m ctx")
  case None
  from CanAccess_ungoverned [OF None, of log] show ?thesis
    by (auto simp: default_deny_def Let_def IsDefaultDenyError_def None)
next
  case (Some l)
  from deny_loop_decides [OF assms, of "Deny l" "Allow l" log] obtain r new where
    r: "CanAccess m ctx log = (Ok r, log @ new)" "access_rule ctx (Deny l) (Allow l) r"
    unfolding CanAccess_governed [OF Some] by blast
  have "IsDefaultDenyError r \<or> find (holds ctx) (Deny l) = Some (Policy d) \<and> Result d \<and> justified d"
    if "r = Some d" for d
    using r(2) that by (auto simp: access_rule_def IsDefaultDenyError_def split: option.splits if_splits)
  moreover have "r = None \<longleftrightarrow> \<not> list_ex (holds ctx) (Deny l) \<and> list_ex (holds ctx) (Allow l)"
  proof (cases r)
    case None
    with r(2) show ?thesis by (simp add: access_rule_None)
  next
    case (Some d)
    with r(2) show ?thesis
      by (auto simp: access_rule_def find_None_iff list_ex_iff split: option.splits if_splits
          dest: find_holds)
  qed
  ultimately show ?thesis using r(1) Some by auto
qed

theorem CanAccess_correct_witness:
  "context_ok example_context \<and>
   fst (CanAccess (example_policy_map [example_deny] [example_allow]) example_context []) = Ok None \<and>
   IsDefaultDenyError (case fst (CanAccess (example_policy_map [] [example_deny]) example_context []) of
     Ok r \<Rightarrow> r | _ \<Rightarrow> None)"
proof -
  from CanAccess_correct [OF example_context_ok, of "example_policy_map [example_deny] [example_allow]" "[]"]
  have "fst (CanAccess (example_policy_map [example_deny] [example_allow]) example_context []) = Ok None"
    using example_allow_holds example_deny_not_holds by (auto simp: example_governed)
  moreover from CanAccess_correct [OF example_context_ok, of "example_policy_map [] [example_deny]" "[]"]
  have "IsDefaultDenyError (case fst (CanAccess (example_policy_map [] [example_deny]) example_context []) of
     Ok r \<Rightarrow> r | _ \<Rightarrow> None)"
    using example_deny_not_holds by (auto simp: example_governed)
  ultimately show ?thesis using example_context_ok by blast
qed

text \<open>
  C3. A policy means what its connectives say: over a well-formed context every policy is
  decided without panicking; the result is the boolean combination its connectives denote, an
  attribute condition that cannot be resolved or compared counting as unsatisfied; and the
  decision justifies itself at every level, listing, for a set of policies, exactly the
  decisions of the children visited up to the one that settled it.
\<close>

theorem Satisfy_correct:
  assumes "context_ok ctx"
  shows "\<exists>d new. Satisfy ctx p log = (Ok d, log @ new) \<and> Policy d = p \<and>
           Result d = holds ctx p \<and> justified d"
  using Satisfy_decides [OF assms] unfolding decides_def .

theorem Satisfy_correct_witness:
  "context_ok example_context \<and>
   (\<exists>d new. Satisfy example_context (XorPolicy ''one'' [example_deny, example_allow]) [] = (Ok d, new) \<and>
      Result d \<and> map Policy (Derived d) = [example_deny, example_allow])"
proof -
  from Satisfy_correct [OF example_context_ok, of "XorPolicy ''one'' [example_deny, example_allow]" "[]"]
  obtain d new where "Satisfy example_context (XorPolicy ''one'' [example_deny, example_allow]) [] = (Ok d, new)"
    "Policy d = XorPolicy ''one'' [example_deny, example_allow]" "justified d"
    "Result d = holds example_context (XorPolicy ''one'' [example_deny, example_allow])" by auto
  with example_allow_holds example_deny_not_holds example_context_ok show ?thesis
    by (cases d) (simp add: step_justified_def)
qed

text \<open>
  C10. A negated condition fails open: where the attribute of a condition cannot be
  resolved, or its comparison reports an error, the condition is unsatisfied and its negation
  satisfied, so an allow policy consisting of the negation grants the request.
\<close>

theorem negation_fails_open:
  assumes "context_ok ctx" "governing_policies m ctx = Some \<lparr>Deny = [], Allow = [NotPolicy n p]\<rparr>"
    and "p = AttributePolicy name c orig nests g"
    and "Resolve c nests ctx = Err e \<or>
      (\<exists>v e'. Resolve c nests ctx = Ok v \<and> fst (generic_Compare g (new_resolver ctx name) v) = Err e')"
  shows "fst (CanAccess m ctx log) = Ok None"
proof -
  have "\<not> holds ctx p" using assms(3,4) by (auto simp: attribute_holds_def)
  then have "access_rule ctx [] [NotPolicy n p] r \<Longrightarrow> r = None" for r
    by (simp add: access_rule_def)
  with deny_loop_decides [OF assms(1), of "[]" "[NotPolicy n p]" log] show ?thesis
    unfolding CanAccess_governed [OF assms(2)] by auto
qed

theorem negation_fails_open_witness:
  "fst (CanAccess (example_policy_map [] [NotPolicy ''clean'' example_unresolved]) example_context []) = Ok None"
  by (rule negation_fails_open [OF example_context_ok example_governed example_unresolved_def, of "AttributeNotFound [''flags'']"])
    (simp add: Resolve_def context_of_def example_context_def NewUserContext_def NewAttributeManager_def
      lookup_attribute_def)

end
