(* ===== verification/Policy_Parser.thy ===== *)
theory Policy_Parser
  imports Policies
begin

text \<open>
  The recursive-descent parser of the policy language, \<open>access/policy/parser.go\<close>. The state
  of a \<open>Parser\<close> is its unread input (\<open>data[pos:]\<close>); every error ends the parse, so the position
  an error leaves behind is not modelled. \<open>ParsePrimitive\<close> and \<open>ParsePolicy\<close> recurse through
  brackets and parentheses: they take fuel for the nesting depth, and the loops take fuel for
  their iterations; \<open>OutOfFuel\<close> is an error of the model that \<open>Policy_Parser_Laws\<close> shows
  unreachable at the fuel \<open>ParsePrimitive\<close> and \<open>ParsePolicy\<close> start with.
\<close>

datatype parse_error =
    ErrParseString
  | UnquoteFailed
  | NumericError string
  | IdentifierError string
  | ExpectedBracket
  | NotPrimitive
  | NotSinglePrimitive
  | NotVariable
  | ConditionError cond_error
  | InvalidTarget string
  | InvalidContext string
  | ExpectedParen
  | OutOfFuel

type_synonym 'a parser = "string \<Rightarrow> (parse_error, 'a \<times> string) outcome"

section \<open>Tokens\<close>

definition Expect :: "string \<Rightarrow> string \<Rightarrow> string option" where
  "Expect expected s = (if HasPrefix s expected then Some (drop (length expected) s) else None)"

definition Match :: "string \<Rightarrow> string \<Rightarrow> bool" where
  "Match expected s \<longleftrightarrow> Expect expected s \<noteq> None"

text \<open>A chain \<open>p.Expect(a) || p.Expect(b) || ...\<close>; the token found is \<open>prevExpected\<close>.\<close>

fun ExpectOneOf :: "string list \<Rightarrow> string \<Rightarrow> (string \<times> string) option" where
  "ExpectOneOf [] s = None"
| "ExpectOneOf (t # ts) s =
     (case Expect t s of Some r \<Rightarrow> Some (t, r) | None \<Rightarrow> ExpectOneOf ts s)"

definition is_space :: "char \<Rightarrow> bool" where
  "is_space c \<longleftrightarrow> c = CHR '' '' \<or> c = CHR 0x09 \<or> c = CHR 0x0A \<or> c = CHR 0x0D"

definition SkipWhitespace :: "string \<Rightarrow> string" where
  "SkipWhitespace s = dropWhile is_space s"

text \<open>The loop of \<open>ParseString\<close>: a backslash skips the byte after it.\<close>

fun skip_string :: "char \<Rightarrow> string \<Rightarrow> string" where
  "skip_string q [] = []"
| "skip_string q (c # s) =
     (if c = q then c # s
      else if c = CHR 0x5C then (case s of [] \<Rightarrow> [] | _ # s' \<Rightarrow> skip_string q s')
      else skip_string q s)"

definition Parser_ParseString :: "char \<Rightarrow> string parser" where
  "Parser_ParseString q s =
     (case Expect [q] s of
        None \<Rightarrow> Err ErrParseString
      | Some body \<Rightarrow>
          (case Expect [q] (skip_string q body) of
             None \<Rightarrow> Err ErrParseString
           | Some rest \<Rightarrow>
               let str = take (length s - length rest) s in
               (case Unquote str of None \<Rightarrow> Err UnquoteFailed | Some _ \<Rightarrow> Ok (str, rest))))"

section \<open>Numbers\<close>

definition hex_range :: "char \<Rightarrow> bool" where
  "hex_range c \<longleftrightarrow> is_digit c \<or> (97 \<le> (of_char c :: nat) \<and> (of_char c :: nat) \<le> 102) \<or>
     (65 \<le> (of_char c :: nat) \<and> (of_char c :: nat) \<le> 70)"

definition binary_range :: "char \<Rightarrow> bool" where
  "binary_range c \<longleftrightarrow> c = CHR ''0'' \<or> c = CHR ''1''"

definition octal_range :: "char \<Rightarrow> bool" where
  "octal_range c \<longleftrightarrow> is_digit c \<and> digit_value c \<le> 7"

text \<open>The prefix of a number: the digits that may follow, whether it may be a float, and
  whether a digit is now required.\<close>

definition numeric_prefix :: "bool \<Rightarrow> string \<Rightarrow> (char \<Rightarrow> bool) \<times> bool \<times> bool \<times> string" where
  "numeric_prefix hasSign s =
     (case ExpectOneOf [''0x'', ''0X''] s of
        Some (_, r) \<Rightarrow> (hex_range, False, True, r)
      | None \<Rightarrow>
          (case ExpectOneOf [''0b'', ''0B''] s of
             Some (_, r) \<Rightarrow> (binary_range, False, True, r)
           | None \<Rightarrow>
               (case ExpectOneOf [''0o'', ''0O''] s of
                  Some (_, r) \<Rightarrow> (octal_range, False, True, r)
                | None \<Rightarrow> (is_digit, True, hasSign, s))))"

text \<open>The exponent after the fraction.\<close>

definition numeric_exponent :: "string \<Rightarrow> (parse_error, string) outcome" where
  "numeric_exponent s =
     (case ExpectOneOf [''e'', ''E''] s of
        None \<Rightarrow> Ok s
      | Some (_, r) \<Rightarrow>
          let r' = (case ExpectOneOf [''-'', ''+''] r of Some (_, r') \<Rightarrow> r' | None \<Rightarrow> r);
              r'' = dropWhile is_digit r'
          in if r'' = r' then Err (NumericError ''invalid numeric format in exponent'') else Ok r'')"

text \<open>The fraction after the digits, up to \<open>s3\<close>, of a number that may be a float.\<close>

definition numeric_fraction :: "bool \<Rightarrow> string \<Rightarrow> (parse_error, string) outcome" where
  "numeric_fraction omitedZero s3 =
     (case Expect ''.'' s3 of
        None \<Rightarrow> Ok s3
      | Some s4 \<Rightarrow>
          let s5 = dropWhile is_digit s4 in
          if omitedZero \<and> s5 = s4 then Err (NumericError ''invalid numeric format'')
          else numeric_exponent s5)"

text \<open>What follows the sign; \<open>s3 = s2\<close> says that no digit was read.\<close>

definition numeric_unsigned :: "bool \<Rightarrow> string \<Rightarrow> (parse_error, string) outcome" where
  "numeric_unsigned hasSign s1 =
     (case numeric_prefix hasSign s1 of (radixRange, maybeFloat, required, s2) \<Rightarrow>
        let s3 = dropWhile radixRange s2 in
        if required \<and> s3 = s2
        then Err (NumericError ''unexpected end of input while parsing numeric'')
        else if maybeFloat then numeric_fraction (s3 = s1) s3
        else Ok s3)"

definition ParseNumeric :: "string parser" where
  "ParseNumeric s =
     bind_outcome
       (case ExpectOneOf [''-'', ''+''] s of
          Some (_, s1) \<Rightarrow> numeric_unsigned True s1
        | None \<Rightarrow> numeric_unsigned False s)
       (\<lambda>rest. Ok (take (length s - length rest) s, rest))"

section \<open>Identifiers\<close>

definition is_letter :: "char \<Rightarrow> bool" where
  "is_letter c \<longleftrightarrow> (97 \<le> (of_char c :: nat) \<and> (of_char c :: nat) \<le> 122) \<or>
     (65 \<le> (of_char c :: nat) \<and> (of_char c :: nat) \<le> 90) \<or> c = CHR ''_''"

text \<open>
  The loop of \<open>ParseIdentifier\<close>. As in the source, \<open>requireMore\<close> is set by a dot and
  cleared at the end of the same iteration.
\<close>

fun identifier_loop :: "bool \<Rightarrow> string \<Rightarrow> (parse_error, bool \<times> string) outcome" where
  "identifier_loop requireMore [] = Ok (requireMore, [])"
| "identifier_loop requireMore (c # s) =
     (if is_letter c \<or> is_digit c then identifier_loop False s
      else if c = CHR ''.'' then
        if requireMore then Err (IdentifierError ''unexpected twice dot in identifier'')
        else let requireMore = True; requireMore = False in identifier_loop requireMore s
      else Ok (requireMore, c # s))"

definition ParseIdentifier :: "bool \<Rightarrow> string parser" where
  "ParseIdentifier includeDollar s =
     (case s of
        [] \<Rightarrow> Err (IdentifierError ''unexpected end of input while parsing identifier'')
      | c # t \<Rightarrow>
          if includeDollar \<and> c = CHR ''$'' \<and> t = []
          then Err (IdentifierError ''unexpected end of input after dollar'')
          else
            let (c, t) = (if includeDollar \<and> c = CHR ''$'' then (hd t, tl t) else (c, t)) in
            if \<not> is_letter c then Err (IdentifierError ''invalid start of identifier'')
            else bind_outcome (identifier_loop False t)
                   (\<lambda>(requireMore, rest).
                      if requireMore then Err (IdentifierError ''identifier cannot end with dot'')
                      else Ok (take (length s - length rest) s, rest)))"

section \<open>Primitives and brackets\<close>

definition wrapList :: "(parse_error, string \<times> string) outcome \<Rightarrow> (parse_error, string list \<times> string) outcome" where
  "wrapList r = bind_outcome r (\<lambda>(v, rest). Ok ([v], rest))"

fun brackets_loop :: "nat \<Rightarrow> string list parser \<Rightarrow> string list \<Rightarrow> string list parser" where
  "brackets_loop 0 primitive results s = Err OutOfFuel"
| "brackets_loop (Suc n) primitive results s =
     (let s1 = SkipWhitespace s in
      case Expect '']'' s1 of
        Some r \<Rightarrow> Ok (results, r)
      | None \<Rightarrow>
          bind_outcome (primitive s1)
            (\<lambda>(vals, s2).
               let s3 = SkipWhitespace s2 in
               brackets_loop n primitive (results @ vals)
                 (case Expect '','' s3 of Some s4 \<Rightarrow> s4 | None \<Rightarrow> s3)))"

definition ParseBrackets :: "string list parser \<Rightarrow> string list parser" where
  "ParseBrackets primitive s =
     (case Expect ''['' s of
        None \<Rightarrow> Err ExpectedBracket
      | Some r \<Rightarrow> brackets_loop (Suc (length r)) primitive [] r)"

fun ParsePrimitive_fuel :: "nat \<Rightarrow> string list parser" where
  "ParsePrimitive_fuel 0 s = Err OutOfFuel"
| "ParsePrimitive_fuel (Suc n) s =
     (if Match [CHR 0x22] s then wrapList (Parser_ParseString (CHR 0x22) s)
      else if Match [CHR 0x60] s then wrapList (Parser_ParseString (CHR 0x60) s)
      else if Match ''-'' s \<or> (s \<noteq> [] \<and> is_digit (hd s)) then wrapList (ParseNumeric s)
      else if Match ''$'' s then wrapList (ParseIdentifier True s)
      else if Match ''['' s then ParseBrackets (ParsePrimitive_fuel n) s
      else Err NotPrimitive)"

definition ParsePrimitive :: "string list parser" where
  "ParsePrimitive s = ParsePrimitive_fuel (Suc (length s)) s"

section \<open>Operators\<close>

definition has_base_prefix :: "string \<Rightarrow> bool" where
  "has_base_prefix s \<longleftrightarrow>
     list_ex (HasPrefix s) [''0x'', ''0X'', ''0b'', ''0B'', ''0o'', ''0O'']"

text \<open>After a sign alone, \<open>s[0]\<close> is out of range.\<close>

definition isNumericFloat :: "string \<Rightarrow> (parse_error, bool) outcome" where
  "isNumericFloat s0 =
     (if has_base_prefix s0 then Ok False
      else if s0 = [] then Ok False
      else
        let s = (if hd s0 = CHR ''-'' \<or> hd s0 = CHR ''+'' then tl s0 else s0) in
        if s = [] then Panic
        else if hd s = CHR ''.'' then Ok True
        else if \<not> is_digit (hd s) then Ok False
        else Ok (list_ex (\<lambda>c. c = CHR ''.'' \<or> c = CHR ''e'' \<or> c = CHR ''E'') s))"

definition isIntegerLike :: "string \<Rightarrow> bool" where
  "isIntegerLike s \<longleftrightarrow> has_base_prefix s \<or> ParseInt0 s \<noteq> None"

text \<open>The operator a generic one stands for, by the literal it is applied to.\<close>

definition numeric_op :: "string \<Rightarrow> string \<Rightarrow> string \<Rightarrow> (parse_error, string) outcome" where
  "numeric_op numOp intOp t = bind_outcome (isNumericFloat t) (\<lambda>b. Ok (if b then numOp else intOp))"

definition equality_op :: "string \<Rightarrow> string \<Rightarrow> string \<Rightarrow> string \<Rightarrow> (parse_error, string) outcome" where
  "equality_op numOp intOp strOp t =
     bind_outcome (isNumericFloat t)
       (\<lambda>b. Ok (if b then numOp else if isIntegerLike t then intOp else strOp))"

definition mangleOp :: "string \<Rightarrow> string list \<Rightarrow> (parse_error, string) outcome" where
  "mangleOp op target =
     (if length target \<noteq> 1 then Ok op
      else
        let t = hd target in
        if op = ''=='' then equality_op ''num_eq'' ''int_eq'' ''str_eq'' t
        else if op = ''!='' then equality_op ''num_neq'' ''int_neq'' ''str_neq'' t
        else if op = ''<'' then numeric_op ''num_lt'' ''int_lt'' t
        else if op = ''<='' then numeric_op ''num_lte'' ''int_lte'' t
        else if op = ''>'' then numeric_op ''num_gt'' ''int_gt'' t
        else if op = ''>='' then numeric_op ''num_gte'' ''int_gte'' t
        else Ok op)"

section \<open>Conditions and policies\<close>

definition ParseOperator :: "string parser" where
  "ParseOperator s =
     (case ExpectOneOf [''=='', ''!='', ''<='', ''>='', ''<'', ''>''] s of
        Some (op, r) \<Rightarrow> Ok (op, r)
      | None \<Rightarrow> ParseIdentifier False s)"

definition ParseSingleCondition :: "(string \<times> generic_condition) parser" where
  "ParseSingleCondition s =
     bind_outcome (ParsePrimitive (SkipWhitespace s)) (\<lambda>(primitive, s1).
       if length primitive \<noteq> 1 then Err NotSinglePrimitive
       else if hd primitive = [] \<or> hd (hd primitive) \<noteq> CHR ''$'' then Err NotVariable
       else
         bind_outcome (ParseOperator (SkipWhitespace s1)) (\<lambda>(strOp, s2).
           bind_outcome (ParsePrimitive (SkipWhitespace s2)) (\<lambda>(target, s3).
             bind_outcome (mangleOp strOp target) (\<lambda>op.
               bind_outcome (map_error ConditionError (generic_Parse (op # target))) (\<lambda>g.
                 Ok ((tl (hd primitive), g), s3))))))"

definition ParsePureAttributePolicy :: "string \<Rightarrow> policy parser" where
  "ParsePureAttributePolicy name s =
     bind_outcome (ParseSingleCondition s) (\<lambda>((target, cond), rest).
       (case SplitN2 (CHR ''.'') target of
          [contextName, attribute] \<Rightarrow>
            if contextName \<noteq> ''user'' \<and> contextName \<noteq> ''resource'' \<and> contextName \<noteq> ''env'' \<and>
               contextName \<noteq> ''action''
            then Err (InvalidContext contextName)
            else Ok (NewAttributePolicy name contextName attribute cond, rest)
        | _ \<Rightarrow> Err (InvalidTarget target)))"

definition child_name :: "string \<Rightarrow> string" where
  "child_name name = ''(child of '' @ name @ '')''"

fun mangleNameOfChild :: "policy \<Rightarrow> policy" where
  "mangleNameOfChild (AndPolicy name ps) = AndPolicy (child_name name) ps"
| "mangleNameOfChild (OrPolicy name ps) = OrPolicy (child_name name) ps"
| "mangleNameOfChild (XorPolicy name ps) = XorPolicy (child_name name) ps"
| "mangleNameOfChild (AttributePolicy name c orig nests cmp) =
     AttributePolicy (child_name name) c orig nests cmp"
| "mangleNameOfChild p = p"

definition mangleNameOfChildren :: "policy list \<Rightarrow> policy list" where
  "mangleNameOfChildren pol = List.map mangleNameOfChild pol"

definition ParsePrimitivePolicy :: "(string \<Rightarrow> policy parser) \<Rightarrow> string \<Rightarrow> policy parser" where
  "ParsePrimitivePolicy parsePolicy name s =
     (case Expect ''('' s of
        Some s1 \<Rightarrow>
          bind_outcome (parsePolicy name s1) (\<lambda>(pol, s2).
            (case Expect '')'' (SkipWhitespace s2) of
               None \<Rightarrow> Err ExpectedParen
             | Some s3 \<Rightarrow> Ok (pol, s3)))
      | None \<Rightarrow> ParsePureAttributePolicy name s)"

definition ParseNotPolicy :: "(string \<Rightarrow> policy parser) \<Rightarrow> string \<Rightarrow> policy parser" where
  "ParseNotPolicy parsePolicy name s =
     (let s1 = SkipWhitespace s in
      case ExpectOneOf [''not'', ''!''] s1 of
        Some (_, s2) \<Rightarrow>
          bind_outcome (ParsePrimitivePolicy parsePolicy name (SkipWhitespace s2))
            (\<lambda>(primitive, rest). Ok (NotPolicy name primitive, rest))
      | None \<Rightarrow> ParsePrimitivePolicy parsePolicy name s1)"

text \<open>
  The shape of \<open>ParseAndPolicy\<close>, \<open>ParseOrPolicy\<close> and \<open>ParseXorPolicy\<close>: one element, then an
  element after each separator; a single element stands for itself.
\<close>

fun chain_loop :: "nat \<Rightarrow> string list \<Rightarrow> policy parser \<Rightarrow> policy list \<Rightarrow> policy list parser" where
  "chain_loop 0 seps element policies s = Err OutOfFuel"
| "chain_loop (Suc n) seps element policies s =
     (case ExpectOneOf seps s of
        None \<Rightarrow> Ok (policies, s)
      | Some (_, s1) \<Rightarrow>
          bind_outcome (element (SkipWhitespace s1)) (\<lambda>(a, s2).
            chain_loop n seps element (policies @ [a]) (SkipWhitespace s2)))"

definition ParseChain ::
    "string list \<Rightarrow> (policy list \<Rightarrow> policy) \<Rightarrow> policy parser \<Rightarrow> policy parser" where
  "ParseChain seps build element s =
     bind_outcome (element s) (\<lambda>(a, s1).
       let s2 = SkipWhitespace s1 in
       bind_outcome (chain_loop (Suc (length s2)) seps element [a] s2) (\<lambda>(policies, rest).
         if length policies = 1 then Ok (hd policies, rest)
         else Ok (build (mangleNameOfChildren policies), rest)))"

definition ParseAndPolicy :: "(string \<Rightarrow> policy parser) \<Rightarrow> string \<Rightarrow> policy parser" where
  "ParseAndPolicy parsePolicy name =
     ParseChain [''and'', ''&&''] (AndPolicy name) (ParseNotPolicy parsePolicy name)"

definition ParseOrPolicy :: "(string \<Rightarrow> policy parser) \<Rightarrow> string \<Rightarrow> policy parser" where
  "ParseOrPolicy parsePolicy name =
     ParseChain [''or'', ''||''] (OrPolicy name) (ParseAndPolicy parsePolicy name)"

definition ParseXorPolicy :: "(string \<Rightarrow> policy parser) \<Rightarrow> string \<Rightarrow> policy parser" where
  "ParseXorPolicy parsePolicy name =
     ParseChain [''xor''] (XorPolicy name) (ParseOrPolicy parsePolicy name)"

primrec ParsePolicy_fuel :: "nat \<Rightarrow> string \<Rightarrow> policy parser" where
  "ParsePolicy_fuel 0 = (\<lambda>name s. Err OutOfFuel)"
| "ParsePolicy_fuel (Suc n) =
     (\<lambda>name s. ParseXorPolicy (ParsePolicy_fuel n) name (SkipWhitespace s))"

definition ParsePolicy :: "string \<Rightarrow> policy parser" where
  "ParsePolicy name s = ParsePolicy_fuel (Suc (length s)) name s"

text \<open>The two \<open>Must\<close> functions panic on an error; neither looks at the input left over.\<close>

definition MustParseAttributePolicy :: "string \<Rightarrow> string \<Rightarrow> (unit, policy) outcome" where
  "MustParseAttributePolicy name input =
     (case ParsePureAttributePolicy name input of Ok (pol, rest) \<Rightarrow> Ok pol | _ \<Rightarrow> Panic)"

definition MustParsePolicy :: "string \<Rightarrow> string \<Rightarrow> (unit, policy) outcome" where
  "MustParsePolicy name input =
     (case ParsePolicy name input of Ok (pol, rest) \<Rightarrow> Ok pol | _ \<Rightarrow> Panic)"

end
