(* ===== verification/Policy_Parser_Laws.thy ===== *)
theory Policy_Parser_Laws
  imports Policy_Parser
begin

text \<open>
  Laws of the policy parser: every parse ends, with a policy or an error, within the fuel it
  starts with and without panicking.
\<close>

section \<open>Consumption\<close>

text \<open>
  The contract of every parser of the file: it returns less input than it was given, or an error
  other than \<open>OutOfFuel\<close>, and does not panic.
\<close>

definition consumes :: "string \<Rightarrow> (parse_error, 'a \<times> string) outcome \<Rightarrow> bool" where
  "consumes s r \<longleftrightarrow>
     (case r of Ok (a, rest) \<Rightarrow> length rest < length s | Err e \<Rightarrow> e \<noteq> OutOfFuel | Panic \<Rightarrow> False)"

lemma consumes_simps [simp]:
  "consumes s (Ok (a, rest)) \<longleftrightarrow> length rest < length s"
  "consumes s (Err e) \<longleftrightarrow> e \<noteq> OutOfFuel"
  "\<not> consumes s Panic"
  by (simp_all add: consumes_def)

lemma consumes_cases:
  assumes "consumes s r"
  obtains a rest where "r = Ok (a, rest)" "length rest < length s" | e where "r = Err e" "e \<noteq> OutOfFuel"
  using assms by (cases r) auto

lemma consumes_mono: "consumes s r \<Longrightarrow> length s \<le> length t \<Longrightarrow> consumes t r"
  by (cases r) (auto simp: consumes_def)

lemma consumes_bind:
  assumes "consumes s r" "\<And>a rest. r = Ok (a, rest) \<Longrightarrow> length rest < length s \<Longrightarrow> consumes s (f (a, rest))"
  shows "consumes s (bind_outcome r f)"
  using assms(1) by (rule consumes_cases) (use assms(2) in auto)

lemma Expect_Some: "Expect e s = Some r \<longleftrightarrow> s = e @ r"
  by (auto simp: Expect_def HasPrefix_def prefix_def)

lemma Expect_append [simp]: "Expect e (e @ r) = Some r"
  by (simp add: Expect_Some)

lemma Match_iff: "Match e s \<longleftrightarrow> (\<exists>r. s = e @ r)"
  by (simp add: Match_def Expect_Some)

lemma ExpectOneOf_Some: "ExpectOneOf ts s = Some (t, r) \<Longrightarrow> t \<in> set ts \<and> s = t @ r"
  by (induction ts) (auto simp: Expect_Some split: option.splits)

lemma ExpectOneOf_shorter:
  "ExpectOneOf ts s = Some (t, r) \<Longrightarrow> [] \<notin> set ts \<Longrightarrow> length r < length s"
  using ExpectOneOf_Some [of ts s t r] by (cases t) auto

lemma length_SkipWhitespace: "length (SkipWhitespace s) \<le> length s"
  by (simp add: SkipWhitespace_def length_dropWhile_le)

lemma length_skip_string: "length (skip_string q s) \<le> length s"
  by (induction q s rule: skip_string.induct) (auto simp: le_SucI split: list.split)

section \<open>Literals\<close>

text \<open>No literal is a sign alone, on which \<open>isNumericFloat\<close> would panic.\<close>

definition literal_ok :: "string \<Rightarrow> bool" where
  "literal_ok v \<longleftrightarrow> v \<noteq> ''-'' \<and> v \<noteq> ''+''"

lemma digit_literal: "is_digit (hd v) \<Longrightarrow> literal_ok v"
  by (auto simp: literal_ok_def is_digit_def)

lemma isNumericFloat_no_Panic:
  assumes "literal_ok v"
  shows "\<exists>b. isNumericFloat v = Ok b"
proof -
  define w where "w = (if hd v = CHR ''-'' \<or> hd v = CHR ''+'' then tl v else v)"
  have ne: "v \<noteq> [] \<Longrightarrow> w \<noteq> []"
    using assms unfolding w_def by (cases v; cases "tl v") (auto simp: literal_ok_def)
  from ne have "isNumericFloat v \<noteq> Panic \<and> (\<forall>e. isNumericFloat v \<noteq> Err e)"
    unfolding isNumericFloat_def w_def [symmetric] Let_def by (cases "v = []") simp_all
  then show ?thesis by (cases "isNumericFloat v") simp_all
qed

lemma ParseString_consumes:
  assumes "q \<noteq> CHR ''-''" "q \<noteq> CHR ''+''"
  shows "consumes s (Parser_ParseString q s) \<and>
    (\<forall>v rest. Parser_ParseString q s = Ok (v, rest) \<longrightarrow> literal_ok v)"
proof (cases "Expect [q] s")
  case (Some body)
  then have s: "s = q # body" by (simp add: Expect_Some)
  show ?thesis
  proof (cases "Expect [q] (skip_string q body)")
    case (Some rest)
    then have "length rest < length body"
      using length_skip_string [of q body] by (simp add: Expect_Some)
    with s assms \<open>Expect [q] s = Some body\<close> Some show ?thesis
      by (auto simp: Parser_ParseString_def Let_def literal_ok_def take_Cons' split: option.splits)
  qed (simp add: Parser_ParseString_def \<open>Expect [q] s = Some body\<close>)
qed (simp add: Parser_ParseString_def)

lemma numeric_exponent_length:
  assumes "numeric_exponent s = Ok r"
  shows "length r \<le> length s"
proof (cases "ExpectOneOf [''e'', ''E''] s")
  case None
  with assms show ?thesis by (simp add: numeric_exponent_def del: ExpectOneOf.simps)
next
  case (Some p)
  obtain t r1 where p: "p = (t, r1)" by fastforce
  define r2 where "r2 = (case ExpectOneOf [''-'', ''+''] r1 of Some (_, r') \<Rightarrow> r' | None \<Rightarrow> r1)"
  have "length r1 \<le> length s" using ExpectOneOf_shorter [OF Some [unfolded p]] by simp
  moreover have "length r2 \<le> length r1"
    using ExpectOneOf_shorter [of "[''-'', ''+'']" r1] unfolding r2_def
    by (cases "ExpectOneOf [''-'', ''+''] r1") (auto simp del: ExpectOneOf.simps intro: less_imp_le)
  moreover have "r = dropWhile is_digit r2"
    using assms unfolding numeric_exponent_def Some p
    by (simp add: r2_def [symmetric] Let_def del: ExpectOneOf.simps split: if_splits)
  ultimately show ?thesis using length_dropWhile_le [of is_digit r2] by simp
qed

lemma numeric_exponent_error: "numeric_exponent s \<noteq> Panic \<and> numeric_exponent s \<noteq> Err OutOfFuel"
  by (simp add: numeric_exponent_def Let_def split: option.split)

lemma dropWhile_shorter:
  assumes "dropWhile P s \<noteq> s"
  shows "length (dropWhile P s) < length s"
proof (cases s)
  case (Cons a t)
  with assms have "P a" by (cases "P a") simp_all
  then show ?thesis using length_dropWhile_le [of P t] by (simp add: Cons)
qed (use assms in simp)

lemma numeric_prefix_cases:
  assumes "numeric_prefix hasSign s1 = (radix, f, required, s2)"
  shows "(radix = is_digit \<and> required = hasSign \<and> s2 = s1) \<or> length s2 < length s1"
  using assms
  by (auto simp: numeric_prefix_def Expect_Some split: option.splits)

lemma numeric_prefix_digits:
  assumes "numeric_prefix hasSign s1 = (radix, f, required, s2)"
    and "\<not> (required \<and> dropWhile radix s2 = s2)" "hasSign \<or> (s1 \<noteq> [] \<and> is_digit (hd s1))"
  shows "length (dropWhile radix s2) < length s1"
proof (rule disjE [OF numeric_prefix_cases [OF assms(1)]])
  assume a: "radix = is_digit \<and> required = hasSign \<and> s2 = s1"
  have "dropWhile is_digit s1 \<noteq> s1" if "s1 \<noteq> []" "is_digit (hd s1)"
    using that length_dropWhile_le [of is_digit "tl s1"] by (cases s1) (auto dest: arg_cong [of _ _ length])
  with a assms(2,3) have "dropWhile is_digit s1 \<noteq> s1" by blast
  with a show ?thesis by (simp add: dropWhile_shorter)
next
  assume "length s2 < length s1"
  then show ?thesis using length_dropWhile_le [of radix s2] by linarith
qed

lemma numeric_fraction_length:
  "numeric_fraction z s3 = Ok rest \<Longrightarrow> length rest \<le> length s3"
  using numeric_exponent_length length_dropWhile_le [of is_digit]
  by (fastforce simp: numeric_fraction_def Let_def Expect_Some split: option.splits if_splits
      intro: le_trans)

lemma numeric_fraction_error: "numeric_fraction z s3 \<noteq> Panic \<and> numeric_fraction z s3 \<noteq> Err OutOfFuel"
  using numeric_exponent_error by (simp add: numeric_fraction_def Let_def split: option.split)

lemma numeric_unsigned_length:
  assumes "numeric_unsigned hasSign s1 = Ok rest" "hasSign \<or> (s1 \<noteq> [] \<and> is_digit (hd s1))"
  shows "length rest < length s1"
proof -
  obtain radix f required s2 where pre: "numeric_prefix hasSign s1 = (radix, f, required, s2)"
    by (metis prod_cases4)
  with assms(1) have "\<not> (required \<and> dropWhile radix s2 = s2)"
    and r: "numeric_fraction (dropWhile radix s2 = s1) (dropWhile radix s2) = Ok rest \<or> rest = dropWhile radix s2"
    by (auto simp: numeric_unsigned_def Let_def split: if_splits)
  with pre assms(2) have "length (dropWhile radix s2) < length s1" by (blast intro: numeric_prefix_digits)
  with r numeric_fraction_length show ?thesis by fastforce
qed

lemma numeric_unsigned_error: "numeric_unsigned b s \<noteq> Panic \<and> numeric_unsigned b s \<noteq> Err OutOfFuel"
  using numeric_fraction_error by (auto simp: numeric_unsigned_def Let_def split: prod.split)

lemma ParseNumeric_consumes:
  assumes "s \<noteq> []" "hd s = CHR ''-'' \<or> is_digit (hd s)"
  shows "consumes s (ParseNumeric s) \<and>
    (\<forall>v rest. ParseNumeric s = Ok (v, rest) \<longrightarrow> literal_ok v)"
proof -
  obtain c t where s: "s = c # t" using assms(1) by (cases s) auto
  obtain hasSign s1 where sgn: "(case ExpectOneOf [''-'', ''+''] s of
          Some (_, s1) \<Rightarrow> numeric_unsigned True s1
        | None \<Rightarrow> numeric_unsigned False s) = numeric_unsigned hasSign s1"
    and start: "if hasSign then s1 = t else s1 = s \<and> is_digit c"
  proof (cases "ExpectOneOf [''-'', ''+''] s")
    case None
    with s assms(2) have "is_digit c" by (auto simp: Expect_def HasPrefix_def split: if_splits)
    with None that [of False s] show ?thesis by simp
  next
    case (Some p)
    then obtain u r where p: "p = (u, r)" "u \<in> {''-'', ''+''}" "s = u @ r"
      using ExpectOneOf_Some [of "[''-'', ''+'']" s "fst p" "snd p"] by (cases p) auto
    with Some that [of True r] s show ?thesis by auto
  qed
  have fin: "length rest < length s \<and> literal_ok (take (length s - length rest) s)"
    if "numeric_unsigned hasSign s1 = Ok rest" for rest
  proof -
    from that start have rest: "length rest < length s1"
      by (rule_tac numeric_unsigned_length) (auto simp: s)
    show ?thesis
    proof (cases hasSign)
      case True
      with start rest s have "length (take (length s - length rest) s) \<ge> 2" by simp
      then have "literal_ok (take (length s - length rest) s)" by (auto simp: literal_ok_def simp del: length_take)
      then show ?thesis using rest start True s by simp
    next
      case False
      with start rest s have "is_digit (hd (take (length s - length rest) s))"
        by (simp add: take_Cons')
      then have "literal_ok (take (length s - length rest) s)"
        by (rule digit_literal)
      then show ?thesis using rest start False by simp
    qed
  qed
  show ?thesis unfolding ParseNumeric_def sgn
    using fin numeric_unsigned_error [of hasSign s1] by (cases "numeric_unsigned hasSign s1") auto
qed

section \<open>Identifiers and primitives\<close>

text \<open>The flag \<open>requireMore\<close> is false whenever the loop of \<open>ParseIdentifier\<close> tests it.\<close>

lemma identifier_loop_False:
  "\<exists>rest. identifier_loop False s = Ok (False, rest) \<and> length rest \<le> length s"
proof (induction s)
  case (Cons c s)
  then obtain rest where "identifier_loop False s = Ok (False, rest)" "length rest \<le> length s" by blast
  then show ?case by auto
qed simp

lemma ParseIdentifier_consumes: "consumes s (ParseIdentifier d s)"
proof (cases s)
  case (Cons c t)
  obtain rest where "identifier_loop False t = Ok (False, rest)" "length rest \<le> length t"
    using identifier_loop_False by blast
  moreover obtain rest' where "identifier_loop False (tl t) = Ok (False, rest')" "length rest' \<le> length (tl t)"
    using identifier_loop_False by blast
  ultimately show ?thesis by (auto simp: ParseIdentifier_def Cons)
qed (simp add: ParseIdentifier_def)

lemma ParseIdentifier_hd:
  "ParseIdentifier d (c # t) = Ok (v, rest) \<Longrightarrow> c \<noteq> CHR ''-'' \<Longrightarrow> c \<noteq> CHR ''+'' \<Longrightarrow> literal_ok v"
  by (auto simp: ParseIdentifier_def literal_ok_def take_Cons' split: if_splits)

definition literals_ok :: "(parse_error, string list \<times> string) outcome \<Rightarrow> bool" where
  "literals_ok r \<longleftrightarrow> (\<forall>vs rest. r = Ok (vs, rest) \<longrightarrow> list_all literal_ok vs)"

text \<open>A primitive parser that is good on all inputs shorter than a bound.\<close>

definition primitive_ok :: "string list parser \<Rightarrow> string \<Rightarrow> bool" where
  "primitive_ok p s \<longleftrightarrow> consumes s (p s) \<and> literals_ok (p s)"

lemma brackets_loop_ok:
  assumes "\<And>t. length t \<le> length s \<Longrightarrow> primitive_ok p t" "length s < n" "list_all literal_ok results"
  shows "(case brackets_loop n p results s of
            Ok (vs, rest) \<Rightarrow> length rest < length s \<and> list_all literal_ok vs
          | Err e \<Rightarrow> e \<noteq> OutOfFuel | Panic \<Rightarrow> False)"
  using assms
proof (induction n arbitrary: results s)
  case (Suc n)
  define s1 where "s1 = SkipWhitespace s"
  have s1: "length s1 \<le> length s" by (simp add: s1_def length_SkipWhitespace)
  show ?case
  proof (cases "Expect '']'' s1")
    case (Some r)
    with s1 Suc.prems show ?thesis by (simp add: s1_def [symmetric] Let_def) (simp add: Expect_Some)
  next
    case None
    from Suc.prems(1) [OF s1] have ok: "consumes s1 (p s1)" "literals_ok (p s1)" by (auto simp: primitive_ok_def)
    from ok(1) show ?thesis
    proof (rule consumes_cases)
      fix e assume "p s1 = Err e" "e \<noteq> OutOfFuel"
      with None show ?thesis by (simp add: s1_def [symmetric] Let_def)
    next
      fix vals s2 assume p: "p s1 = Ok (vals, s2)" and s2: "length s2 < length s1"
      define s4 where "s4 = (case Expect '','' (SkipWhitespace s2) of Some s4 \<Rightarrow> s4 | None \<Rightarrow> SkipWhitespace s2)"
      have "length s4 \<le> length (SkipWhitespace s2)"
        by (auto simp: s4_def Expect_Some split: option.split)
      then have s4: "length s4 < length s" using s1 s2 length_SkipWhitespace [of s2] by linarith
      have "list_all literal_ok (results @ vals)"
        using Suc.prems(3) ok(2) p by (simp add: literals_ok_def)
      with Suc.IH [of s4 "results @ vals"] Suc.prems(1,2) s4
      have "case brackets_loop n p (results @ vals) s4 of
            Ok (vs, rest) \<Rightarrow> length rest < length s4 \<and> list_all literal_ok vs
          | Err e \<Rightarrow> e \<noteq> OutOfFuel | Panic \<Rightarrow> False" by simp
      with None p s4 show ?thesis
        by (auto simp: s1_def [symmetric] Let_def s4_def [symmetric] split: outcome.splits)
    qed
  qed
qed simp

lemma wrapList_ok:
  "consumes s r \<Longrightarrow> \<forall>v rest. r = Ok (v, rest) \<longrightarrow> literal_ok v \<Longrightarrow>
     consumes s (wrapList r) \<and> literals_ok (wrapList r)"
  by (cases r) (auto simp: wrapList_def literals_ok_def)

lemma ParsePrimitive_fuel_ok: "length s < n \<Longrightarrow> primitive_ok (ParsePrimitive_fuel n) s"
proof (induction n arbitrary: s)
  case (Suc n)
  have brackets: "consumes s (ParseBrackets (ParsePrimitive_fuel n) s) \<and>
      literals_ok (ParseBrackets (ParsePrimitive_fuel n) s)"
  proof (cases "Expect ''['' s")
    case (Some r)
    then have r: "length r < length s" by (simp add: Expect_Some)
    have "primitive_ok (ParsePrimitive_fuel n) t" if "length t \<le> length r" for t
      using Suc.IH [of t] Suc.prems r that by simp
    then have "case brackets_loop (Suc (length r)) (ParsePrimitive_fuel n) [] r of
            Ok (vs, rest) \<Rightarrow> length rest < length r \<and> list_all literal_ok vs
          | Err e \<Rightarrow> e \<noteq> OutOfFuel | Panic \<Rightarrow> False"
      by (intro brackets_loop_ok) simp_all
    with Some r show ?thesis
      by (cases "brackets_loop (Suc (length r)) (ParsePrimitive_fuel n) [] r")
        (auto simp: ParseBrackets_def literals_ok_def simp del: brackets_loop.simps)
  qed (simp add: ParseBrackets_def literals_ok_def)
  have str: "consumes s (wrapList (Parser_ParseString q s)) \<and> literals_ok (wrapList (Parser_ParseString q s))"
    if "q \<noteq> CHR ''-''" "q \<noteq> CHR ''+''" for q
    using ParseString_consumes [OF that, of s] by (rule_tac wrapList_ok) blast+
  have num: "consumes s (wrapList (ParseNumeric s)) \<and> literals_ok (wrapList (ParseNumeric s))"
    if "Match ''-'' s \<or> s \<noteq> [] \<and> is_digit (hd s)"
  proof -
    from that have "s \<noteq> []" "hd s = CHR ''-'' \<or> is_digit (hd s)" by (auto simp: Match_iff)
    from ParseNumeric_consumes [OF this] show ?thesis by (rule_tac wrapList_ok) blast+
  qed
  have ident: "consumes s (wrapList (ParseIdentifier True s)) \<and> literals_ok (wrapList (ParseIdentifier True s))"
    if m: "Match ''$'' s"
  proof -
    from m obtain t where t: "s = CHR ''$'' # t" by (auto simp: Match_iff)
    have "\<forall>v rest. ParseIdentifier True s = Ok (v, rest) \<longrightarrow> literal_ok v"
      unfolding t using ParseIdentifier_hd [of True "CHR ''$''" t] by simp
    with ParseIdentifier_consumes show ?thesis by (rule_tac wrapList_ok) blast+
  qed
  have none: "consumes s (Err NotPrimitive) \<and> literals_ok (Err NotPrimitive)" by (simp add: literals_ok_def)
  show ?case unfolding primitive_ok_def ParsePrimitive_fuel.simps
    using brackets str [of "CHR 0x22"] str [of "CHR 0x60"] num ident none by simp
qed simp

lemma ParsePrimitive_ok: "consumes s (ParsePrimitive s)" "literals_ok (ParsePrimitive s)"
  using ParsePrimitive_fuel_ok [of s "Suc (length s)"]
  by (simp_all add: ParsePrimitive_def primitive_ok_def)

section \<open>Conditions\<close>

lemma ParseString_no_Panic [simp]: "ParseString p s mv \<noteq> Panic"
  by (simp add: ParseString_def split: option.split)

lemma ParseStringList_no_Panic [simp]: "ParseStringList p ss mv \<noteq> Panic"
  by (simp add: ParseStringList_def split: option.split)

lemma parse_unary_no_Panic: "parse_unary op p z mk args \<noteq> Panic"
  by (simp add: parse_unary_def bind_outcome_Panic_iff)

lemma parse_list_no_Panic: "(\<And>v. finish v \<noteq> Panic) \<Longrightarrow> parse_list op finish args \<noteq> Panic"
  by (simp add: parse_list_def bind_outcome_Panic_iff)

lemma factory_no_Panic: "list_all (\<lambda>(op, f). \<forall>args. op_Parse f args \<noteq> Panic) CompareOpFactory"
  unfolding CompareOpFactory_def
  by (simp add: StringEquals_Parse_def StringNotEquals_Parse_def StringPrefix_Parse_def
      StringSuffix_Parse_def StringContains_Parse_def IntegerEquals_Parse_def
      IntegerNotEquals_Parse_def IntegerGreaterThan_Parse_def
      IntegerGreaterThanOrEqual_Parse_def IntegerLessThan_Parse_def
      IntegerLessThanOrEqual_Parse_def StringListContains_Parse_def
      StringListIsEmpty_Parse_def Exists_Parse_def NotExists_Parse_def IntegerBetween_Parse_def
      StringInList_Parse_def StringListContainsAll_Parse_def StringListContainsAny_Parse_def
      parse_unary_no_Panic parse_list_no_Panic bind_outcome_Panic_iff StringListContainsAny_Precompile_def)

lemma generic_Parse_no_Panic: "generic_Parse args \<noteq> Panic"
proof (cases args)
  case (Cons op rest)
  show ?thesis
  proof (cases "find_operation (resolve_alias op)")
    case (Ok f)
    then have "(resolve_alias op, f) \<in> set CompareOpFactory" by (simp add: in_factory map_of_SomeD)
    with factory_no_Panic have "op_Parse f rest \<noteq> Panic" unfolding list_all_iff by blast
    with Ok show ?thesis by (simp add: generic_Parse_def Cons Let_def bind_outcome_Panic_iff)
  next
    case (Err e)
    then show ?thesis by (simp add: generic_Parse_def Cons Let_def)
  next
    case Panic
    then show ?thesis by (simp add: find_operation_def split: option.splits if_splits)
  qed
qed (simp add: generic_Parse_def)

lemma numeric_op_Ok: "literal_ok t \<Longrightarrow> \<exists>op. numeric_op a b t = Ok op"
  using isNumericFloat_no_Panic [of t] by (auto simp: numeric_op_def)

lemma equality_op_Ok: "literal_ok t \<Longrightarrow> \<exists>op. equality_op a b c t = Ok op"
  using isNumericFloat_no_Panic [of t] by (auto simp: equality_op_def)

lemma mangleOp_Ok:
  assumes "list_all literal_ok target"
  shows "\<exists>op'. mangleOp op target = Ok op'"
proof (cases "length target = 1")
  case True
  with assms have "literal_ok (hd target)" by (cases target) auto
  with True show ?thesis by (simp add: mangleOp_def Let_def numeric_op_Ok equality_op_Ok)
qed (simp add: mangleOp_def)

lemma ParseOperator_consumes: "consumes s (ParseOperator s)"
proof (cases "ExpectOneOf [''=='', ''!='', ''<='', ''>='', ''<'', ''>''] s")
  case None
  with ParseIdentifier_consumes show ?thesis by (simp add: ParseOperator_def del: ExpectOneOf.simps)
next
  case (Some p)
  obtain t r where p: "p = (t, r)" by fastforce
  from ExpectOneOf_shorter [OF Some [unfolded p]] Some p show ?thesis
    by (simp add: ParseOperator_def del: ExpectOneOf.simps)
qed

lemma consumes_bind_shrink:
  assumes "consumes s' r" "length s' \<le> length s"
    "\<And>a rest. r = Ok (a, rest) \<Longrightarrow> length rest < length s \<Longrightarrow> consumes s (f (a, rest))"
  shows "consumes s (bind_outcome r f)"
  using assms(1) by (rule consumes_cases) (use assms(2,3) in auto)

lemma ParseSingleCondition_consumes: "consumes s (ParseSingleCondition s)"
  unfolding ParseSingleCondition_def
proof (rule consumes_bind_shrink [OF ParsePrimitive_ok(1) length_SkipWhitespace], unfold prod.case)
  fix primitive :: "string list" and s1 :: string assume s1: "length s1 < length s"
  have "consumes s (bind_outcome (ParseOperator (SkipWhitespace s1)) (\<lambda>(strOp, s2).
           bind_outcome (ParsePrimitive (SkipWhitespace s2)) (\<lambda>(target, s3).
             bind_outcome (mangleOp strOp target) (\<lambda>op.
               bind_outcome (map_error ConditionError (generic_Parse (op # target))) (\<lambda>g.
                 Ok ((tl (hd primitive), g), s3))))))" (is "consumes s ?op")
  proof (rule consumes_bind_shrink [OF ParseOperator_consumes], unfold prod.case)
    show "length (SkipWhitespace s1) \<le> length s" using length_SkipWhitespace [of s1] s1 by linarith
    fix strOp s2 :: string assume s2: "length s2 < length s"
    show "consumes s (bind_outcome (ParsePrimitive (SkipWhitespace s2)) (\<lambda>(target, s3).
             bind_outcome (mangleOp strOp target) (\<lambda>op.
               bind_outcome (map_error ConditionError (generic_Parse (op # target))) (\<lambda>g.
                 Ok ((tl (hd primitive), g), s3)))))"
    proof (rule consumes_bind_shrink [OF ParsePrimitive_ok(1)], unfold prod.case)
      show "length (SkipWhitespace s2) \<le> length s" using length_SkipWhitespace [of s2] s2 by linarith
      fix target :: "string list" and s3 :: string assume t: "ParsePrimitive (SkipWhitespace s2) = Ok (target, s3)" "length s3 < length s"
      with ParsePrimitive_ok(2) [of "SkipWhitespace s2"] obtain op where op: "mangleOp strOp target = Ok op"
        using mangleOp_Ok unfolding literals_ok_def by blast
      show "consumes s (bind_outcome (mangleOp strOp target) (\<lambda>op.
               bind_outcome (map_error ConditionError (generic_Parse (op # target))) (\<lambda>g.
                 Ok ((tl (hd primitive), g), s3))))"
        using t(2) generic_Parse_no_Panic [of "op # target"]
        by (cases "generic_Parse (op # target)") (simp_all add: op)
    qed
  qed
  then show "consumes s (if length primitive \<noteq> 1 then Err NotSinglePrimitive
       else if hd primitive = [] \<or> hd (hd primitive) \<noteq> CHR ''$'' then Err NotVariable else ?op)"
    by simp
qed

lemma ParsePureAttributePolicy_consumes: "consumes s (ParsePureAttributePolicy name s)"
  unfolding ParsePureAttributePolicy_def
  by (rule consumes_bind [OF ParseSingleCondition_consumes]) (auto split: list.split)

section \<open>Policies\<close>

lemma ParsePrimitivePolicy_consumes:
  assumes "\<And>t. length t < length s \<Longrightarrow> consumes t (parsePolicy name t)"
  shows "consumes s (ParsePrimitivePolicy parsePolicy name s)"
proof (cases "Expect ''('' s")
  case None
  then show ?thesis by (simp add: ParsePrimitivePolicy_def ParsePureAttributePolicy_consumes)
next
  case (Some s1)
  then have s1: "length s1 < length s" by (simp add: Expect_Some)
  have "consumes s (bind_outcome (parsePolicy name s1) (\<lambda>(pol, s2).
            (case Expect '')'' (SkipWhitespace s2) of
               None \<Rightarrow> Err ExpectedParen
             | Some s3 \<Rightarrow> Ok (pol, s3))))"
  proof (rule consumes_bind_shrink [OF assms [OF s1]], use s1 in simp, unfold prod.case)
    fix pol :: policy and s2 :: string assume "length s2 < length s"
    then show "consumes s (case Expect '')'' (SkipWhitespace s2) of
               None \<Rightarrow> Err ExpectedParen | Some s3 \<Rightarrow> Ok (pol, s3))"
      using length_SkipWhitespace [of s2] by (auto simp: Expect_Some split: option.split)
  qed
  with Some show ?thesis by (simp add: ParsePrimitivePolicy_def)
qed

lemma ParseNotPolicy_consumes:
  assumes "\<And>t. length t < length s \<Longrightarrow> consumes t (parsePolicy name t)"
  shows "consumes s (ParseNotPolicy parsePolicy name s)"
proof -
  have prim: "consumes s (ParsePrimitivePolicy parsePolicy name t)" if "length t \<le> length s" for t
    using that assms by (intro consumes_mono [OF ParsePrimitivePolicy_consumes]) auto
  have bind: "consumes s (bind_outcome (ParsePrimitivePolicy parsePolicy name t)
      (\<lambda>(primitive, rest). Ok (NotPolicy name primitive, rest)))" if "length t \<le> length s" for t
    by (rule consumes_bind [OF prim [OF that]]) simp
  show ?thesis
  proof (cases "ExpectOneOf [''not'', ''!''] (SkipWhitespace s)")
    case None
    then show ?thesis using prim [OF length_SkipWhitespace]
      by (simp add: ParseNotPolicy_def Let_def del: ExpectOneOf.simps)
  next
    case (Some p)
    obtain t r where p: "p = (t, r)" by fastforce
    from ExpectOneOf_shorter [OF Some [unfolded p]] have "length (SkipWhitespace r) \<le> length s"
      using length_SkipWhitespace [of s] length_SkipWhitespace [of r] by simp
    with Some p bind show ?thesis by (simp add: ParseNotPolicy_def Let_def del: ExpectOneOf.simps)
  qed
qed

lemma chain_loop_consumes:
  assumes "\<And>t. length t < length s \<Longrightarrow> consumes t (element t)" "length s < n" "[] \<notin> set seps"
  shows "case chain_loop n seps element policies s of
           Ok (ps, rest) \<Rightarrow> length rest \<le> length s \<and> (policies \<noteq> [] \<longrightarrow> ps \<noteq> [])
         | Err e \<Rightarrow> e \<noteq> OutOfFuel | Panic \<Rightarrow> False"
  using assms
proof (induction n arbitrary: policies s)
  case (Suc n)
  show ?case
  proof (cases "ExpectOneOf seps s")
    case (Some p)
    obtain t s1 where p: "p = (t, s1)" by fastforce
    from ExpectOneOf_shorter [OF Some [unfolded p] Suc.prems(3)] have s1: "length (SkipWhitespace s1) < length s"
      using length_SkipWhitespace [of s1] by simp
    from Suc.prems(1) [OF s1] show ?thesis
    proof (rule consumes_cases)
      fix e assume "element (SkipWhitespace s1) = Err e" "e \<noteq> OutOfFuel"
      with Some p show ?thesis by simp
    next
      fix a s2 assume el: "element (SkipWhitespace s1) = Ok (a, s2)" "length s2 < length (SkipWhitespace s1)"
      then have s2: "length (SkipWhitespace s2) < length s" using s1 length_SkipWhitespace [of s2] by simp
      with Suc.IH [of "SkipWhitespace s2" "policies @ [a]"] Suc.prems
      have "case chain_loop n seps element (policies @ [a]) (SkipWhitespace s2) of
           Ok (ps, rest) \<Rightarrow> length rest \<le> length (SkipWhitespace s2) \<and> (policies @ [a] \<noteq> [] \<longrightarrow> ps \<noteq> [])
         | Err e \<Rightarrow> e \<noteq> OutOfFuel | Panic \<Rightarrow> False" by simp
      with Some p el s2 show ?thesis by (auto split: outcome.splits)
    qed
  qed simp
qed simp

lemma ParseChain_consumes:
  assumes "\<And>t. length t \<le> length s \<Longrightarrow> consumes t (element t)" "[] \<notin> set seps"
  shows "consumes s (ParseChain seps build element s)"
  unfolding ParseChain_def
proof (rule consumes_bind [OF assms(1) [OF order_refl]], unfold prod.case Let_def)
  fix a :: policy and s1 :: string assume "length s1 < length s"
  then have s2: "length (SkipWhitespace s1) < length s" using length_SkipWhitespace [of s1] by simp
  then have "case chain_loop (Suc (length (SkipWhitespace s1))) seps element [a] (SkipWhitespace s1) of
           Ok (ps, rest) \<Rightarrow> length rest \<le> length (SkipWhitespace s1) \<and> ([a] \<noteq> [] \<longrightarrow> ps \<noteq> [])
         | Err e \<Rightarrow> e \<noteq> OutOfFuel | Panic \<Rightarrow> False"
    by (intro chain_loop_consumes assms) auto
  with s2 show "consumes s (bind_outcome (chain_loop (Suc (length (SkipWhitespace s1))) seps element [a]
        (SkipWhitespace s1)) (\<lambda>(policies, rest).
         if length policies = 1 then Ok (hd policies, rest)
         else Ok (build (mangleNameOfChildren policies), rest)))"
    by (cases "chain_loop (Suc (length (SkipWhitespace s1))) seps element [a] (SkipWhitespace s1)")
      (auto simp del: chain_loop.simps)
qed

lemma ParseXorPolicy_consumes:
  assumes "\<And>t. length t < length s \<Longrightarrow> consumes t (parsePolicy name t)"
  shows "consumes s (ParseXorPolicy parsePolicy name s)"
proof -
  have not: "consumes t (ParseNotPolicy parsePolicy name t)" if "length t \<le> length s" for t
    using that assms by (intro ParseNotPolicy_consumes) auto
  have "consumes t (ParseAndPolicy parsePolicy name t)" if "length t \<le> length s" for t
    unfolding ParseAndPolicy_def using that not by (intro ParseChain_consumes) auto
  then have "consumes t (ParseOrPolicy parsePolicy name t)" if "length t \<le> length s" for t
    unfolding ParseOrPolicy_def using that by (intro ParseChain_consumes) auto
  then show ?thesis unfolding ParseXorPolicy_def by (intro ParseChain_consumes) auto
qed

lemma ParsePolicy_fuel_consumes: "length s < n \<Longrightarrow> consumes s (ParsePolicy_fuel n name s)"
proof (induction n arbitrary: s)
  case (Suc n)
  have "consumes (SkipWhitespace s) (ParseXorPolicy (ParsePolicy_fuel n) name (SkipWhitespace s))"
    using Suc length_SkipWhitespace [of s] by (intro ParseXorPolicy_consumes) auto
  then show ?case using length_SkipWhitespace [of s] by (auto intro: consumes_mono)
qed simp

text \<open>
  C5. Parsing a policy always ends and never panics: on every input \<open>ParsePolicy\<close>, from the
  fuel it starts with, returns a policy and the unread rest, which is strictly shorter than the
  input, or a parse error. In particular \<open>mangleOp\<close> never hands \<open>isNumericFloat\<close> a bare sign,
  on which it would index past the end, brackets and parentheses of any depth are parsed, and
  a list without commas or closing bracket ends in an error.
\<close>

theorem ParsePolicy_total:
  "(\<exists>pol rest. ParsePolicy name s = Ok (pol, rest) \<and> length rest < length s) \<or>
   (\<exists>e. ParsePolicy name s = Err e \<and> e \<noteq> OutOfFuel)"
  using ParsePolicy_fuel_consumes [of s "Suc (length s)" name]
  unfolding ParsePolicy_def by (auto elim: consumes_cases)

end
