(* ===== verification/Policy_Roundtrip.thy ===== *)
theory Policy_Roundtrip
  imports Policy_Parser_Laws
begin

text \<open>
  A printer for policies and the round trip with the parser: what the text of a policy means,
  with the precedences xor, or, and, not from weakest to strongest.
\<close>

section \<open>Conditions\<close>

text \<open>The characters of identifiers and paths, and of plain string literals.\<close>

definition ident_char :: "char \<Rightarrow> bool" where
  "ident_char c \<longleftrightarrow> is_letter c \<or> is_digit c \<or> c = CHR ''.''"

definition ident_text :: "string \<Rightarrow> bool" where
  "ident_text s \<longleftrightarrow> s \<noteq> [] \<and> is_letter (hd s) \<and> list_all ident_char s"

definition plain_char :: "char \<Rightarrow> bool" where
  "plain_char c \<longleftrightarrow> c \<noteq> CHR 0x22 \<and> c \<noteq> CHR 0x5C \<and> c \<noteq> CHR 0x0A"

definition quoted :: "string \<Rightarrow> string" where
  "quoted s = CHR 0x22 # s @ [CHR 0x22]"

text \<open>What may follow a condition: nothing, a space or a closing parenthesis.\<close>

definition boundary :: "string \<Rightarrow> bool" where
  "boundary r \<longleftrightarrow> r = [] \<or> hd r = CHR '' '' \<or> hd r = CHR '')''"

lemma boundary_not_ident: "boundary (c # r) \<Longrightarrow> \<not> ident_char c"
  by (auto simp: boundary_def ident_char_def is_letter_def is_digit_def)

lemma identifier_loop_ident:
  "list_all ident_char s \<Longrightarrow> boundary r \<Longrightarrow> identifier_loop False (s @ r) = Ok (False, r)"
proof (induction s)
  case Nil
  then show ?case using boundary_not_ident by (cases r) (auto simp: ident_char_def)
qed (auto simp: ident_char_def)

lemma ParseIdentifier_ident:
  assumes "ident_text s" "boundary r"
  shows "ParseIdentifier False (s @ r) = Ok (s, r)"
    and "ParseIdentifier True (CHR ''$'' # s @ r) = Ok (CHR ''$'' # s, r)"
proof -
  obtain c t where s: "s = c # t" "is_letter c" "list_all ident_char t"
    using assms(1) by (cases s) (auto simp: ident_text_def)
  from identifier_loop_ident [OF s(3) assms(2)] s
  show "ParseIdentifier False (s @ r) = Ok (s, r)"
    and "ParseIdentifier True (CHR ''$'' # s @ r) = Ok (CHR ''$'' # s, r)"
    by (simp_all add: ParseIdentifier_def)
qed

lemma skip_string_plain:
  "list_all plain_char s \<Longrightarrow> skip_string (CHR 0x22) (s @ CHR 0x22 # r) = CHR 0x22 # r"
  by (induction s) (auto simp: plain_char_def)

lemma unquote_loop_plain:
  "list_all plain_char s \<Longrightarrow> unquote_loop (s @ [CHR 0x22]) = Some (s, [])"
proof (induction s)
  case Nil
  show ?case by (subst unquote_loop.simps) simp
next
  case (Cons c s)
  then show ?case by (subst unquote_loop.simps) (simp add: plain_char_def)
qed

lemma Unquote_quoted: "list_all plain_char s \<Longrightarrow> Unquote (quoted s) = Some s"
  by (simp add: Unquote_def quoted_def unquote_loop_plain)

lemma ParseString_quoted:
  "list_all plain_char s \<Longrightarrow> Parser_ParseString (CHR 0x22) (quoted s @ r) = Ok (quoted s, r)"
  using Unquote_quoted [of s]
  by (simp add: Parser_ParseString_def quoted_def Expect_def HasPrefix_def skip_string_plain)

lemma Match_char: "Match [c] (d # s) \<longleftrightarrow> c = d"
  by (auto simp: Match_iff)

lemma ParsePrimitive_variable:
  "ident_text s \<Longrightarrow> boundary r \<Longrightarrow>
     ParsePrimitive (CHR ''$'' # s @ r) = Ok ([CHR ''$'' # s], r)"
  by (simp add: ParsePrimitive_def Match_char ParseIdentifier_ident wrapList_def is_digit_def)

lemma ParsePrimitive_quoted:
  assumes "list_all plain_char s"
  shows "ParsePrimitive (quoted s @ r) = Ok ([quoted s], r)"
proof -
  have "Match [CHR 0x22] (quoted s @ r)" by (simp add: quoted_def Match_char)
  then show ?thesis by (simp add: ParsePrimitive_def ParseString_quoted [OF assms] wrapList_def)
qed

lemma SkipWhitespace_nonspace: "s = [] \<or> \<not> is_space (hd s) \<Longrightarrow> SkipWhitespace s = s"
  by (cases s) (auto simp: SkipWhitespace_def)

lemma SkipWhitespace_space [simp]: "SkipWhitespace (CHR '' '' # s) = SkipWhitespace s"
  by (simp add: SkipWhitespace_def is_space_def)

lemma SkipWhitespace_idem [simp]: "SkipWhitespace (SkipWhitespace s) = SkipWhitespace s"
  by (simp add: SkipWhitespace_def dropWhile_idem)

lemma letter_not_space: "is_letter c \<Longrightarrow> \<not> is_space c"
  by (auto simp: is_letter_def is_space_def)

lemma ExpectOneOf_hd: "\<forall>t\<in>set ts. t \<noteq> [] \<and> hd t \<noteq> c \<Longrightarrow> ExpectOneOf ts (c # s) = None"
proof (induction ts)
  case (Cons t ts)
  then show ?case by (cases t) (auto simp: Expect_def HasPrefix_def)
qed simp

lemma ParseOperator_ident:
  assumes "ident_text op" "boundary r"
  shows "ParseOperator (op @ r) = Ok (op, r)"
proof -
  obtain c t where op: "op = c # t" "is_letter c" using assms(1) by (cases op) (auto simp: ident_text_def)
  then have "c \<notin> {CHR ''='', CHR ''!'', CHR ''<'', CHR ''>''}" by (auto simp: is_letter_def)
  then have "ExpectOneOf [''=='', ''!='', ''<='', ''>='', ''<'', ''>''] (op @ r) = None"
    unfolding op(1) append_Cons by (intro ExpectOneOf_hd) auto
  then show ?thesis using ParseIdentifier_ident(1) [OF assms]
    by (simp add: ParseOperator_def del: ExpectOneOf.simps)
qed

lemma mangleOp_ident:
  assumes "ident_text op"
  shows "mangleOp op ts = Ok op"
proof -
  have "op \<notin> {''=='', ''!='', ''<'', ''<='', ''>'', ''>=''}"
    using assms by (auto simp: ident_text_def is_letter_def)
  then show ?thesis by (simp add: mangleOp_def Let_def)
qed

definition condition_text :: "string \<Rightarrow> string \<Rightarrow> string \<Rightarrow> string \<Rightarrow> string" where
  "condition_text context path op lit =
     CHR ''$'' # context @ CHR ''.'' # path @ CHR '' '' # op @ CHR '' '' # quoted lit"

definition condition_ok :: "string \<Rightarrow> string \<Rightarrow> string \<Rightarrow> string \<Rightarrow> generic_condition \<Rightarrow> bool" where
  "condition_ok context path op lit g \<longleftrightarrow>
     context \<in> {''user'', ''resource'', ''env'', ''action''} \<and> list_all ident_char path \<and>
     ident_text op \<and> list_all plain_char lit \<and> generic_Parse [op, quoted lit] = Ok g"

lemma context_ident_text:
  "context \<in> {''user'', ''resource'', ''env'', ''action''} \<Longrightarrow>
     ident_text (context @ CHR ''.'' # path) \<longleftrightarrow> list_all ident_char path"
  by (auto simp: ident_text_def ident_char_def is_letter_def)

lemma ParsePure_condition:
  assumes "condition_ok context path op lit g"
  shows "ParsePureAttributePolicy name (condition_text context path op lit @ r) =
           Ok (NewAttributePolicy name context path g, r)"
proof -
  let ?var = "context @ CHR ''.'' # path"
  from assms have ctx: "context \<in> {''user'', ''resource'', ''env'', ''action''}"
    and op: "ident_text op" and lit: "list_all plain_char lit" and g: "generic_Parse [op, quoted lit] = Ok g"
    and var: "ident_text ?var"
    using context_ident_text by (auto simp: condition_ok_def)
  have b: "boundary (CHR '' '' # s)" for s by (simp add: boundary_def)
  have skip: "SkipWhitespace (op @ s) = op @ s" for s
    using op letter_not_space by (intro SkipWhitespace_nonspace) (cases op, auto simp: ident_text_def)
  have skipq: "SkipWhitespace (quoted lit @ r) = quoted lit @ r"
    by (intro SkipWhitespace_nonspace) (simp add: quoted_def is_space_def)
  have "ParseSingleCondition (condition_text context path op lit @ r) = Ok ((?var, g), r)"
    unfolding ParseSingleCondition_def
    using ParsePrimitive_variable [OF var b, of "op @ CHR '' '' # quoted lit @ r"]
      ParseOperator_ident [OF op b, of "quoted lit @ r"] ParsePrimitive_quoted [OF lit, of r] g
    by (simp add: condition_text_def SkipWhitespace_nonspace is_space_def skip skipq mangleOp_ident [OF op])
  moreover have "CHR ''.'' \<notin> set context" using ctx by auto
  ultimately show ?thesis using ctx
    by (auto simp: ParsePureAttributePolicy_def SplitN2_def)
qed

text \<open>A condition whose argument is a variable.\<close>

definition variable_text :: "string \<Rightarrow> string \<Rightarrow> string \<Rightarrow> string \<Rightarrow> string" where
  "variable_text context path op var =
     CHR ''$'' # context @ CHR ''.'' # path @ CHR '' '' # op @ CHR '' '' # CHR ''$'' # var"

lemma ParsePure_variable:
  assumes ctx: "context \<in> {''user'', ''resource'', ''env'', ''action''}" and path: "list_all ident_char path"
    and op: "ident_text op" and var: "ident_text var" and g: "generic_Parse [op, CHR ''$'' # var] = Ok g"
    and r: "boundary r"
  shows "ParsePureAttributePolicy name (variable_text context path op var @ r) =
           Ok (NewAttributePolicy name context path g, r)"
proof -
  let ?target = "context @ CHR ''.'' # path"
  have target: "ident_text ?target" using ctx path context_ident_text by blast
  have b: "boundary (CHR '' '' # s)" for s by (simp add: boundary_def)
  have skip: "SkipWhitespace (op @ s) = op @ s" for s
    using op letter_not_space by (intro SkipWhitespace_nonspace) (cases op, auto simp: ident_text_def)
  have "ParseSingleCondition (variable_text context path op var @ r) = Ok ((?target, g), r)"
    unfolding ParseSingleCondition_def
    using ParsePrimitive_variable [OF target b, of "op @ CHR '' '' # CHR ''$'' # var @ r"]
      ParseOperator_ident [OF op b, of "CHR ''$'' # var @ r"] ParsePrimitive_variable [OF var r] g
    by (simp add: variable_text_def SkipWhitespace_nonspace is_space_def skip mangleOp_ident [OF op])
  moreover have "CHR ''.'' \<notin> set context" using ctx by auto
  ultimately show ?thesis using ctx
    by (auto simp: ParsePureAttributePolicy_def SplitN2_def)
qed

section \<open>Levels of the grammar\<close>

text \<open>
  The levels from weakest to strongest: 0 xor, 1 or, 2 and, 3 not, 4 a primitive policy. Each of
  the first three is a chain of the next level.
\<close>

definition parser_at :: "nat \<Rightarrow> nat \<Rightarrow> string \<Rightarrow> policy parser" where
  "parser_at l n name =
     (if l = 0 then ParseXorPolicy (ParsePolicy_fuel n) name
      else if l = 1 then ParseOrPolicy (ParsePolicy_fuel n) name
      else if l = 2 then ParseAndPolicy (ParsePolicy_fuel n) name
      else if l = 3 then ParseNotPolicy (ParsePolicy_fuel n) name
      else ParsePrimitivePolicy (ParsePolicy_fuel n) name)"

definition seps_at :: "nat \<Rightarrow> string list" where
  "seps_at l = (if l = 0 then [''xor''] else if l = 1 then [''or'', ''||''] else [''and'', ''&&''])"

definition set_at :: "nat \<Rightarrow> string \<Rightarrow> policy list \<Rightarrow> policy" where
  "set_at l = (if l = 0 then XorPolicy else if l = 1 then OrPolicy else AndPolicy)"

definition sep_text :: "nat \<Rightarrow> string" where
  "sep_text l = CHR '' '' # hd (seps_at l) @ '' ''"

lemma parser_at_chain:
  "k \<le> 2 \<Longrightarrow> parser_at k n name = ParseChain (seps_at k) (set_at k name) (parser_at (Suc k) n name)"
  by (cases k; cases "k - 1")
    (auto simp: parser_at_def seps_at_def set_at_def ParseXorPolicy_def ParseOrPolicy_def ParseAndPolicy_def)

text \<open>What may follow a text at a level, and what the parser leaves of it.\<close>

definition cont :: "nat \<Rightarrow> string \<Rightarrow> bool" where
  "cont l r \<longleftrightarrow> boundary r \<and> (\<forall>k. l \<le> k \<longrightarrow> k \<le> 2 \<longrightarrow> ExpectOneOf (seps_at k) (SkipWhitespace r) = None)"

definition left_over :: "nat \<Rightarrow> string \<Rightarrow> string" where
  "left_over l r = (if l \<le> 2 then SkipWhitespace r else r)"

definition parses :: "nat \<Rightarrow> nat \<Rightarrow> string \<Rightarrow> string \<Rightarrow> policy \<Rightarrow> bool" where
  "parses l n name t a \<longleftrightarrow> (\<forall>r. cont l r \<longrightarrow> parser_at l n name (t @ r) = Ok (a, left_over l r))"

definition starts :: "char set \<Rightarrow> string \<Rightarrow> bool" where
  "starts C t \<longleftrightarrow> t \<noteq> [] \<and> hd t \<in> C"

lemma starts_not_space:
  "starts {CHR ''$'', CHR ''('', CHR ''n''} t \<Longrightarrow> SkipWhitespace (t @ r) = t @ r"
  by (cases t) (auto simp: starts_def SkipWhitespace_def is_space_def)

lemma cont_mono: "cont l r \<Longrightarrow> l \<le> k \<Longrightarrow> cont k r"
  by (auto simp: cont_def)

lemma Skip_left_over [simp]: "SkipWhitespace (left_over l r) = SkipWhitespace r"
  by (simp add: left_over_def)

lemma cont_hd:
  assumes "boundary r" "SkipWhitespace r = c # s" "\<And>k. l \<le> k \<Longrightarrow> k \<le> 2 \<Longrightarrow> c \<notin> hd ` set (seps_at k)"
  shows "cont l r"
proof -
  have "[] \<notin> set (seps_at k)" for k by (simp add: seps_at_def)
  with assms(3) have "ExpectOneOf (seps_at k) (c # s) = None" if "l \<le> k" "k \<le> 2" for k
    using that by (intro ExpectOneOf_hd) force
  with assms(1,2) show ?thesis by (simp add: cont_def)
qed

lemma cont_paren: "cont l (CHR '')'' # r)"
proof (rule cont_hd)
  show "boundary (CHR '')'' # r)" by (simp add: boundary_def)
  show "SkipWhitespace (CHR '')'' # r) = CHR '')'' # r" by (simp add: SkipWhitespace_def is_space_def)
qed (auto simp: seps_at_def)

lemma cont_Nil: "cont l []"
  by (auto simp: cont_def boundary_def SkipWhitespace_def seps_at_def Expect_def HasPrefix_def)

lemma Skip_sep_text: "SkipWhitespace (sep_text k @ s) = hd (seps_at k) @ CHR '' '' # s"
  by (auto simp: sep_text_def seps_at_def SkipWhitespace_def is_space_def)

lemma cont_sep_text: "k \<le> 2 \<Longrightarrow> cont (Suc k) (sep_text k @ s)"
proof (rule cont_hd)
  assume "k \<le> 2"
  show "boundary (sep_text k @ s)" by (simp add: boundary_def sep_text_def)
  show "SkipWhitespace (sep_text k @ s) = hd (hd (seps_at k)) # tl (hd (seps_at k)) @ CHR '' '' # s"
    by (simp add: Skip_sep_text) (simp add: seps_at_def)
  fix j assume "Suc k \<le> j" "j \<le> 2"
  then show "hd (hd (seps_at k)) \<notin> hd ` set (seps_at j)" by (auto simp: seps_at_def)
qed

lemma Expect_sep: "k \<le> 2 \<Longrightarrow> ExpectOneOf (seps_at k) (hd (seps_at k) @ s) = Some (hd (seps_at k), s)"
proof -
  have "ExpectOneOf (t # ts) (t @ s) = Some (t, s)" for t ts by (simp add: Expect_append)
  moreover have "seps_at k = hd (seps_at k) # tl (seps_at k)" by (simp add: seps_at_def)
  ultimately show ?thesis by metis
qed

section \<open>From one level to the next\<close>

lemma parses_chain_single:
  assumes "parses (Suc k) n name t a" "k \<le> 2"
  shows "parses k n name t a"
  unfolding parses_def
proof (intro allI impI)
  fix r assume r: "cont k r"
  then have "parser_at (Suc k) n name (t @ r) = Ok (a, left_over (Suc k) r)"
    using assms(1) cont_mono [OF r, of "Suc k"] by (simp add: parses_def)
  moreover from r assms(2) have "ExpectOneOf (seps_at k) (SkipWhitespace r) = None" by (simp add: cont_def)
  ultimately show "parser_at k n name (t @ r) = Ok (a, left_over k r)"
    using assms(2) by (simp add: parser_at_chain [OF assms(2)] ParseChain_def Let_def left_over_def)
qed

lemma parses_descend:
  assumes "parses k n name t a" "l \<le> k" "k \<le> 3"
  shows "parses l n name t a"
  using assms(2,1,3)
proof (induction rule: inc_induct)
  case (step j)
  from step.IH [OF step.prems] have "parses (Suc j) n name t a" .
  then show ?case by (rule parses_chain_single) (use step in linarith)
qed

lemma parses_not:
  assumes "parses 4 n name t a" "starts {CHR ''$'', CHR ''(''} t"
  shows "parses 3 n name t a"
  unfolding parses_def
proof (intro allI impI)
  fix r assume r: "cont 3 r"
  have skip: "SkipWhitespace (t @ r) = t @ r"
    using assms(2) by (intro starts_not_space) (auto simp: starts_def)
  have "ExpectOneOf [''not'', ''!''] (t @ r) = None"
    using assms(2) by (cases t) (auto simp: starts_def Expect_def HasPrefix_def)
  with assms(1) cont_mono [OF r, of 4] skip
  show "parser_at 3 n name (t @ r) = Ok (a, left_over 3 r)"
    by (simp add: parses_def parser_at_def ParseNotPolicy_def Let_def left_over_def del: ExpectOneOf.simps)
qed

lemma parses_Not:
  assumes "parses 4 n name t a" "starts {CHR ''$'', CHR ''(''} t"
  shows "parses 3 n name (''not '' @ t) (NotPolicy name a)"
  unfolding parses_def
proof (intro allI impI)
  fix r assume r: "cont 3 r"
  have skip: "SkipWhitespace (t @ r) = t @ r"
    using assms(2) by (intro starts_not_space) (auto simp: starts_def)
  have "SkipWhitespace (''not '' @ t @ r) = ''not'' @ CHR '' '' # t @ r"
    by (simp add: SkipWhitespace_def is_space_def)
  with assms(1) cont_mono [OF r, of 4] skip
  show "parser_at 3 n name ((''not '' @ t) @ r) = Ok (NotPolicy name a, left_over 3 r)"
    by (simp add: parses_def parser_at_def ParseNotPolicy_def Let_def left_over_def Expect_def HasPrefix_def)
qed

lemma parses_paren:
  assumes "parses 0 n name t a" "starts {CHR ''$'', CHR ''('', CHR ''n''} t"
  shows "parses 4 (Suc n) name (CHR ''('' # t @ '')'') a"
  unfolding parses_def
proof (intro allI impI)
  fix r assume "cont 4 r"
  from assms(1) cont_paren [of 0 r] have "parser_at 0 n name (t @ CHR '')'' # r) = Ok (a, CHR '')'' # r)"
    by (simp add: parses_def left_over_def SkipWhitespace_def is_space_def)
  then have "ParsePolicy_fuel (Suc n) name (t @ CHR '')'' # r) = Ok (a, CHR '')'' # r)"
    by (simp add: parser_at_def starts_not_space [OF assms(2)])
  then show "parser_at 4 (Suc n) name ((CHR ''('' # t @ '')'') @ r) = Ok (a, left_over 4 r)"
    by (simp add: parser_at_def ParsePrimitivePolicy_def Expect_def HasPrefix_def left_over_def
        SkipWhitespace_def is_space_def del: ParsePolicy_fuel.simps)
qed

lemma parses_atom:
  assumes "starts {CHR ''$''} t" "\<And>r. boundary r \<Longrightarrow> ParsePureAttributePolicy name (t @ r) = Ok (p, r)" "l \<le> 4"
  shows "parses l n name t p"
proof -
  obtain s where t: "t = CHR ''$'' # s" using assms(1) by (cases t) (auto simp: starts_def)
  have p4: "parses 4 n name t p"
    using assms(2) by (simp add: t parses_def parser_at_def ParsePrimitivePolicy_def left_over_def cont_def
        Expect_def HasPrefix_def)
  show ?thesis
  proof (cases "l = 4")
    case False
    have "parses 3 n name t p" using p4 by (rule parses_not) (simp add: t starts_def)
    then show ?thesis by (rule parses_descend) (use assms(3) False in auto)
  qed (use p4 in simp)
qed

text \<open>A chain of texts.\<close>

definition chain_tail :: "nat \<Rightarrow> string list \<Rightarrow> string" where
  "chain_tail k ts = concat (List.map (\<lambda>t. sep_text k @ t) ts)"

lemma Join_chain_tail: "Join (t # ts) (sep_text k) = t @ chain_tail k ts"
  by (induction ts arbitrary: t) (auto simp: chain_tail_def)

lemma cont_chain_tail: "k \<le> 2 \<Longrightarrow> cont k r \<Longrightarrow> cont (Suc k) (chain_tail k ts @ r)"
  by (cases ts) (auto simp: chain_tail_def cont_sep_text intro: cont_mono)

lemma chain_loop_texts:
  assumes "k \<le> 2" "cont k r" "list_all2 (parses (Suc k) n name) ts as"
    and "list_all (starts {CHR ''$'', CHR ''('', CHR ''n''}) ts"
    and "length (SkipWhitespace (chain_tail k ts @ r)) < N"
  shows "chain_loop N (seps_at k) (parser_at (Suc k) n name) ps (SkipWhitespace (chain_tail k ts @ r)) =
           Ok (ps @ as, SkipWhitespace r)"
  using assms(3-)
proof (induction ts arbitrary: as ps N)
  case Nil
  from assms(1,2) have "ExpectOneOf (seps_at k) (SkipWhitespace r) = None" by (simp add: cont_def)
  with Nil show ?case by (cases N) (auto simp: chain_tail_def)
next
  case (Cons t ts)
  then obtain a as' where as: "as = a # as'" "parses (Suc k) n name t a" "list_all2 (parses (Suc k) n name) ts as'"
    by (auto simp: list_all2_Cons1)
  obtain N' where N: "N = Suc N'" using Cons.prems(3) by (cases N) auto
  let ?tail = "chain_tail k ts @ r"
  have s: "SkipWhitespace (chain_tail k (t # ts) @ r) = hd (seps_at k) @ CHR '' '' # t @ ?tail"
    by (simp add: chain_tail_def Skip_sep_text)
  have skip: "SkipWhitespace (t @ ?tail) = t @ ?tail"
    using Cons.prems(2) by (intro starts_not_space) simp
  have el: "parser_at (Suc k) n name (t @ ?tail) = Ok (a, left_over (Suc k) ?tail)"
    using as(2) cont_chain_tail [OF assms(1,2), of ts] by (simp add: parses_def)
  have "length (SkipWhitespace ?tail) < N'"
    using Cons.prems(3) length_SkipWhitespace [of ?tail] unfolding s N by simp
  with Cons.IH [OF as(3), of N' "ps @ [a]"] Cons.prems(2)
  have "chain_loop N' (seps_at k) (parser_at (Suc k) n name) (ps @ [a]) (SkipWhitespace ?tail) =
      Ok (ps @ as, SkipWhitespace r)" by (simp add: as(1))
  then show ?case unfolding s N by (simp add: Expect_sep [OF assms(1)] skip el)
qed

lemma parses_chain:
  assumes "k \<le> 2" "list_all2 (parses (Suc k) n name) ts as" "2 \<le> length ts"
    and "list_all (starts {CHR ''$'', CHR ''('', CHR ''n''}) ts"
  shows "parses k n name (Join ts (sep_text k)) (set_at k name (mangleNameOfChildren as))"
  unfolding parses_def
proof (intro allI impI)
  fix r assume r: "cont k r"
  obtain t ts' where ts: "ts = t # ts'" using assms(3) by (cases ts) auto
  with assms(2) obtain a as' where as: "as = a # as'" "parses (Suc k) n name t a"
    "list_all2 (parses (Suc k) n name) ts' as'" by (auto simp: list_all2_Cons1)
  let ?tail = "chain_tail k ts' @ r"
  have el: "parser_at (Suc k) n name (t @ ?tail) = Ok (a, left_over (Suc k) ?tail)"
    using as(2) cont_chain_tail [OF assms(1) r, of ts'] by (simp add: parses_def)
  have loop: "chain_loop (Suc (length (SkipWhitespace ?tail))) (seps_at k) (parser_at (Suc k) n name) [a]
      (SkipWhitespace ?tail) = Ok ([a] @ as', SkipWhitespace r)"
    using assms(1,4) r as(3) ts by (intro chain_loop_texts) auto
  have len: "length ([a] @ as') \<noteq> 1" using list_all2_lengthD [OF assms(2)] assms(3) as(1) by auto
  have "parser_at k n name (t @ ?tail) = Ok (set_at k name (mangleNameOfChildren as), SkipWhitespace r)"
    unfolding parser_at_chain [OF assms(1)] ParseChain_def el
    unfolding bind_outcome.simps prod.case Let_def Skip_left_over loop if_not_P [OF len]
    by (simp add: as(1))
  then show "parser_at k n name (Join ts (sep_text k) @ r) =
      Ok (set_at k name (mangleNameOfChildren as), left_over k r)"
    using assms(1) by (simp add: ts Join_chain_tail left_over_def)
qed

section \<open>Expressions, their text and the round trip\<close>

text \<open>A condition holds its context, path, operator and literal, and what the last two parse to.\<close>

datatype expr =
    ECond string string string string generic_condition
  | ENot expr
  | EAnd "expr list"
  | EOr "expr list"
  | EXor "expr list"

fun expr_ok :: "expr \<Rightarrow> bool" where
  "expr_ok (ECond context path op lit g) = condition_ok context path op lit g"
| "expr_ok (ENot e) = expr_ok e"
| "expr_ok (EAnd es) = (length es \<ge> 2 \<and> list_all expr_ok es)"
| "expr_ok (EOr es) = (length es \<ge> 2 \<and> list_all expr_ok es)"
| "expr_ok (EXor es) = (length es \<ge> 2 \<and> list_all expr_ok es)"

definition paren :: "bool \<Rightarrow> string \<Rightarrow> string" where
  "paren b s = (if b then CHR ''('' # s @ '')'' else s)"

text \<open>The text of an expression where the grammar wants level \<open>l\<close>.\<close>

fun render :: "nat \<Rightarrow> expr \<Rightarrow> string" where
  "render l (ECond context path op lit g) = condition_text context path op lit"
| "render l (ENot e) = paren (3 < l) (''not '' @ render 4 e)"
| "render l (EAnd es) = paren (2 < l) (Join (List.map (render 3) es) '' and '')"
| "render l (EOr es) = paren (1 < l) (Join (List.map (render 2) es) '' or '')"
| "render l (EXor es) = paren (0 < l) (Join (List.map (render 1) es) '' xor '')"

text \<open>The policy an expression stands for, under the name given to the parser.\<close>

fun policy_of :: "string \<Rightarrow> expr \<Rightarrow> policy" where
  "policy_of name (ECond context path op lit g) = NewAttributePolicy name context path g"
| "policy_of name (ENot e) = NotPolicy name (policy_of name e)"
| "policy_of name (EAnd es) = AndPolicy name (mangleNameOfChildren (List.map (policy_of name) es))"
| "policy_of name (EOr es) = OrPolicy name (mangleNameOfChildren (List.map (policy_of name) es))"
| "policy_of name (EXor es) = XorPolicy name (mangleNameOfChildren (List.map (policy_of name) es))"

text \<open>A bound on the parentheses open at once.\<close>

fun nesting :: "expr \<Rightarrow> nat" where
  "nesting (ECond context path op lit g) = 0"
| "nesting (ENot e) = Suc (nesting e)"
| "nesting (EAnd es) = Suc (fold max (List.map nesting es) 0)"
| "nesting (EOr es) = Suc (fold max (List.map nesting es) 0)"
| "nesting (EXor es) = Suc (fold max (List.map nesting es) 0)"

lemma fold_max: "x \<in> set xs \<Longrightarrow> x \<le> fold max xs (m::nat)"
  using Max.set_eq_fold [of m xs] Max_ge [of "insert m (set xs)" x] by simp

lemma starts_paren: "starts {CHR ''$'', CHR ''('', CHR ''n''} s \<Longrightarrow> starts {CHR ''$'', CHR ''('', CHR ''n''} (paren b s)"
  by (simp add: paren_def starts_def)

lemma starts_Join: "2 \<le> length ts \<Longrightarrow> list_all (starts C) ts \<Longrightarrow> starts C (Join ts sep)"
  by (cases ts; cases "tl ts") (auto simp: starts_def)

lemma starts_render: "expr_ok e \<Longrightarrow> starts {CHR ''$'', CHR ''('', CHR ''n''} (render l e)"
proof (induction e arbitrary: l)
  case (ENot e)
  have "starts {CHR ''$'', CHR ''('', CHR ''n''} (''not '' @ render 4 e)" by (simp add: starts_def)
  then show ?case by (simp add: starts_paren del: append_Cons)
next
  case (EAnd es)
  then show ?case using starts_Join [of "List.map (render 3) es"] by (simp add: list_all_iff starts_paren)
next
  case (EOr es)
  then show ?case using starts_Join [of "List.map (render 2) es"] by (simp add: list_all_iff starts_paren)
next
  case (EXor es)
  then show ?case using starts_Join [of "List.map (render 1) es"] by (simp add: list_all_iff starts_paren)
qed (simp add: starts_def condition_text_def)

lemma starts_render_primitive: "starts {CHR ''$'', CHR ''(''} (render 4 e)"
  by (cases e) (simp_all add: starts_def condition_text_def paren_def)

text \<open>A compound of level \<open>k\<close>, in parentheses where a stronger level is wanted.\<close>

lemma parses_level:
  assumes body: "\<And>m. d \<le> m \<Longrightarrow> parses k m name s a" and "k \<le> 3" "l \<le> 4" "Suc d \<le> n"
    and starts: "starts {CHR ''$'', CHR ''('', CHR ''n''} s"
  shows "parses l n name (paren (k < l) s) a"
proof (cases "k < l")
  case False
  then have "parses l n name s a"
    using assms by (intro parses_descend [OF body]) auto
  with False show ?thesis by (simp add: paren_def)
next
  case True
  obtain m where m: "n = Suc m" "d \<le> m" using assms(4) by (cases n) auto
  have "parses 0 m name s a" using assms(2) m by (intro parses_descend [OF body]) auto
  from parses_paren [OF this starts] have p4: "parses 4 n name (CHR ''('' # s @ '')'') a" by (simp add: m)
  have "parses l n name (CHR ''('' # s @ '')'') a"
  proof (cases "l = 4")
    case False
    have "parses 3 n name (CHR ''('' # s @ '')'') a" using p4 by (rule parses_not) (simp add: starts_def)
    then show ?thesis by (rule parses_descend) (use assms(3) False in auto)
  qed (use p4 in simp)
  with True show ?thesis by (simp add: paren_def)
qed

lemma parses_chain_render:
  assumes "\<And>e m. e \<in> set es \<Longrightarrow> nesting e \<le> m \<Longrightarrow> parses (Suc k) m name (render (Suc k) e) (policy_of name e)"
    and "k \<le> 2" "2 \<le> length es" "list_all expr_ok es" "fold max (List.map nesting es) 0 \<le> m"
  shows "parses k m name (Join (List.map (render (Suc k)) es) (sep_text k))
           (set_at k name (mangleNameOfChildren (List.map (policy_of name) es)))"
proof (rule parses_chain [OF assms(2)])
  have "parses (Suc k) m name (render (Suc k) e) (policy_of name e)" if "e \<in> set es" for e
  proof (rule assms(1) [OF that])
    have "nesting e \<le> fold max (List.map nesting es) 0" using that by (intro fold_max) simp
    with assms(5) show "nesting e \<le> m" by simp
  qed
  then show "list_all2 (parses (Suc k) m name) (List.map (render (Suc k)) es) (List.map (policy_of name) es)"
    by (simp add: list_all2_map1 list_all2_map2 list_all2_same)
  show "list_all (starts {CHR ''$'', CHR ''('', CHR ''n''}) (List.map (render (Suc k)) es)"
    using assms(4) by (simp add: list_all_iff starts_render)
qed (use assms(3) in simp)

lemma sep_texts: "sep_text 0 = '' xor ''" "sep_text (Suc 0) = '' or ''" "sep_text 2 = '' and ''"
  by (simp_all add: sep_text_def seps_at_def)

lemma parses_render:
  "expr_ok e \<Longrightarrow> nesting e \<le> n \<Longrightarrow> l \<le> 4 \<Longrightarrow> parses l n name (render l e) (policy_of name e)"
proof (induction e arbitrary: l n)
  case (ECond c p op lit g)
  then show ?case using ParsePure_condition [of c p op lit g]
    unfolding render.simps policy_of.simps by (intro parses_atom) (auto simp: starts_def condition_text_def)
next
  case (ENot e)
  have "parses 3 m name (''not '' @ render 4 e) (NotPolicy name (policy_of name e))" if "nesting e \<le> m" for m
    using ENot that by (intro parses_Not starts_render_primitive) auto
  from parses_level [OF this, of _ l n] ENot.prems show ?case by (simp add: starts_def)
next
  case (EAnd es)
  have "parses 2 m name (Join (List.map (render 3) es) '' and '') (policy_of name (EAnd es))"
    if "fold max (List.map nesting es) 0 \<le> m" for m
  proof -
    have "parses (Suc 2) m name (render (Suc 2) e) (policy_of name e)"
      if "e \<in> set es" "nesting e \<le> m" for e m
      using EAnd that by (simp add: list_all_iff)
    from parses_chain_render [of es 2 name, OF this] EAnd.prems that show ?thesis
      by (simp add: sep_texts set_at_def)
  qed
  from parses_level [OF this, of _ l n] EAnd.prems show ?case
    using starts_Join [of "List.map (render 3) es"] by (simp add: list_all_iff starts_render)
next
  case (EOr es)
  have "parses 1 m name (Join (List.map (render 2) es) '' or '') (policy_of name (EOr es))"
    if "fold max (List.map nesting es) 0 \<le> m" for m
  proof -
    have "parses (Suc 1) m name (render (Suc 1) e) (policy_of name e)"
      if "e \<in> set es" "nesting e \<le> m" for e m
      using EOr that by (simp add: list_all_iff)
    from parses_chain_render [of es 1 name, OF this] EOr.prems that show ?thesis
      by (simp add: sep_texts set_at_def numeral_2_eq_2)
  qed
  from parses_level [OF this, of _ l n] EOr.prems show ?case
    using starts_Join [of "List.map (render 2) es"] by (simp add: list_all_iff starts_render)
next
  case (EXor es)
  have "parses 0 m name (Join (List.map (render 1) es) '' xor '') (policy_of name (EXor es))"
    if "fold max (List.map nesting es) 0 \<le> m" for m
  proof -
    have "parses (Suc 0) m name (render (Suc 0) e) (policy_of name e)"
      if "e \<in> set es" "nesting e \<le> m" for e m
      using EXor that by (simp add: list_all_iff)
    from parses_chain_render [of es 0 name, OF this] EXor.prems that show ?thesis
      by (simp add: sep_texts set_at_def)
  qed
  from parses_level [OF this, of _ l n] EXor.prems show ?case
    using starts_Join [of "List.map (render 1) es"] by (simp add: list_all_iff starts_render)
qed

lemma length_Join_part: "x \<in> set xs \<Longrightarrow> length x \<le> length (Join xs sep)"
  by (induction xs sep rule: Join.induct) auto

lemma length_Join: "2 \<le> length xs \<Longrightarrow> x \<in> set xs \<Longrightarrow> length x + length sep \<le> length (Join xs sep)"
proof (cases xs; cases "tl xs")
  fix a as b bs assume "2 \<le> length xs" "x \<in> set xs" "xs = a # as" "tl xs = b # bs"
  then show ?thesis using length_Join_part [of x "b # bs" sep] by auto
qed auto

lemma fold_max_le: "(\<And>x. x \<in> set xs \<Longrightarrow> x \<le> n) \<Longrightarrow> m \<le> n \<Longrightarrow> fold max xs m \<le> (n::nat)"
  by (induction xs arbitrary: m) auto

lemma nesting_Join:
  assumes "\<And>e. e \<in> set es \<Longrightarrow> nesting e \<le> length (f e)" "2 \<le> length es" "sep \<noteq> []"
  shows "Suc (fold max (List.map nesting es) 0) \<le> length (Join (List.map f es) sep)"
proof -
  have part: "nesting e + length sep \<le> length (Join (List.map f es) sep)" if "e \<in> set es" for e
    using assms(1) [OF that] length_Join [of "List.map f es" "f e" sep] assms(2) that by simp
  have "Suc 0 \<le> length sep" using assms(3) by (cases sep) auto
  with part have "Suc (nesting e) \<le> length (Join (List.map f es) sep)" if "e \<in> set es" for e
    using that by fastforce
  moreover obtain e where "e \<in> set es" using assms(2) by (cases es) auto
  ultimately obtain n where n: "length (Join (List.map f es) sep) = Suc n"
    and "\<And>e. e \<in> set es \<Longrightarrow> nesting e \<le> n"
    by (cases "length (Join (List.map f es) sep)") auto
  then have "fold max (List.map nesting es) 0 \<le> n" by (intro fold_max_le) auto
  then show ?thesis by (simp add: n)
qed

lemma length_paren: "length s \<le> length (paren b s)"
  by (simp add: paren_def)

lemma nesting_length: "expr_ok e \<Longrightarrow> nesting e \<le> length (render l e)"
proof (induction e arbitrary: l)
  case (ENot e)
  then have "nesting e \<le> length (render 4 e)" by simp
  then have "Suc (nesting e) \<le> length (''not '' @ render 4 e)" by simp
  then show ?case using length_paren le_trans unfolding nesting.simps render.simps by blast
next
  case (EAnd es)
  then have "Suc (fold max (List.map nesting es) 0) \<le> length (Join (List.map (render 3) es) '' and '')"
    by (intro nesting_Join) (auto simp: list_all_iff)
  then show ?case using length_paren le_trans unfolding nesting.simps render.simps by blast
next
  case (EOr es)
  then have "Suc (fold max (List.map nesting es) 0) \<le> length (Join (List.map (render 2) es) '' or '')"
    by (intro nesting_Join) (auto simp: list_all_iff)
  then show ?case using length_paren le_trans unfolding nesting.simps render.simps by blast
next
  case (EXor es)
  then have "Suc (fold max (List.map nesting es) 0) \<le> length (Join (List.map (render 1) es) '' xor '')"
    by (intro nesting_Join) (auto simp: list_all_iff)
  then show ?case using length_paren le_trans unfolding nesting.simps render.simps by blast
qed simp

lemma parses_ParsePolicy:
  assumes "parses 0 (length (t @ r)) name t p" "starts {CHR ''$'', CHR ''('', CHR ''n''} t" "cont 0 r"
  shows "ParsePolicy name (t @ r) = Ok (p, SkipWhitespace r)"
  using assms starts_not_space [OF assms(2), of r]
  by (simp add: ParsePolicy_def parser_at_def parses_def left_over_def)

text \<open>
  C4. Parsing the text of a policy gives the policy: for every expression over conditions
  that parse, with sets of at least two members, \<open>ParsePolicy\<close> reads the whole text and returns
  the expression's policy, children named after their set. Hence \<open>xor\<close> binds weaker than
  \<open>or\<close>, \<open>or\<close> weaker than \<open>and\<close>, \<open>and\<close> weaker than \<open>not\<close>, and parentheses group.
\<close>

theorem ParsePolicy_render:
  assumes "expr_ok e"
  shows "ParsePolicy name (render 0 e) = Ok (policy_of name e, [])"
proof -
  have "parses 0 (length (render 0 e @ [])) name (render 0 e) (policy_of name e)"
    using assms nesting_length by (intro parses_render) auto
  from parses_ParsePolicy [OF this starts_render [OF assms] cont_Nil] show ?thesis
    by (simp add: SkipWhitespace_def)
qed

definition example_expr :: expr where
  "example_expr =
     EAnd [ECond ''user'' ''roles'' ''list_contains'' ''admin''
             \<lparr>gc_Op = ''StringListContains'',
               gc_Condition = Some (StringListContains (zero_variable ''admin''))\<rparr>,
           ENot (ECond ''action'' ''args.0'' ''prefix'' ''127.''
             \<lparr>gc_Op = ''StringPrefix'', gc_Condition = Some (StringPrefix (zero_variable ''127.''))\<rparr>)]"

theorem ParsePolicy_render_witness:
  "expr_ok example_expr \<and>
   ParsePolicy ''p'' ([CHR ''$''] @ ''user.roles list_contains '' @ quoted ''admin'' @
      '' and not $action.args.0 prefix '' @ quoted ''127.'') = Ok (policy_of ''p'' example_expr, [])"
proof -
  have u: "Unquote (quoted ''admin'') = Some ''admin''" "Unquote (quoted ''127.'') = Some ''127.''"
    by (intro Unquote_quoted; simp add: plain_char_def)+
  have i: "list_all ident_char ''roles''" "list_all ident_char ''args.0''"
    "ident_text ''list_contains''" "ident_text ''prefix''"
    by (simp_all add: ident_char_def ident_text_def is_letter_def is_digit_def)
  have "expr_ok example_expr"
    using i u by (simp add: example_expr_def condition_ok_def plain_char_def generic_Parse_def resolve_alias_def
        CompareOpAlias_def find_operation_def CompareOpFactory_def StringListContains_Parse_def
        StringPrefix_Parse_def parse_unary_def ParseString_def parseString_def quoted_def zero_variable_def)
  moreover from ParsePolicy_render [OF this, of "''p''"] have
    "ParsePolicy ''p'' ([CHR ''$''] @ ''user.roles list_contains '' @ quoted ''admin'' @
      '' and not $action.args.0 prefix '' @ quoted ''127.'') = Ok (policy_of ''p'' example_expr, [])"
    by (simp add: example_expr_def condition_text_def paren_def)
  ultimately show ?thesis by blast
qed

text \<open>
  C11. A policy text is not checked to its end: whatever follows a policy, after a space or a
  closing parenthesis, and does not begin with one of the five separators is dropped, and
  \<open>MustParsePolicy\<close> returns the policy read so far instead of panicking. An operator the
  language does not know, such as a capitalised \<open>AND\<close>, therefore silently ends the policy.
\<close>

theorem MustParsePolicy_drops_rest:
  assumes "expr_ok e" "r = [] \<or> hd r = CHR '' '' \<or> hd r = CHR '')''"
    and "\<forall>sep \<in> {''and'', ''&&'', ''or'', ''||'', ''xor''}. \<not> HasPrefix (SkipWhitespace r) sep"
  shows "MustParsePolicy name (render 0 e @ r) = Ok (policy_of name e)"
proof -
  have "cont 0 r" using assms(2,3) by (auto simp: cont_def boundary_def seps_at_def Expect_def)
  moreover have "nesting e \<le> length (render 0 e @ r)"
    using nesting_length [OF assms(1), of 0] by simp
  ultimately show ?thesis
    using parses_ParsePolicy [OF parses_render starts_render, of e r name] assms(1)
    by (simp add: MustParsePolicy_def)
qed

theorem MustParsePolicy_drops_rest_witness:
  "expr_ok (ECond ''user'' ''role'' ''str_eq'' ''guest''
      \<lparr>gc_Op = ''StringEquals'', gc_Condition = Some (StringEquals (zero_variable ''guest''))\<rparr>) \<and>
   MustParsePolicy ''p'' ([CHR ''$''] @ ''user.role str_eq '' @ quoted ''guest'' @ '' AND $env.safe == 1'') =
     Ok (NewAttributePolicy ''p'' ''user'' ''role''
       \<lparr>gc_Op = ''StringEquals'', gc_Condition = Some (StringEquals (zero_variable ''guest''))\<rparr>)"
proof -
  let ?e = "ECond ''user'' ''role'' ''str_eq'' ''guest''
      \<lparr>gc_Op = ''StringEquals'', gc_Condition = Some (StringEquals (zero_variable ''guest''))\<rparr>"
  have u: "Unquote (quoted ''guest'') = Some ''guest''" by (rule Unquote_quoted) (simp add: plain_char_def)
  have "expr_ok ?e"
    using u by (simp add: condition_ok_def plain_char_def ident_text_def ident_char_def is_letter_def
        generic_Parse_def resolve_alias_def CompareOpAlias_def find_operation_def CompareOpFactory_def
        StringEquals_Parse_def parse_unary_def ParseString_def parseString_def quoted_def zero_variable_def)
  moreover from MustParsePolicy_drops_rest [OF this, of "'' AND $env.safe == 1''" "''p''"]
  have "MustParsePolicy ''p'' ([CHR ''$''] @ ''user.role str_eq '' @ quoted ''guest'' @ '' AND $env.safe == 1'') =
     Ok (policy_of ''p'' ?e)"
    by (simp add: condition_text_def HasPrefix_def SkipWhitespace_def is_space_def)
  ultimately show ?thesis by simp
qed

end
