(* ===== verification/Authority_Policies.thy ===== *)
theory Authority_Policies
  imports Policy_Laws Policy_Roundtrip
begin

text \<open>
  The predefined policies on authorities, followed from their text to the decision of the access
  controller: parser, attribute resolution, hierarchy of authorities and comparison together.
\<close>


section \<open>Authority policies, from text to decision\<close>

text \<open>
  The predefined policies restrict an action to the authorities below a given one with the text
  \<open>$user.authority.full_name suffix $env.authority.<path>.\<close>, whose trailing dot selects the
  dotted full name of the authority at the path.
\<close>

definition authority_policy_text :: "string list \<Rightarrow> string" where
  "authority_policy_text path =
     ''$user.authority.full_name suffix $env.authority.'' @ Join path ''.'' @ ''.''"

definition path_segment :: "string \<Rightarrow> bool" where
  "path_segment s \<longleftrightarrow> s \<noteq> [] \<and> list_all (\<lambda>c. is_letter c \<or> is_digit c) s"

lemma path_segment_no_dot: "path_segment s \<Longrightarrow> CHR ''.'' \<notin> set s"
  by (auto simp: path_segment_def list_all_iff is_letter_def is_digit_def)

lemma path_segment_ident: "path_segment s \<Longrightarrow> list_all ident_char s"
  by (auto simp: path_segment_def list_all_iff ident_char_def)

lemma Join_ident: "list_all path_segment path \<Longrightarrow> list_all ident_char (Join path ''.'')"
  by (induction path "''.''" rule: Join.induct) (auto simp: path_segment_ident ident_char_def)

lemma Split_authority_variable:
  assumes "list_all path_segment path" "path \<noteq> []"
  shows "Split (CHR ''.'') (''env.authority.'' @ Join path ''.'' @ ''.'') = ''env'' # ''authority'' # path @ [[]]"
proof -
  have seg: "\<forall>x\<in>set path. CHR ''.'' \<notin> set x"
    using assms(1) path_segment_no_dot by (auto simp: list_all_iff)
  have J: "Join path ''.'' @ ''.'' = Join (path @ [[]]) ''.''"
    using assms(2) by (simp add: Join_append)
  have "Split (CHR ''.'') (Join (path @ [[]]) ''.'') = path @ [[]]"
    using seg by (intro Split_Join) auto
  then show ?thesis by (simp add: J del: Join_append)
qed

definition authority_policy :: "string \<Rightarrow> string list \<Rightarrow> policy" where
  "authority_policy name path =
     NewAttributePolicy name ''user'' ''authority.full_name''
       \<lparr>gc_Op = ''StringSuffix'', gc_Condition = Some (StringSuffix
          \<lparr>mv_Value = [], mv_Precompiled = None, mv_Variable = ''env'' # ''authority'' # path @ [[]]\<rparr>)\<rparr>"

lemma authority_policy_parsed:
  assumes "list_all path_segment path" "path \<noteq> []"
  shows "MustParsePolicy name (authority_policy_text path) = Ok (authority_policy name path)"
proof -
  let ?var = "''env.authority.'' @ Join path ''.'' @ ''.''"
  let ?t = "variable_text ''user'' ''authority.full_name'' ''suffix'' ?var"
  have t: "authority_policy_text path = ?t" by (simp add: authority_policy_text_def variable_text_def)
  have id: "list_all ident_char ''authority.full_name''" "ident_text ''suffix''" "ident_text ?var"
    using Join_ident [OF assms(1)] by (simp_all add: ident_text_def ident_char_def is_letter_def)
  have g: "generic_Parse [''suffix'', CHR ''$'' # ?var] =
      Ok \<lparr>gc_Op = ''StringSuffix'', gc_Condition = Some (StringSuffix
          \<lparr>mv_Value = [], mv_Precompiled = None, mv_Variable = ''env'' # ''authority'' # path @ [[]]\<rparr>)\<rparr>"
    unfolding Split_authority_variable [OF assms, symmetric]
    by (simp add: generic_Parse_def resolve_alias_def CompareOpAlias_def find_operation_def
        CompareOpFactory_def StringSuffix_Parse_def parse_unary_def ParseString_def zero_variable_def)
  have "parses 0 (length (?t @ [])) name ?t (authority_policy name path)"
    using ParsePure_variable [OF _ id(1,2,3) g, of "''user''"]
    by (intro parses_atom) (simp_all add: starts_def variable_text_def authority_policy_def)
  from parses_ParsePolicy [OF this _ cont_Nil] show ?thesis
    by (simp add: MustParsePolicy_def t starts_def variable_text_def)
qed

lemma authority_policy_holds:
  assumes user: "pc_user ctx = Some (UserContext a inner)" "FullName (pc_hierarchy ctx) a = Some (r # u)"
    and env: "pc_environment ctx = Some env"
      "GetAttribute (pc_hierarchy ctx) env ''authority'' = Ok (AuthorityAttributeMapper 0)"
    and path: "GetDescendant (pc_hierarchy ctx) path = Some b" "FullName (pc_hierarchy ctx) b = Some (r # path)"
    and ok: "list_all path_segment path" "dot_free u"
  shows "holds ctx (authority_policy name path) \<longleftrightarrow> strict_prefix path u"
proof -
  have "[] \<notin> set path" and df: "dot_free path"
    using ok(1) path_segment_no_dot by (auto simp: list_all_iff path_segment_def dot_free_def)
  with Resolve_env_authority [OF env path(1) _ path(2)]
  have e: "Resolve ''env'' (''authority'' # path @ [[]]) ctx = Ok (AString (''.'' @ CommonName (r # path)))"
    by simp
  have u: "Resolve ''user'' [''authority'', ''full_name''] ctx = Ok (AString (CommonName (r # u)))"
    using user by (rule Resolve_user_full_name)
  have s: "Split (CHR ''.'') ''authority.full_name'' = [''authority'', ''full_name'']" by simp
  show ?thesis
    using e CommonName_suffix_iff [OF ok(2) df, of r]
    by (simp add: authority_policy_def NewAttributePolicy_def attribute_holds_def u s generic_Compare_def
        StringSuffix_Compare_def compare_unary_Ok string_type_def read_value_def IsVariable_def new_resolver_def)
qed

text \<open>
  C1. The predefined authority policies grant exactly the strict descendants: the text with
  the path of an existing authority parses, and the policy it gives is decided, without
  panicking, as satisfied exactly when the user's authority lies strictly below that authority.
  Neither the authority itself nor one whose name merely ends with the same characters passes.
\<close>

theorem authority_policy_correct:
  assumes ctx: "context_ok ctx" and reach: "authority_reachable r (pc_hierarchy ctx)"
    and user: "pc_user ctx = Some (UserContext a inner)" "GetDescendant (pc_hierarchy ctx) u = Some a" "dot_free u"
    and env: "pc_environment ctx = Some env"
      "GetAttribute (pc_hierarchy ctx) env ''authority'' = Ok (AuthorityAttributeMapper 0)"
    and path: "GetDescendant (pc_hierarchy ctx) path = Some b" "list_all path_segment path" "path \<noteq> []"
  shows "\<exists>pol d new. MustParsePolicy name (authority_policy_text path) = Ok pol \<and>
           Satisfy ctx pol log = (Ok d, log @ new) \<and> (Result d \<longleftrightarrow> strict_prefix path u)"
proof -
  have ok: "authority_ok (pc_hierarchy ctx)" and root: "an_name (pc_hierarchy ctx ! 0) = r"
    using authority_reachable_inv [OF reach] by auto
  have names: "FullName (pc_hierarchy ctx) a = Some (r # u)" "FullName (pc_hierarchy ctx) b = Some (r # path)"
    using GetDescendant_FullName(2) [OF ok] user(2) path(1) root by fastforce+
  obtain d new where "Satisfy ctx (authority_policy name path) log = (Ok d, log @ new)"
    "Result d = holds ctx (authority_policy name path)"
    using Satisfy_decides [OF ctx, of "authority_policy name path" log] by (metis decidesE)
  with authority_policy_holds [OF user(1) names(1) env path(1) names(2) path(2) user(3), of name]
    authority_policy_parsed [OF path(2,3), of name] show ?thesis by blast
qed

theorem authority_policy_correct_witness:
  "\<exists>pol d new. MustParsePolicy ''p'' ''$user.authority.full_name suffix $env.authority.admin.'' = Ok pol \<and>
     Satisfy example_context pol [] = (Ok d, new) \<and> Result d"
proof -
  have h: "pc_hierarchy example_context = example_hierarchy" by (simp add: example_context_def)
  have "GetDescendant example_hierarchy [''admin'', ''ca''] = Some 2" "GetDescendant example_hierarchy [''admin''] = Some 1"
    by (simp_all add: GetDescendant_def example_hierarchy_def GetChild_def)
  moreover have "list_all path_segment [''admin'']"
    by (simp add: path_segment_def is_letter_def)
  moreover have "strict_prefix [''admin''] [''admin'', ''ca'']" by simp
  moreover have "authority_policy_text [''admin''] = ''$user.authority.full_name suffix $env.authority.admin.''"
    by (simp add: authority_policy_text_def)
  ultimately show ?thesis
    using authority_policy_correct [of example_context "''local''" 2 _ "[''admin'', ''ca'']" _ "[''admin'']" 1 "''p''" "[]"]
      example_context_ok example_reachable
    by (simp add: h) (simp add: example_context_def NewUserContext_def NewEnvironment_def
        NewAttributeManager_def dot_free_def lookup_attribute_def)
qed

end
