(* ===== verification/Http2_Frame.thy ===== *)
theory Http2_Frame
  imports Kscale_Prelude
begin

text \<open>
  The frames of HTTP/2: \<open>protobuf/wire/h2/http2_frame.go\<close>. A frame has a header of nine bytes
  (payload length, type, flags, stream) and a body whose form the type and the flags choose. The
  generated structs keep several fields in one word; the records here keep the same words, and the
  getters and setters are the shifts and masks of the source.

  A decoder gets what is left of the buffer and returns what is left after it; an encoder appends
  to a buffer.
\<close>

section \<open>Bit fields\<close>

text \<open>The \<open>n\<close> bits of \<open>w\<close> from bit \<open>k\<close> on, and \<open>w\<close> with them replaced by the low bits of \<open>v\<close>.\<close>

definition get_bits :: "nat \<Rightarrow> nat \<Rightarrow> 'a::len word \<Rightarrow> 'a word" where
  "get_bits k n w = drop_bit k w AND mask n"

definition set_bits :: "nat \<Rightarrow> nat \<Rightarrow> 'a::len word \<Rightarrow> 'a word \<Rightarrow> 'a word" where
  "set_bits k n v w = (w AND NOT (push_bit k (mask n))) OR push_bit k (v AND mask n)"

lemma bit_get_bits: "bit (get_bits k n w) i \<longleftrightarrow> i < n \<and> bit w (k + i)"
  by (auto simp: get_bits_def bit_simps ac_simps dest: bit_imp_le_length)

lemma bit_set_bits:
  fixes w :: "'a::len word"
  shows "bit (set_bits k n v w) i \<longleftrightarrow>
    i < LENGTH('a) \<and> (if k \<le> i \<and> i < k + n then bit v (i - k) else bit w i)"
  by (auto simp: set_bits_def bit_simps dest: bit_imp_le_length)

lemma get_set_bits:
  fixes w :: "'a::len word"
  assumes "k + n \<le> LENGTH('a)"
  shows "get_bits k n (set_bits k n v w) = v AND mask n"
  using assms by (intro bit_word_eqI) (auto simp: bit_get_bits bit_set_bits bit_simps)

lemma get_set_other_bits:
  fixes w :: "'a::len word"
  assumes "k + n \<le> LENGTH('a)" "k + n \<le> k' \<or> k' + n' \<le> k"
  shows "get_bits k n (set_bits k' n' v w) = get_bits k n w"
  using assms by (intro bit_word_eqI) (auto simp: bit_get_bits bit_set_bits)

text \<open>A word is its two parts.\<close>

lemma word_of_parts:
  fixes w w' :: "'a::len word"
  assumes "get_bits 0 k w = get_bits 0 k w'" "get_bits k n w = get_bits k n w'" "LENGTH('a) \<le> k + n"
  shows "w = w'"
proof (rule bit_word_eqI)
  fix i assume i: "i < LENGTH('a)"
  show "bit w i \<longleftrightarrow> bit w' i"
  proof (cases "i < k")
    case True
    with assms(1) show ?thesis by (metis bit_get_bits add_0)
  next
    case False
    then have "k + (i - k) = i" by simp
    moreover have "i - k < n" using i assms(3) False by simp
    ultimately show ?thesis using assms(2) by (metis bit_get_bits)
  qed
qed

section \<open>Big-endian numbers\<close>

text \<open>\<open>binary.BigEndian\<close> of the package \<open>encoding/binary\<close>.\<close>

definition PutUint16 :: "u16 \<Rightarrow> u8 list" where
  "PutUint16 v = [ucast (drop_bit 8 v), ucast v]"

definition PutUint32 :: "u32 \<Rightarrow> u8 list" where
  "PutUint32 v = [ucast (drop_bit 24 v), ucast (drop_bit 16 v), ucast (drop_bit 8 v), ucast v]"

definition PutUint64 :: "u64 \<Rightarrow> u8 list" where
  "PutUint64 v =
     [ucast (drop_bit 56 v), ucast (drop_bit 48 v), ucast (drop_bit 40 v), ucast (drop_bit 32 v),
      ucast (drop_bit 24 v), ucast (drop_bit 16 v), ucast (drop_bit 8 v), ucast v]"

definition Uint16 :: "u8 list \<Rightarrow> u16" where
  "Uint16 b = ucast (b ! 1) OR push_bit 8 (ucast (b ! 0))"

definition Uint32 :: "u8 list \<Rightarrow> u32" where
  "Uint32 b = ucast (b ! 3) OR push_bit 8 (ucast (b ! 2)) OR push_bit 16 (ucast (b ! 1)) OR push_bit 24 (ucast (b ! 0))"

definition Uint64 :: "u8 list \<Rightarrow> u64" where
  "Uint64 b =
     ucast (b ! 7) OR push_bit 8 (ucast (b ! 6)) OR push_bit 16 (ucast (b ! 5)) OR push_bit 24 (ucast (b ! 4)) OR
     push_bit 32 (ucast (b ! 3)) OR push_bit 40 (ucast (b ! 2)) OR push_bit 48 (ucast (b ! 1)) OR push_bit 56 (ucast (b ! 0))"

lemma PutUint_length [simp]:
  "length (PutUint16 v) = 2" "length (PutUint32 w) = 4" "length (PutUint64 x) = 8"
  by (simp_all add: PutUint16_def PutUint32_def PutUint64_def)

lemma Uint16_PutUint16 [simp]: "Uint16 (PutUint16 v) = v"
proof (rule bit_word_eqI)
  fix i assume "i < LENGTH(16)"
  then show "bit (Uint16 (PutUint16 v)) i \<longleftrightarrow> bit v i"
    by (cases "i < 8") (auto simp: Uint16_def PutUint16_def bit_simps)
qed

lemma Uint32_PutUint32 [simp]: "Uint32 (PutUint32 v) = v"
proof (rule bit_word_eqI)
  fix i assume "i < LENGTH(32)"
  then consider "i < 8" | "8 \<le> i \<and> i < 16" | "16 \<le> i \<and> i < 24" | "24 \<le> i \<and> i < 32" by fastforce
  then show "bit (Uint32 (PutUint32 v)) i \<longleftrightarrow> bit v i"
    by cases (auto simp: Uint32_def PutUint32_def bit_simps)
qed

lemma Uint64_PutUint64 [simp]: "Uint64 (PutUint64 v) = v"
proof (rule bit_word_eqI)
  fix i assume "i < LENGTH(64)"
  then consider "i < 8" | "8 \<le> i \<and> i < 16" | "16 \<le> i \<and> i < 24" | "24 \<le> i \<and> i < 32" |
    "32 \<le> i \<and> i < 40" | "40 \<le> i \<and> i < 48" | "48 \<le> i \<and> i < 56" | "56 \<le> i \<and> i < 64" by fastforce
  then show "bit (Uint64 (PutUint64 v)) i \<longleftrightarrow> bit v i"
    by cases (auto simp: Uint64_def PutUint64_def bit_simps)
qed

section \<open>Stream identifiers\<close>

text \<open>
  Five structs hold a reserved bit and a 31-bit number in one word, and write and read it with the
  same lines: the stream of a frame, the dependency of a \<open>StreamWeight\<close>, the promised stream, the last
  stream of a GOAWAY, the increment of a WINDOW_UPDATE.
\<close>

definition number31 :: "u32 \<Rightarrow> u32" where
  "number31 w = get_bits 0 31 w"

definition set_number31 :: "u32 \<Rightarrow> u32 \<Rightarrow> u32" where
  "set_number31 v w = set_bits 0 31 v w"

definition reserved31 :: "u32 \<Rightarrow> u8" where
  "reserved31 w = ucast (get_bits 31 1 w)"

definition append31 :: "u32 \<Rightarrow> u8 list" where
  "append31 w =
     [push_bit 7 (reserved31 w AND 1) OR ucast (drop_bit 24 (number31 w) AND 127),
      ucast (drop_bit 16 (number31 w) AND 255),
      ucast (drop_bit 8 (number31 w) AND 255),
      ucast (number31 w AND 255)]"

definition decode31 :: "u8 list \<Rightarrow> u32 \<Rightarrow> u32" where
  "decode31 b w =
     (let w = set_bits 31 1 (ucast (drop_bit 7 (b ! 0 AND 128))) w;
          v = push_bit 24 (ucast (b ! 0 AND 127)) OR push_bit 16 (ucast (b ! 1)) OR push_bit 8 (ucast (b ! 2)) OR
              ucast (b ! 3)
      in set_number31 v w)"

lemma append31_length [simp]: "length (append31 w) = 4"
  by (simp add: append31_def)

lemma bit_mask_constants:
  "bit (127 :: int) i \<longleftrightarrow> i < 7"
  "bit (255 :: int) i \<longleftrightarrow> i < 8"
  "bit (128 :: int) i \<longleftrightarrow> i = 7"
proof -
  have m: "(127 :: int) = mask 7" "(255 :: int) = mask 8" "(128 :: int) = push_bit 7 1"
    by (simp_all add: mask_eq_exp_minus_1)
  show "bit (127 :: int) i \<longleftrightarrow> i < 7" "bit (255 :: int) i \<longleftrightarrow> i < 8" by (simp_all add: m bit_simps)
  show "bit (128 :: int) i \<longleftrightarrow> i = 7" unfolding m(3) bit_push_bit_iff bit_1_iff possible_bit_def by auto
qed

lemma decode31_append31 [simp]: "decode31 (append31 w) w0 = w"
proof (rule bit_word_eqI)
  fix i assume "i < LENGTH(32)"
  then consider "i < 8" | "8 \<le> i \<and> i < 16" | "16 \<le> i \<and> i < 24" | "24 \<le> i \<and> i < 31" | "i = 31" by fastforce
  then show "bit (decode31 (append31 w) w0) i \<longleftrightarrow> bit w i"
    by cases (auto simp: decode31_def append31_def Let_def set_number31_def number31_def reserved31_def
        bit_set_bits bit_get_bits bit_mask_constants bit_simps )
qed

lemma number31_set [simp]: "number31 (set_number31 v w) = v AND mask 31"
  by (simp add: number31_def set_number31_def get_set_bits)

lemma reserved31_set [simp]: "reserved31 (set_number31 v w) = reserved31 w"
  by (simp add: reserved31_def set_number31_def get_set_other_bits)

lemma number31_bound: "unat (number31 w) < 2 ^ 31"
proof -
  have "number31 w = take_bit 31 w" by (simp add: number31_def get_bits_def take_bit_eq_mask)
  then show ?thesis using take_bit_nat_less_exp [of 31 "unat w"] by (simp add: unsigned_take_bit_eq)
qed

section \<open>Frame headers\<close>

type_synonym Flags = u8
type_synonym H2Type = u8

definition H2Type_DATA :: H2Type where [simp]: "H2Type_DATA = 0"
definition H2Type_HEADERS :: H2Type where [simp]: "H2Type_HEADERS = 1"
definition H2Type_PRIORITY :: H2Type where [simp]: "H2Type_PRIORITY = 2"
definition H2Type_RST_STREAM :: H2Type where [simp]: "H2Type_RST_STREAM = 3"
definition H2Type_SETTINGS :: H2Type where [simp]: "H2Type_SETTINGS = 4"
definition H2Type_PUSH_PROMISE :: H2Type where [simp]: "H2Type_PUSH_PROMISE = 5"
definition H2Type_PING :: H2Type where [simp]: "H2Type_PING = 6"
definition H2Type_GOAWAY :: H2Type where [simp]: "H2Type_GOAWAY = 7"
definition H2Type_WINDOW_UPDATE :: H2Type where [simp]: "H2Type_WINDOW_UPDATE = 8"
definition H2Type_CONTINUATION :: H2Type where [simp]: "H2Type_CONTINUATION = 9"

datatype frame_error =
    NotEnoughData
  | AssertionFailed
  | SizeMismatch
  | InvalidUnion
  | RemainingBytes nat

definition ReservedFlag1 :: "Flags \<Rightarrow> u8" where "ReservedFlag1 f = get_bits 6 2 f"
definition flag_priority :: "Flags \<Rightarrow> u8" where "flag_priority f = get_bits 5 1 f"
definition reservedFlag2 :: "Flags \<Rightarrow> u8" where "reservedFlag2 f = get_bits 4 1 f"
definition flag_padding :: "Flags \<Rightarrow> u8" where "flag_padding f = get_bits 3 1 f"
definition endHeaders :: "Flags \<Rightarrow> u8" where "endHeaders f = get_bits 2 1 f"
definition unused_flag :: "Flags \<Rightarrow> u8" where "unused_flag f = get_bits 1 1 f"
definition endStreamOrAck :: "Flags \<Rightarrow> u8" where "endStreamOrAck f = get_bits 0 1 f"

definition bool_bit :: "bool \<Rightarrow> u8" where
  "bool_bit b = (if b then 1 else 0)"

definition EndHeaders :: "Flags \<Rightarrow> bool" where "EndHeaders f \<longleftrightarrow> endHeaders f \<noteq> 0"
definition SetEndHeaders :: "bool \<Rightarrow> Flags \<Rightarrow> Flags" where "SetEndHeaders b f = set_bits 2 1 (bool_bit b) f"
definition EndStreamOrAck :: "Flags \<Rightarrow> bool" where "EndStreamOrAck f \<longleftrightarrow> endStreamOrAck f \<noteq> 0"
definition SetEndStreamOrAck :: "bool \<Rightarrow> Flags \<Rightarrow> Flags" where "SetEndStreamOrAck b f = set_bits 0 1 (bool_bit b) f"

definition Flags_Append :: "Flags \<Rightarrow> u8 list \<Rightarrow> (frame_error, u8 list) outcome" where
  "Flags_Append f buf =
     (if ReservedFlag1 f \<noteq> 0 then Err AssertionFailed
      else if reservedFlag2 f \<noteq> 0 then Err AssertionFailed
      else Ok (buf @
        [push_bit 6 (ReservedFlag1 f AND 3) OR push_bit 5 (flag_priority f AND 1) OR
         push_bit 4 (reservedFlag2 f AND 1) OR push_bit 3 (flag_padding f AND 1) OR
         push_bit 2 (endHeaders f AND 1) OR push_bit 1 (unused_flag f AND 1) OR (endStreamOrAck f AND 1)]))"

definition read_bytes :: "nat \<Rightarrow> u8 list \<Rightarrow> (frame_error, u8 list \<times> u8 list) outcome" where
  "read_bytes n r = (if length r < n then Err NotEnoughData else Ok (take n r, drop n r))"

text \<open>The flags are decoded into a struct that holds the flags of the frame before.\<close>

definition Flags_DecodeSlice :: "Flags \<Rightarrow> u8 list \<Rightarrow> (frame_error, Flags \<times> u8 list) outcome" where
  "Flags_DecodeSlice f r =
     bind_outcome (read_bytes 1 r) (\<lambda>(b, r).
       let f = set_bits 6 2 (drop_bit 6 (b ! 0 AND 192)) f in
       if ReservedFlag1 f \<noteq> 0 then Err AssertionFailed
       else
         let f = set_bits 5 1 (drop_bit 5 (b ! 0 AND 32)) f;
             f = set_bits 4 1 (drop_bit 4 (b ! 0 AND 16)) f
         in
         if reservedFlag2 f \<noteq> 0 then Err AssertionFailed
         else
           let f = set_bits 3 1 (drop_bit 3 (b ! 0 AND 8)) f;
               f = set_bits 2 1 (drop_bit 2 (b ! 0 AND 4)) f;
               f = set_bits 1 1 (drop_bit 1 (b ! 0 AND 2)) f;
               f = set_bits 0 1 (b ! 0 AND 1) f
           in Ok (f, r))"

record FrameHeader =
  len_type :: u32
  hdr_flags :: Flags
  res_id :: u32

definition zero_header :: FrameHeader where
  "zero_header = \<lparr> len_type = 0, hdr_flags = 0, res_id = 0 \<rparr>"

definition Len :: "FrameHeader \<Rightarrow> u32" where "Len f = get_bits 8 24 (len_type f)"
definition SetLen :: "u32 \<Rightarrow> FrameHeader \<Rightarrow> FrameHeader" where
  "SetLen v f = f\<lparr> len_type := set_bits 8 24 v (len_type f) \<rparr>"
definition Type :: "FrameHeader \<Rightarrow> H2Type" where "Type f = ucast (get_bits 0 8 (len_type f))"
definition SetType :: "H2Type \<Rightarrow> FrameHeader \<Rightarrow> FrameHeader" where
  "SetType v f = f\<lparr> len_type := set_bits 0 8 (ucast v) (len_type f) \<rparr>"
definition StreamId :: "FrameHeader \<Rightarrow> u32" where "StreamId f = number31 (res_id f)"
definition SetStreamId :: "u32 \<Rightarrow> FrameHeader \<Rightarrow> FrameHeader" where
  "SetStreamId v f = f\<lparr> res_id := set_number31 v (res_id f) \<rparr>"

definition FrameHeader_Append :: "FrameHeader \<Rightarrow> u8 list \<Rightarrow> (frame_error, u8 list) outcome" where
  "FrameHeader_Append f buf =
     (let buf = buf @ [ucast (drop_bit 16 (Len f) AND 255), ucast (drop_bit 8 (Len f) AND 255), ucast (Len f AND 255)];
          buf = buf @ [Type f]
      in bind_outcome (Flags_Append (hdr_flags f) buf) (\<lambda>buf. Ok (buf @ append31 (res_id f))))"

definition FrameHeader_DecodeSlice ::
    "FrameHeader \<Rightarrow> u8 list \<Rightarrow> (frame_error, FrameHeader \<times> u8 list) outcome" where
  "FrameHeader_DecodeSlice f r =
     bind_outcome (read_bytes 3 r) (\<lambda>(b, r).
     let f = SetLen (push_bit 16 (ucast (b ! 0)) OR push_bit 8 (ucast (b ! 1)) OR ucast (b ! 2)) f in
     bind_outcome (read_bytes 1 r) (\<lambda>(b, r).
     let f = SetType (b ! 0) f in
     bind_outcome (Flags_DecodeSlice (hdr_flags f) r) (\<lambda>(flags, r).
     let f = f\<lparr> hdr_flags := flags \<rparr> in
     bind_outcome (read_bytes 4 r) (\<lambda>(b, r).
     Ok (f\<lparr> res_id := decode31 b (res_id f) \<rparr>, r)))))"

definition decode_exact :: "(frame_error, 'a \<times> u8 list) outcome \<Rightarrow> (frame_error, 'a) outcome" where
  "decode_exact m =
     bind_outcome m (\<lambda>(a, remain). if remain \<noteq> [] then Err (RemainingBytes (length remain)) else Ok a)"

definition FrameHeader_DecodeExact :: "FrameHeader \<Rightarrow> u8 list \<Rightarrow> (frame_error, FrameHeader) outcome" where
  "FrameHeader_DecodeExact f buf = decode_exact (FrameHeader_DecodeSlice f buf)"

lemma bits8:
  fixes w w' :: u8
  assumes "bit w 0 = bit w' 0" "bit w 1 = bit w' 1" "bit w 2 = bit w' 2" "bit w 3 = bit w' 3"
    "bit w 4 = bit w' 4" "bit w 5 = bit w' 5" "bit w 6 = bit w' 6" "bit w 7 = bit w' 7"
  shows "w = w'"
proof (rule bit_word_eqI)
  fix i assume "i < LENGTH(8)"
  then have "i \<in> {0, 1, 2, 3, 4, 5, 6, 7}" by auto
  then show "bit w i = bit w' i" using assms by auto
qed

lemma bit_times_2: "bit (w * 2) i \<longleftrightarrow> 0 < i \<and> i < 8 \<and> bit w (i - 1)" for w :: u8
proof -
  have "w * 2 = push_bit 1 w" by simp
  then show ?thesis by (simp only: bit_push_bit_iff) auto
qed

lemma reserved_flags:
  "ReservedFlag1 f = 0 \<longleftrightarrow> \<not> bit f 6 \<and> \<not> bit f 7"
  "reservedFlag2 f = 0 \<longleftrightarrow> \<not> bit f 4"
proof -
  have two: "{..<2::nat} = {0, 1}" by auto
  have "ReservedFlag1 f = 0 \<longleftrightarrow> (\<forall>i \<in> {..<2}. \<not> bit f (6 + i))"
    by (auto simp: bit_eq_iff ReservedFlag1_def bit_get_bits)
  also have "\<dots> \<longleftrightarrow> \<not> bit f 6 \<and> \<not> bit f 7" unfolding two by simp
  finally show "ReservedFlag1 f = 0 \<longleftrightarrow> \<not> bit f 6 \<and> \<not> bit f 7" .
  have one: "{..<1::nat} = {0}" by auto
  have "reservedFlag2 f = 0 \<longleftrightarrow> (\<forall>i \<in> {..<1}. \<not> bit f (4 + i))"
    by (auto simp: bit_word_eqI bit_get_bits reservedFlag2_def intro!: bit_word_eqI dest: arg_cong [of _ 0 "\<lambda>w. bit w 0"])
  then show "reservedFlag2 f = 0 \<longleftrightarrow> \<not> bit f 4" unfolding one by simp
qed

lemma Flags_Append_ok:
  assumes "ReservedFlag1 f = 0" "reservedFlag2 f = 0"
  shows "Flags_Append f buf = Ok (buf @ [f])"
proof -
  have "push_bit 6 (ReservedFlag1 f AND 3) OR push_bit 5 (flag_priority f AND 1) OR
      push_bit 4 (reservedFlag2 f AND 1) OR push_bit 3 (flag_padding f AND 1) OR
      push_bit 2 (endHeaders f AND 1) OR push_bit 1 (unused_flag f AND 1) OR (endStreamOrAck f AND 1) = f"
    using assms(1,2) assms [unfolded reserved_flags]
    by (intro bits8) (auto simp: flag_priority_def flag_padding_def endHeaders_def unused_flag_def
        endStreamOrAck_def bit_get_bits bit_simps bit_times_2)
  then show ?thesis using assms by (simp add: Flags_Append_def)
qed

lemma Flags_DecodeSlice_ok:
  assumes "ReservedFlag1 b = 0" "reservedFlag2 b = 0"
  shows "Flags_DecodeSlice f (b # r) = Ok (b, r)"
proof -
  let ?f1 = "set_bits 6 2 (drop_bit 6 (b AND 192)) f"
  let ?f3 = "set_bits 4 1 (drop_bit 4 (b AND 16)) (set_bits 5 1 (drop_bit 5 (b AND 32)) ?f1)"
  have "ReservedFlag1 ?f1 = 0" "reservedFlag2 ?f3 = 0"
    using assms by (simp_all add: reserved_flags bit_set_bits bit_simps)
  moreover have "set_bits 0 1 (b AND 1) (set_bits 1 1 (drop_bit 1 (b AND 2)) (set_bits 2 1 (drop_bit 2 (b AND 4))
      (set_bits 3 1 (drop_bit 3 (b AND 8)) ?f3))) = b"
    using assms by (intro bits8) (simp_all add: reserved_flags bit_set_bits bit_simps)
  ultimately show ?thesis by (simp add: Flags_DecodeSlice_def read_bytes_def Let_def)
qed

text \<open>A flag bit outside of those the struct names ends the decoding.\<close>

lemma Flags_DecodeSlice_reserved:
  assumes "\<not> (ReservedFlag1 b = 0 \<and> reservedFlag2 b = 0)"
  shows "Flags_DecodeSlice f (b # r) = Err AssertionFailed"
proof -
  let ?f1 = "set_bits 6 2 (drop_bit 6 (b AND 192)) f"
  let ?f3 = "set_bits 4 1 (drop_bit 4 (b AND 16)) (set_bits 5 1 (drop_bit 5 (b AND 32)) ?f1)"
  have "ReservedFlag1 ?f1 = 0 \<longleftrightarrow> ReservedFlag1 b = 0" "reservedFlag2 ?f3 = 0 \<longleftrightarrow> reservedFlag2 b = 0"
    by (simp_all add: reserved_flags bit_set_bits bit_simps)
  then show ?thesis using assms by (auto simp: Flags_DecodeSlice_def read_bytes_def Let_def)
qed

definition header_ok :: "FrameHeader \<Rightarrow> bool" where
  "header_ok f \<longleftrightarrow> ReservedFlag1 (hdr_flags f) = 0 \<and> reservedFlag2 (hdr_flags f) = 0"

definition header_bytes :: "FrameHeader \<Rightarrow> u8 list" where
  "header_bytes f =
     [ucast (drop_bit 16 (Len f) AND 255), ucast (drop_bit 8 (Len f) AND 255), ucast (Len f AND 255), Type f, hdr_flags f] @
     append31 (res_id f)"

lemma header_bytes_length [simp]: "length (header_bytes f) = 9"
  by (simp add: header_bytes_def)

lemma FrameHeader_Append_ok: "header_ok f \<Longrightarrow> FrameHeader_Append f buf = Ok (buf @ header_bytes f)"
  by (simp add: FrameHeader_Append_def header_bytes_def header_ok_def Flags_Append_ok Let_def)

lemma SetLen_SetType_Len:
  "len_type (SetType (Type f) (SetLen
      (push_bit 16 (ucast (ucast (drop_bit 16 (Len f) AND 255) :: u8)) OR
       push_bit 8 (ucast (ucast (drop_bit 8 (Len f) AND 255) :: u8)) OR ucast (ucast (Len f AND 255) :: u8)) f0)) =
   len_type f"
proof (rule bit_word_eqI, goal_cases)
  case (1 i)
  then consider "i < 8" | "8 \<le> i \<and> i < 16" | "16 \<le> i \<and> i < 24" | "24 \<le> i \<and> i < 32" by fastforce
  then show ?case
    by cases (auto simp: SetLen_def SetType_def Len_def Type_def bit_set_bits bit_get_bits bit_mask_constants bit_simps)
qed

lemma FrameHeader_Decode_bytes:
  assumes "header_ok f"
  shows "FrameHeader_DecodeSlice f0 (header_bytes f @ r) = Ok (f, r)"
proof -
  have "take 4 (append31 (res_id f)) = append31 (res_id f)" by simp
  then show ?thesis
    using assms SetLen_SetType_Len [of f f0] Flags_DecodeSlice_ok [of "hdr_flags f"]
    by (simp add: FrameHeader_DecodeSlice_def header_bytes_def read_bytes_def header_ok_def Let_def)
qed

text \<open>The nine bytes of a header are read back as the header, whatever was in the struct before.\<close>

lemma FrameHeader_roundtrip:
  assumes "FrameHeader_Append f buf = Ok out"
  shows "\<exists>bs. out = buf @ bs \<and> length bs = 9 \<and> FrameHeader_DecodeExact f0 bs = Ok f"
proof -
  have "header_ok f" using assms by (auto simp: FrameHeader_Append_def Flags_Append_def header_ok_def Let_def split: if_splits)
  with assms FrameHeader_Append_ok FrameHeader_Decode_bytes [of f f0 "[]"] show ?thesis
    by (auto simp: FrameHeader_DecodeExact_def decode_exact_def)
qed

section \<open>Frame bodies\<close>

text \<open>
  \<open>Len\<close> is an \<open>uint32\<close>, and so are the lengths computed from it, which wrap around; \<open>PaddingLen + 1\<close>
  is computed in \<open>uint8\<close>. A field that the flags make optional is an \<open>option\<close>.
\<close>

abbreviation padded :: "FrameHeader \<Rightarrow> bool" where
  "padded hdr \<equiv> flag_padding (hdr_flags hdr) = 1"

record DataFrame =
  data_PaddingLen :: "u8 option"
  data_Data :: "u8 list"
  data_Padding :: "u8 list option"

definition read_padding_len :: "FrameHeader \<Rightarrow> u8 list \<Rightarrow> (frame_error, u8 option \<times> u8 list) outcome" where
  "read_padding_len hdr r =
     (if padded hdr then
        bind_outcome (read_bytes 1 r) (\<lambda>(b, r).
        if \<not> Len hdr > ucast (b ! 0 + 1) then Err AssertionFailed else Ok (Some (b ! 0), r))
      else Ok (None, r))"

definition read_padding :: "FrameHeader \<Rightarrow> u8 option \<Rightarrow> u8 list \<Rightarrow> (frame_error, u8 list option \<times> u8 list) outcome" where
  "read_padding hdr pad r =
     (case pad of
        Some n \<Rightarrow> bind_outcome (read_bytes (unat n) r) (\<lambda>(b, r). Ok (Some b, r))
      | None \<Rightarrow> Ok (None, r))"

definition append_padding_len :: "FrameHeader \<Rightarrow> u8 option \<Rightarrow> u8 list \<Rightarrow> (frame_error, u8 list) outcome" where
  "append_padding_len hdr pad buf =
     (if padded hdr then
        (case pad of
           None \<Rightarrow> Err InvalidUnion
         | Some n \<Rightarrow>
             let buf = buf @ [n] in
             if \<not> Len hdr > ucast (n + 1) then Err AssertionFailed else Ok buf)
      else Ok buf)"

definition append_padding :: "FrameHeader \<Rightarrow> u8 option \<Rightarrow> u8 list option \<Rightarrow> u8 list \<Rightarrow> (frame_error, u8 list) outcome" where
  "append_padding hdr pad padding buf =
     (if padded hdr then
        (case padding of
           None \<Rightarrow> Err InvalidUnion
         | Some bs \<Rightarrow>
             (case pad of
                None \<Rightarrow> Panic
              | Some n \<Rightarrow> if length bs \<noteq> unat n then Err SizeMismatch else Ok (buf @ bs)))
      else Ok buf)"

definition append_sized :: "u32 \<Rightarrow> u8 list \<Rightarrow> u8 list \<Rightarrow> (frame_error, u8 list) outcome" where
  "append_sized n bs buf = (if length bs \<noteq> unat n then Err SizeMismatch else Ok (buf @ bs))"

definition data_len :: "FrameHeader \<Rightarrow> u8 option \<Rightarrow> u32" where
  "data_len hdr pad = (case pad of Some n \<Rightarrow> (Len hdr - 1) - ucast n | None \<Rightarrow> Len hdr)"

definition DataFrame_Append :: "FrameHeader \<Rightarrow> DataFrame \<Rightarrow> u8 list \<Rightarrow> (frame_error, u8 list) outcome" where
  "DataFrame_Append hdr d buf =
     bind_outcome (append_padding_len hdr (data_PaddingLen d) buf) (\<lambda>buf.
     bind_outcome (append_sized (data_len hdr (if padded hdr then data_PaddingLen d else None)) (data_Data d) buf) (\<lambda>buf.
     append_padding hdr (data_PaddingLen d) (data_Padding d) buf))"

definition DataFrame_DecodeSlice :: "FrameHeader \<Rightarrow> u8 list \<Rightarrow> (frame_error, DataFrame \<times> u8 list) outcome" where
  "DataFrame_DecodeSlice hdr r =
     bind_outcome (read_padding_len hdr r) (\<lambda>(pad, r).
     bind_outcome (read_bytes (unat (data_len hdr pad)) r) (\<lambda>(bs, r).
     bind_outcome (read_padding hdr pad r) (\<lambda>(padding, r).
     Ok (\<lparr> data_PaddingLen = pad, data_Data = bs, data_Padding = padding \<rparr>, r))))"

record StreamWeight =
  excl_id :: u32
  Weight :: u8

definition StreamWeight_Append :: "StreamWeight \<Rightarrow> u8 list \<Rightarrow> u8 list" where
  "StreamWeight_Append s buf = (let buf = buf @ append31 (excl_id s) in buf @ [Weight s])"

definition StreamWeight_DecodeSlice :: "u8 list \<Rightarrow> (frame_error, StreamWeight \<times> u8 list) outcome" where
  "StreamWeight_DecodeSlice r =
     bind_outcome (read_bytes 4 r) (\<lambda>(b, r).
     bind_outcome (read_bytes 1 r) (\<lambda>(c, r).
     Ok (\<lparr> excl_id = decode31 b 0, Weight = c ! 0 \<rparr>, r)))"

record HeadersFrame =
  headers_Priority :: "StreamWeight option"
  headers_PaddingLen :: "u8 option"
  headers_Block :: "u8 list"
  headers_Padding :: "u8 list option"

definition headers_len :: "FrameHeader \<Rightarrow> u8 option \<Rightarrow> u32" where
  "headers_len hdr pad = Len hdr - ucast (case pad of Some n \<Rightarrow> n | None \<Rightarrow> 0)"

definition HeadersFrame_Append :: "FrameHeader \<Rightarrow> HeadersFrame \<Rightarrow> u8 list \<Rightarrow> (frame_error, u8 list) outcome" where
  "HeadersFrame_Append hdr h buf =
     bind_outcome
       (if flag_priority (hdr_flags hdr) = 1 then
          (case headers_Priority h of
             None \<Rightarrow> Err InvalidUnion
           | Some w \<Rightarrow> Ok (StreamWeight_Append w buf))
        else Ok buf) (\<lambda>buf.
     bind_outcome (append_padding_len hdr (headers_PaddingLen h) buf) (\<lambda>buf.
     bind_outcome (append_sized (headers_len hdr (if padded hdr then headers_PaddingLen h else None)) (headers_Block h) buf) (\<lambda>buf.
     append_padding hdr (headers_PaddingLen h) (headers_Padding h) buf)))"

definition HeadersFrame_DecodeSlice :: "FrameHeader \<Rightarrow> u8 list \<Rightarrow> (frame_error, HeadersFrame \<times> u8 list) outcome" where
  "HeadersFrame_DecodeSlice hdr r =
     bind_outcome
       (if flag_priority (hdr_flags hdr) = 1 then
          bind_outcome (StreamWeight_DecodeSlice r) (\<lambda>(w, r). Ok (Some w, r))
        else Ok (None, r)) (\<lambda>(prio, r).
     bind_outcome (read_padding_len hdr r) (\<lambda>(pad, r).
     bind_outcome (read_bytes (unat (headers_len hdr pad)) r) (\<lambda>(bs, r).
     bind_outcome (read_padding hdr pad r) (\<lambda>(padding, r).
     Ok (\<lparr> headers_Priority = prio, headers_PaddingLen = pad, headers_Block = bs, headers_Padding = padding \<rparr>, r)))))"

definition require :: "bool \<Rightarrow> (frame_error, unit) outcome" where
  "require b = (if \<not> b then Err AssertionFailed else Ok ())"

definition PriorityFrame_Append :: "FrameHeader \<Rightarrow> StreamWeight \<Rightarrow> u8 list \<Rightarrow> (frame_error, u8 list) outcome" where
  "PriorityFrame_Append hdr p buf =
     bind_outcome (require (Len hdr = 5)) (\<lambda>_. Ok (StreamWeight_Append p buf))"

definition PriorityFrame_DecodeSlice :: "FrameHeader \<Rightarrow> u8 list \<Rightarrow> (frame_error, StreamWeight \<times> u8 list) outcome" where
  "PriorityFrame_DecodeSlice hdr r =
     bind_outcome (require (Len hdr = 5)) (\<lambda>_. StreamWeight_DecodeSlice r)"

definition RstStreamFrame_Append :: "FrameHeader \<Rightarrow> u32 \<Rightarrow> u8 list \<Rightarrow> (frame_error, u8 list) outcome" where
  "RstStreamFrame_Append hdr code buf =
     bind_outcome (require (Len hdr = 4)) (\<lambda>_. Ok (buf @ PutUint32 code))"

definition RstStreamFrame_DecodeSlice :: "FrameHeader \<Rightarrow> u8 list \<Rightarrow> (frame_error, u32 \<times> u8 list) outcome" where
  "RstStreamFrame_DecodeSlice hdr r =
     bind_outcome (require (Len hdr = 4)) (\<lambda>_.
     bind_outcome (read_bytes 4 r) (\<lambda>(b, r). Ok (Uint32 b, r)))"

type_synonym SettingsID = u16

definition SettingsID_HEADER_TABLE_SIZE :: SettingsID where [simp]: "SettingsID_HEADER_TABLE_SIZE = 1"
definition SettingsID_ENABLE_PUSH :: SettingsID where [simp]: "SettingsID_ENABLE_PUSH = 2"
definition SettingsID_MAX_CONCURRENT_STREAMS :: SettingsID where [simp]: "SettingsID_MAX_CONCURRENT_STREAMS = 3"
definition SettingsID_INITIAL_WINDOW_SIZE :: SettingsID where [simp]: "SettingsID_INITIAL_WINDOW_SIZE = 4"
definition SettingsID_MAX_FRAME_SIZE :: SettingsID where [simp]: "SettingsID_MAX_FRAME_SIZE = 5"
definition SettingsID_MAX_HEADER_LIST_SIZE :: SettingsID where [simp]: "SettingsID_MAX_HEADER_LIST_SIZE = 6"

record Setting =
  Id :: SettingsID
  SettingValue :: u32

definition Setting_Append :: "Setting \<Rightarrow> u8 list \<Rightarrow> u8 list" where
  "Setting_Append s buf = (buf @ PutUint16 (Id s)) @ PutUint32 (SettingValue s)"

definition Setting_DecodeSlice :: "u8 list \<Rightarrow> (frame_error, Setting \<times> u8 list) outcome" where
  "Setting_DecodeSlice r =
     bind_outcome (read_bytes 2 r) (\<lambda>(b, r).
     bind_outcome (read_bytes 4 r) (\<lambda>(c, r).
     Ok (\<lparr> Id = Uint16 b, SettingValue = Uint32 c \<rparr>, r)))"

primrec settings_decode_loop :: "nat \<Rightarrow> u8 list \<Rightarrow> (frame_error, Setting list \<times> u8 list) outcome" where
  "settings_decode_loop 0 r = Ok ([], r)"
| "settings_decode_loop (Suc n) r =
     bind_outcome (Setting_DecodeSlice r) (\<lambda>(s, r).
     bind_outcome (settings_decode_loop n r) (\<lambda>(ss, r). Ok (s # ss, r)))"

text \<open>A SETTINGS frame: its settings and whether it has the (empty) variant of an acknowledgement.\<close>

definition SettingsFrame_Append :: "FrameHeader \<Rightarrow> Setting list \<times> bool \<Rightarrow> u8 list \<Rightarrow> (frame_error, u8 list) outcome" where
  "SettingsFrame_Append hdr s buf =
     bind_outcome (require (Len hdr mod 6 = 0)) (\<lambda>_.
     if endStreamOrAck (hdr_flags hdr) = 1 then
       (if \<not> snd s then Err InvalidUnion
        else bind_outcome (require (Len hdr = 0)) (\<lambda>_. Ok buf))
     else
       bind_outcome (require (length (fst s) = unat (Len hdr div 6))) (\<lambda>_.
       Ok (fold Setting_Append (fst s) buf)))"

definition SettingsFrame_DecodeSlice ::
    "FrameHeader \<Rightarrow> u8 list \<Rightarrow> (frame_error, (Setting list \<times> bool) \<times> u8 list) outcome" where
  "SettingsFrame_DecodeSlice hdr r =
     bind_outcome (require (Len hdr mod 6 = 0)) (\<lambda>_.
     if endStreamOrAck (hdr_flags hdr) = 1 then
       bind_outcome (require (Len hdr = 0)) (\<lambda>_. Ok (([], True), r))
     else
       bind_outcome (settings_decode_loop (unat (Len hdr div 6)) r) (\<lambda>(ss, r). Ok ((ss, False), r)))"

definition AllowedMaxFrameSize :: "u32 \<Rightarrow> bool" where
  "AllowedMaxFrameSize Size \<longleftrightarrow> Size \<ge> 16384 \<and> Size \<le> 16777215"

record PushPromiseFrame =
  promised_id :: u32
  promise_Block :: "u8 list"

definition PushPromiseFrame_Append :: "FrameHeader \<Rightarrow> PushPromiseFrame \<Rightarrow> u8 list \<Rightarrow> (frame_error, u8 list) outcome" where
  "PushPromiseFrame_Append hdr p buf =
     bind_outcome (require (reserved31 (promised_id p) = 0)) (\<lambda>_.
     append_sized (Len hdr - 4) (promise_Block p) (buf @ append31 (promised_id p)))"

definition PushPromiseFrame_DecodeSlice :: "FrameHeader \<Rightarrow> u8 list \<Rightarrow> (frame_error, PushPromiseFrame \<times> u8 list) outcome" where
  "PushPromiseFrame_DecodeSlice hdr r =
     bind_outcome (read_bytes 4 r) (\<lambda>(b, r).
     bind_outcome (require (reserved31 (decode31 b 0) = 0)) (\<lambda>_.
     bind_outcome (read_bytes (unat (Len hdr - 4)) r) (\<lambda>(block, r).
     Ok (\<lparr> promised_id = decode31 b 0, promise_Block = block \<rparr>, r))))"

definition PingFrame_Append :: "FrameHeader \<Rightarrow> u64 \<Rightarrow> u8 list \<Rightarrow> (frame_error, u8 list) outcome" where
  "PingFrame_Append hdr p buf = bind_outcome (require (Len hdr = 8)) (\<lambda>_. Ok (buf @ PutUint64 p))"

definition PingFrame_DecodeSlice :: "FrameHeader \<Rightarrow> u8 list \<Rightarrow> (frame_error, u64 \<times> u8 list) outcome" where
  "PingFrame_DecodeSlice hdr r =
     bind_outcome (require (Len hdr = 8)) (\<lambda>_.
     bind_outcome (read_bytes 8 r) (\<lambda>(b, r). Ok (Uint64 b, r)))"

record GoAwayFrame =
  last_id :: u32
  goaway_ErrorCode :: u32
  DebugData :: "u8 list"

definition GoAwayFrame_Append :: "FrameHeader \<Rightarrow> GoAwayFrame \<Rightarrow> u8 list \<Rightarrow> (frame_error, u8 list) outcome" where
  "GoAwayFrame_Append hdr g buf =
     bind_outcome (require (reserved31 (last_id g) = 0)) (\<lambda>_.
     append_sized (Len hdr - 8) (DebugData g) ((buf @ append31 (last_id g)) @ PutUint32 (goaway_ErrorCode g)))"

definition GoAwayFrame_DecodeSlice :: "FrameHeader \<Rightarrow> u8 list \<Rightarrow> (frame_error, GoAwayFrame \<times> u8 list) outcome" where
  "GoAwayFrame_DecodeSlice hdr r =
     bind_outcome (read_bytes 4 r) (\<lambda>(b, r).
     bind_outcome (require (reserved31 (decode31 b 0) = 0)) (\<lambda>_.
     bind_outcome (read_bytes 4 r) (\<lambda>(c, r).
     bind_outcome (read_bytes (unat (Len hdr - 8)) r) (\<lambda>(dbg, r).
     Ok (\<lparr> last_id = decode31 b 0, goaway_ErrorCode = Uint32 c, DebugData = dbg \<rparr>, r)))))"

definition WindowUpdateFrame_Append :: "FrameHeader \<Rightarrow> u32 \<Rightarrow> u8 list \<Rightarrow> (frame_error, u8 list) outcome" where
  "WindowUpdateFrame_Append hdr w buf =
     bind_outcome (require (Len hdr = 4)) (\<lambda>_.
     bind_outcome (require (reserved31 w = 0)) (\<lambda>_. Ok (buf @ append31 w)))"

definition WindowUpdateFrame_DecodeSlice :: "FrameHeader \<Rightarrow> u8 list \<Rightarrow> (frame_error, u32 \<times> u8 list) outcome" where
  "WindowUpdateFrame_DecodeSlice hdr r =
     bind_outcome (require (Len hdr = 4)) (\<lambda>_.
     bind_outcome (read_bytes 4 r) (\<lambda>(b, r).
     bind_outcome (require (reserved31 (decode31 b 0) = 0)) (\<lambda>_. Ok (decode31 b 0, r))))"

definition ContinuationFrame_Append :: "FrameHeader \<Rightarrow> u8 list \<Rightarrow> u8 list \<Rightarrow> (frame_error, u8 list) outcome" where
  "ContinuationFrame_Append hdr block buf = append_sized (Len hdr) block buf"

definition ContinuationFrame_DecodeSlice :: "FrameHeader \<Rightarrow> u8 list \<Rightarrow> (frame_error, u8 list \<times> u8 list) outcome" where
  "ContinuationFrame_DecodeSlice hdr r = read_bytes (unat (Len hdr)) r"

text \<open>
  The struct has a field per variant, of which the decoder sets the one that the type of the header
  chooses; the accessors give it when they are called with a header of that type, as the connection
  does.
\<close>

datatype FrameBody =
    Data DataFrame
  | Headers HeadersFrame
  | Priority StreamWeight
  | RstStream u32
  | Settings "Setting list \<times> bool"
  | PushPromise PushPromiseFrame
  | Ping u64
  | Goaway GoAwayFrame
  | WindowUpdate u32
  | Continuation "u8 list"
  | Unknown "u8 list"

fun body_type :: "FrameBody \<Rightarrow> H2Type option" where
  "body_type (Data _) = Some H2Type_DATA"
| "body_type (Headers _) = Some H2Type_HEADERS"
| "body_type (Priority _) = Some H2Type_PRIORITY"
| "body_type (RstStream _) = Some H2Type_RST_STREAM"
| "body_type (Settings _) = Some H2Type_SETTINGS"
| "body_type (PushPromise _) = Some H2Type_PUSH_PROMISE"
| "body_type (Ping _) = Some H2Type_PING"
| "body_type (Goaway _) = Some H2Type_GOAWAY"
| "body_type (WindowUpdate _) = Some H2Type_WINDOW_UPDATE"
| "body_type (Continuation _) = Some H2Type_CONTINUATION"
| "body_type (Unknown _) = None"

fun FrameBody_Append :: "FrameHeader \<Rightarrow> FrameBody \<Rightarrow> u8 list \<Rightarrow> (frame_error, u8 list) outcome" where
  "FrameBody_Append hdr (Data d) = DataFrame_Append hdr d"
| "FrameBody_Append hdr (Headers h) = HeadersFrame_Append hdr h"
| "FrameBody_Append hdr (Priority p) = PriorityFrame_Append hdr p"
| "FrameBody_Append hdr (RstStream r) = RstStreamFrame_Append hdr r"
| "FrameBody_Append hdr (Settings s) = SettingsFrame_Append hdr s"
| "FrameBody_Append hdr (PushPromise p) = PushPromiseFrame_Append hdr p"
| "FrameBody_Append hdr (Ping p) = PingFrame_Append hdr p"
| "FrameBody_Append hdr (Goaway g) = GoAwayFrame_Append hdr g"
| "FrameBody_Append hdr (WindowUpdate w) = WindowUpdateFrame_Append hdr w"
| "FrameBody_Append hdr (Continuation c) = ContinuationFrame_Append hdr c"
| "FrameBody_Append hdr (Unknown u) = append_sized (Len hdr) u"

definition map_decoded :: "('a \<Rightarrow> 'b) \<Rightarrow> ('e, 'a \<times> 'r) outcome \<Rightarrow> ('e, 'b \<times> 'r) outcome" where
  "map_decoded f m = bind_outcome m (\<lambda>(a, r). Ok (f a, r))"

definition FrameBody_DecodeSlice :: "FrameHeader \<Rightarrow> u8 list \<Rightarrow> (frame_error, FrameBody \<times> u8 list) outcome" where
  "FrameBody_DecodeSlice hdr r =
     (if Type hdr = H2Type_DATA then map_decoded Data (DataFrame_DecodeSlice hdr r)
      else if Type hdr = H2Type_HEADERS then map_decoded Headers (HeadersFrame_DecodeSlice hdr r)
      else if Type hdr = H2Type_PRIORITY then map_decoded Priority (PriorityFrame_DecodeSlice hdr r)
      else if Type hdr = H2Type_RST_STREAM then map_decoded RstStream (RstStreamFrame_DecodeSlice hdr r)
      else if Type hdr = H2Type_SETTINGS then map_decoded Settings (SettingsFrame_DecodeSlice hdr r)
      else if Type hdr = H2Type_PUSH_PROMISE then map_decoded PushPromise (PushPromiseFrame_DecodeSlice hdr r)
      else if Type hdr = H2Type_PING then map_decoded Ping (PingFrame_DecodeSlice hdr r)
      else if Type hdr = H2Type_GOAWAY then map_decoded Goaway (GoAwayFrame_DecodeSlice hdr r)
      else if Type hdr = H2Type_WINDOW_UPDATE then map_decoded WindowUpdate (WindowUpdateFrame_DecodeSlice hdr r)
      else if Type hdr = H2Type_CONTINUATION then map_decoded Continuation (ContinuationFrame_DecodeSlice hdr r)
      else map_decoded Unknown (read_bytes (unat (Len hdr)) r))"

definition FrameBody_DecodeExact :: "FrameHeader \<Rightarrow> u8 list \<Rightarrow> (frame_error, FrameBody) outcome" where
  "FrameBody_DecodeExact hdr buf = decode_exact (FrameBody_DecodeSlice hdr buf)"

end
