(* ===== verification/Http2_Frame_Laws.thy ===== *)
theory Http2_Frame_Laws
  imports Http2_Frame
begin

text \<open>
  The frame codec: what an encoder writes, the decoder reads back; how many bytes a body takes; and
  which bodies can therefore not be decoded from the payload their header announces.
\<close>

section \<open>Reading\<close>

lemma read_bytes_append [simp]: "length bs = n \<Longrightarrow> read_bytes n (bs @ r) = Ok (bs, r)"
  by (simp add: read_bytes_def)

lemma read_bytes_Cons [simp]: "read_bytes (Suc 0) (b # r) = Ok ([b], r)"
  by (simp add: read_bytes_def)

lemma read_bytes_Ok_iff: "read_bytes n r = Ok (bs, r') \<longleftrightarrow> r = bs @ r' \<and> length bs = n"
  by (auto simp: read_bytes_def min_def)

lemma require_Ok [simp]: "require b = Ok u \<longleftrightarrow> b"
  by (simp add: require_def)

lemma require_simps [simp]: "require True = Ok ()" "require False = Err AssertionFailed"
  by (simp_all add: require_def)

lemma append_sized_Ok_iff [simp]: "append_sized n bs buf = Ok out \<longleftrightarrow> length bs = unat n \<and> out = buf @ bs"
  by (auto simp: append_sized_def)

lemma map_decoded_Ok_iff [simp]: "map_decoded f m = Ok (b, r) \<longleftrightarrow> (\<exists>a. m = Ok (a, r) \<and> b = f a)"
  by (auto simp: map_decoded_def)

lemma decode_exact_Ok_iff: "decode_exact m = Ok a \<longleftrightarrow> m = Ok (a, [])"
  by (auto simp: decode_exact_def split: if_splits)

lemma flag_bit_cases: "get_bits k 1 (f :: u8) = 0 \<or> get_bits k 1 f = 1"
proof -
  have "get_bits k 1 f = drop_bit k f AND 1" by (simp add: get_bits_def)
  then show ?thesis by (simp add: and_one_eq mod2_eq_if)
qed

lemma flag_cases:
  "flag_padding f \<noteq> 1 \<longleftrightarrow> flag_padding f = 0"
  "flag_priority f \<noteq> 1 \<longleftrightarrow> flag_priority f = 0"
  "endStreamOrAck f \<noteq> 1 \<longleftrightarrow> endStreamOrAck f = 0"
  "endHeaders f \<noteq> 1 \<longleftrightarrow> endHeaders f = 0"
  using flag_bit_cases [of 3 f] flag_bit_cases [of 5 f] flag_bit_cases [of 0 f] flag_bit_cases [of 2 f]
  by (auto simp: flag_padding_def flag_priority_def endStreamOrAck_def endHeaders_def)

section \<open>Bodies\<close>

text \<open>The optional parts of a body are there when the flags of the header say so.\<close>

fun body_ok :: "FrameHeader \<Rightarrow> FrameBody \<Rightarrow> bool" where
  "body_ok hdr (Data d) \<longleftrightarrow> Type hdr = H2Type_DATA \<and>
     (padded hdr \<longleftrightarrow> data_PaddingLen d \<noteq> None) \<and> (padded hdr \<longleftrightarrow> data_Padding d \<noteq> None)"
| "body_ok hdr (Headers h) \<longleftrightarrow> Type hdr = H2Type_HEADERS \<and>
     (flag_priority (hdr_flags hdr) = 1 \<longleftrightarrow> headers_Priority h \<noteq> None) \<and>
     (padded hdr \<longleftrightarrow> headers_PaddingLen h \<noteq> None) \<and> (padded hdr \<longleftrightarrow> headers_Padding h \<noteq> None)"
| "body_ok hdr (Settings s) \<longleftrightarrow> Type hdr = H2Type_SETTINGS \<and>
     (endStreamOrAck (hdr_flags hdr) = 1 \<longleftrightarrow> snd s) \<and> (snd s \<longrightarrow> fst s = [])"
| "body_ok hdr (Unknown u) \<longleftrightarrow> Type hdr \<notin> {H2Type_DATA, H2Type_HEADERS, H2Type_PRIORITY, H2Type_RST_STREAM,
     H2Type_SETTINGS, H2Type_PUSH_PROMISE, H2Type_PING, H2Type_GOAWAY, H2Type_WINDOW_UPDATE, H2Type_CONTINUATION}"
| "body_ok hdr b \<longleftrightarrow> body_type b = Some (Type hdr)"

text \<open>The bytes the body takes beyond the length in the header.\<close>

definition overhead :: "FrameHeader \<Rightarrow> u32" where
  "overhead hdr =
     (if Type hdr = H2Type_HEADERS then
        (if flag_priority (hdr_flags hdr) = 1 then 5 else 0) + (if padded hdr then 1 else 0)
      else 0)"

lemma StreamWeight_Append_bytes:
  "StreamWeight_Append s buf = buf @ append31 (excl_id s) @ [Weight s]"
  by (simp add: StreamWeight_Append_def)

lemma StreamWeight_decode [simp]:
  "StreamWeight_DecodeSlice (append31 (excl_id s) @ Weight s # r) = Ok (s, r)"
  by (simp add: StreamWeight_DecodeSlice_def)

lemma Setting_decode [simp]:
  "Setting_DecodeSlice (PutUint16 (Id s) @ PutUint32 (SettingValue s) @ r) = Ok (s, r)"
  by (simp add: Setting_DecodeSlice_def)

definition setting_bytes :: "Setting \<Rightarrow> u8 list" where
  "setting_bytes s = PutUint16 (Id s) @ PutUint32 (SettingValue s)"

lemma setting_bytes_length [simp]: "length (setting_bytes s) = 6"
  by (simp add: setting_bytes_def)

lemma fold_Setting_Append: "fold Setting_Append ss buf = buf @ concat (map setting_bytes ss)"
  by (induction ss arbitrary: buf) (simp_all add: Setting_Append_def setting_bytes_def)

lemma settings_length [simp]: "length (concat (map setting_bytes ss)) = 6 * length ss"
  by (induction ss) simp_all

lemma settings_decode_bytes [simp]:
  "settings_decode_loop (length ss) (concat (map setting_bytes ss) @ r) = Ok (ss, r)"
  by (induction ss arbitrary: r) (simp_all add: setting_bytes_def)

lemma settings_decode_length:
  "settings_decode_loop n r = Ok (ss, r') \<Longrightarrow> length r = 6 * n + length r'"
  by (induction n arbitrary: r ss r')
    (auto simp: Setting_DecodeSlice_def read_bytes_Ok_iff)

text \<open>An encoder appended bytes that the decoder reads as \<open>b\<close>; their number, as an \<open>uint32\<close>, is \<open>n\<close>.\<close>

definition reads_back ::
    "u8 list \<Rightarrow> u8 list \<Rightarrow> (u8 list \<Rightarrow> (frame_error, 'a \<times> u8 list) outcome) \<Rightarrow> 'a \<Rightarrow> u32 \<Rightarrow> bool" where
  "reads_back buf out dec b n \<longleftrightarrow>
     (\<exists>bs. out = buf @ bs \<and> (\<forall>r. dec (bs @ r) = Ok (b, r)) \<and> of_nat (length bs) = n)"

lemma reads_backI:
  assumes "out = buf @ bs" "\<And>r. dec (bs @ r) = Ok (b, r)" "of_nat (length bs) = n"
  shows "reads_back buf out dec b n"
  using assms by (auto simp: reads_back_def)

lemma reads_backE:
  assumes "reads_back buf out dec b n"
  obtains bs where "out = buf @ bs" "\<And>r. dec (bs @ r) = Ok (b, r)" "of_nat (length bs) = n"
  using assms by (auto simp: reads_back_def)

lemma padding_len_back:
  assumes "append_padding_len hdr pad buf = Ok out" "padded hdr \<longleftrightarrow> pad \<noteq> None"
  shows "reads_back buf out (read_padding_len hdr) pad (if padded hdr then 1 else 0)"
proof (cases pad)
  case None
  with assms show ?thesis
    by (intro reads_backI [of _ _ "[]"]) (auto simp: append_padding_len_def read_padding_len_def)
next
  case (Some n)
  with assms show ?thesis
    by (intro reads_backI [of _ _ "[n]"])
      (auto simp: append_padding_len_def read_padding_len_def Let_def split: if_splits)
qed

lemma padding_back:
  assumes "append_padding hdr pad padding buf = Ok out"
    "padded hdr \<longleftrightarrow> pad \<noteq> None" "padded hdr \<longleftrightarrow> padding \<noteq> None"
  shows "reads_back buf out (read_padding hdr pad) padding (case pad of Some n \<Rightarrow> ucast n | None \<Rightarrow> 0)"
proof (cases pad)
  case None
  with assms show ?thesis
    by (intro reads_backI [of _ _ "[]"]) (auto simp: append_padding_def read_padding_def)
next
  case (Some n)
  with assms obtain bs where "padding = Some bs" by auto
  with assms Some show ?thesis
    by (intro reads_backI [of _ _ bs])
      (auto simp: append_padding_def read_padding_def word_of_nat_eq_iff split: if_splits)
qed

lemma sized_back:
  assumes "append_sized n bs buf = Ok out"
  shows "reads_back buf out (read_bytes (unat n)) bs n"
  using assms by (intro reads_backI [of _ _ bs]) auto

lemma DataFrame_back:
  assumes "DataFrame_Append hdr d buf = Ok out" "body_ok hdr (Data d)"
  shows "reads_back buf out (DataFrame_DecodeSlice hdr) d (Len hdr)"
proof -
  let ?pad = "data_PaddingLen d" and ?one = "if padded hdr then 1 else 0 :: u32"
  have pad: "(if padded hdr then ?pad else None) = ?pad" using assms(2) by auto
  from assms(1) obtain b1 b2 where
      b: "append_padding_len hdr ?pad buf = Ok b1" "append_sized (data_len hdr ?pad) (data_Data d) b1 = Ok b2"
        "append_padding hdr ?pad (data_Padding d) b2 = Ok out"
    unfolding DataFrame_Append_def pad by (auto simp del: append_sized_Ok_iff)
  from padding_len_back [OF b(1)] assms(2) obtain p where
    p: "b1 = buf @ p" "\<And>r. read_padding_len hdr (p @ r) = Ok (?pad, r)" "of_nat (length p) = ?one"
    by (auto elim: reads_backE)
  from padding_back [OF b(3)] assms(2) obtain q where
    q: "out = b2 @ q" "\<And>r. read_padding hdr ?pad (q @ r) = Ok (data_Padding d, r)"
      "of_nat (length q) = (case ?pad of Some n \<Rightarrow> ucast n | None \<Rightarrow> (0 :: u32))"
    by (auto elim: reads_backE)
  have d: "b2 = b1 @ data_Data d" "length (data_Data d) = unat (data_len hdr ?pad)" using b(2) by auto
  have "?one + (data_len hdr ?pad + (case ?pad of Some n \<Rightarrow> ucast n | None \<Rightarrow> 0)) = Len hdr"
    using assms(2) by (auto simp: data_len_def split: option.splits)
  then show ?thesis
    by (intro reads_backI [of _ _ "p @ data_Data d @ q"])
      (simp_all add: p q d DataFrame_DecodeSlice_def)
qed

lemma HeadersFrame_back:
  assumes "HeadersFrame_Append hdr h buf = Ok out" "body_ok hdr (Headers h)"
  shows "reads_back buf out (HeadersFrame_DecodeSlice hdr) h (Len hdr + overhead hdr)"
proof -
  let ?pad = "headers_PaddingLen h" and ?one = "if padded hdr then 1 else 0 :: u32"
  let ?prio = "flag_priority (hdr_flags hdr) = 1"
  have pad: "(if padded hdr then ?pad else None) = ?pad" using assms(2) by auto
  from assms(1) obtain b0 b1 b2 where
      b: "(if ?prio then case headers_Priority h of None \<Rightarrow> Err InvalidUnion | Some w \<Rightarrow> Ok (StreamWeight_Append w buf)
           else Ok buf) = Ok b0"
        "append_padding_len hdr ?pad b0 = Ok b1" "append_sized (headers_len hdr ?pad) (headers_Block h) b1 = Ok b2"
        "append_padding hdr ?pad (headers_Padding h) b2 = Ok out"
    unfolding HeadersFrame_Append_def pad by (auto simp del: append_sized_Ok_iff)
  define w where "w = (case headers_Priority h of Some s \<Rightarrow> append31 (excl_id s) @ [Weight s] | None \<Rightarrow> [])"
  have w: "b0 = buf @ w"
      "\<And>r. (if ?prio then bind_outcome (StreamWeight_DecodeSlice (w @ r)) (\<lambda>(w, r). Ok (Some w, r))
           else Ok (None, w @ r)) = Ok (headers_Priority h, r)"
      "of_nat (length w) = (if ?prio then 5 else 0 :: u32)"
    using b(1) assms(2) by (auto simp: w_def StreamWeight_Append_bytes split: option.splits if_splits)
  from padding_len_back [OF b(2)] assms(2) obtain p where
    p: "b1 = b0 @ p" "\<And>r. read_padding_len hdr (p @ r) = Ok (?pad, r)" "of_nat (length p) = ?one"
    by (auto elim: reads_backE)
  from padding_back [OF b(4)] assms(2) obtain q where
    q: "out = b2 @ q" "\<And>r. read_padding hdr ?pad (q @ r) = Ok (headers_Padding h, r)"
      "of_nat (length q) = (case ?pad of Some n \<Rightarrow> ucast n | None \<Rightarrow> (0 :: u32))"
    by (auto elim: reads_backE)
  have d: "b2 = b1 @ headers_Block h" "length (headers_Block h) = unat (headers_len hdr ?pad)" using b(3) by auto
  have "(if ?prio then 5 else 0) + (?one + (headers_len hdr ?pad + (case ?pad of Some n \<Rightarrow> ucast n | None \<Rightarrow> 0))) =
      Len hdr + overhead hdr"
    using assms(2) by (auto simp: headers_len_def overhead_def split: option.splits)
  then show ?thesis
    by (intro reads_backI [of _ _ "w @ p @ headers_Block h @ q"])
      (simp_all add: w p q d HeadersFrame_DecodeSlice_def)
qed

lemma SettingsFrame_back:
  assumes "SettingsFrame_Append hdr s buf = Ok out" "body_ok hdr (Settings s)"
  shows "reads_back buf out (SettingsFrame_DecodeSlice hdr) s (Len hdr)"
proof (cases "endStreamOrAck (hdr_flags hdr) = 1")
  case True
  with assms show ?thesis
    by (intro reads_backI [of _ _ "[]"]) (auto simp: SettingsFrame_Append_def SettingsFrame_DecodeSlice_def prod_eq_iff)
next
  case False
  with assms have l: "Len hdr mod 6 = 0" "length (fst s) = unat (Len hdr div 6)"
      "out = buf @ concat (map setting_bytes (fst s))" "\<not> snd s"
    by (auto simp: SettingsFrame_Append_def fold_Setting_Append)
  have "Len hdr div 6 * 6 = Len hdr" using l(1) by (metis add.right_neutral div_mult_mod_eq)
  then have "(of_nat (6 * length (fst s)) :: u32) = Len hdr" by (simp add: l(2) mult.commute)
  moreover have "settings_decode_loop (unat (Len hdr div 6)) (concat (map setting_bytes (fst s)) @ r) = Ok (fst s, r)" for r
    by (metis l(2) settings_decode_bytes)
  ultimately show ?thesis
    using False l by (intro reads_backI [of _ _ "concat (map setting_bytes (fst s))"])
      (auto simp: SettingsFrame_DecodeSlice_def prod_eq_iff)
qed

lemma FrameBody_back:
  assumes "FrameBody_Append hdr b buf = Ok out" "body_ok hdr b"
  shows "reads_back buf out (FrameBody_DecodeSlice hdr) b (Len hdr + overhead hdr)"
proof (cases b)
  case (Data d)
  with assms DataFrame_back [of hdr d buf out] show ?thesis
    by (auto simp: reads_back_def map_decoded_def FrameBody_DecodeSlice_def overhead_def)
next
  case (Headers h)
  with assms HeadersFrame_back [of hdr h buf out] show ?thesis
    by (auto simp: reads_back_def map_decoded_def FrameBody_DecodeSlice_def)
next
  case (Settings s)
  with assms SettingsFrame_back [of hdr s buf out] show ?thesis
    by (cases s) (auto simp: reads_back_def map_decoded_def FrameBody_DecodeSlice_def overhead_def)
next
  case (Priority p)
  with assms show ?thesis
    by (intro reads_backI [of _ _ "append31 (excl_id p) @ [Weight p]"])
      (auto simp: FrameBody_DecodeSlice_def overhead_def map_decoded_def PriorityFrame_Append_def
        PriorityFrame_DecodeSlice_def StreamWeight_Append_bytes)
next
  case (RstStream c)
  with assms show ?thesis
    by (intro reads_backI [of _ _ "PutUint32 c"])
      (auto simp: FrameBody_DecodeSlice_def overhead_def map_decoded_def RstStreamFrame_Append_def RstStreamFrame_DecodeSlice_def)
next
  case (PushPromise p)
  with assms show ?thesis
    by (intro reads_backI [of _ _ "append31 (promised_id p) @ promise_Block p"])
      (auto simp: FrameBody_DecodeSlice_def overhead_def map_decoded_def PushPromiseFrame_Append_def PushPromiseFrame_DecodeSlice_def)
next
  case (Ping p)
  with assms show ?thesis
    by (intro reads_backI [of _ _ "PutUint64 p"])
      (auto simp: FrameBody_DecodeSlice_def overhead_def map_decoded_def PingFrame_Append_def PingFrame_DecodeSlice_def)
next
  case (Goaway g)
  with assms show ?thesis
    by (intro reads_backI [of _ _ "append31 (last_id g) @ PutUint32 (goaway_ErrorCode g) @ DebugData g"])
      (auto simp: FrameBody_DecodeSlice_def overhead_def map_decoded_def GoAwayFrame_Append_def GoAwayFrame_DecodeSlice_def)
next
  case (WindowUpdate w)
  with assms show ?thesis
    by (intro reads_backI [of _ _ "append31 w"])
      (auto simp: FrameBody_DecodeSlice_def overhead_def map_decoded_def WindowUpdateFrame_Append_def WindowUpdateFrame_DecodeSlice_def)
next
  case (Continuation c)
  with assms show ?thesis
    by (intro reads_backI [of _ _ c])
      (auto simp: FrameBody_DecodeSlice_def overhead_def map_decoded_def ContinuationFrame_Append_def ContinuationFrame_DecodeSlice_def)
next
  case (Unknown u)
  with assms show ?thesis
    by (intro reads_backI [of _ _ u]) (auto simp: FrameBody_DecodeSlice_def overhead_def map_decoded_def)
qed

text \<open>
  C19. Every frame body that the encoder writes is read back by the decoder, and it takes as many bytes
  as the header says - but for HEADERS frames with the PRIORITY or the PADDED flag, whose weight and
  padding length are not counted.
\<close>

theorem FrameBody_roundtrip:
  assumes "FrameBody_Append hdr b buf = Ok out" "body_ok hdr b"
  shows "\<exists>bs. out = buf @ bs \<and> FrameBody_DecodeExact hdr bs = Ok b \<and>
    (of_nat (length bs) :: u32) = Len hdr + overhead hdr"
proof -
  from FrameBody_back [OF assms] obtain bs where
    bs: "out = buf @ bs" "\<And>r. FrameBody_DecodeSlice hdr (bs @ r) = Ok (b, r)" "of_nat (length bs) = Len hdr + overhead hdr"
    by (auto elim: reads_backE)
  from bs(2) [of "[]"] have "FrameBody_DecodeExact hdr bs = Ok b"
    by (simp add: FrameBody_DecodeExact_def decode_exact_def)
  with bs show ?thesis by blast
qed

section \<open>How many bytes a body takes\<close>

lemma length_word: "length bs = n \<Longrightarrow> (of_nat (length bs) :: u32) = of_nat n"
  by simp

lemma read_bytes_word: "read_bytes (unat n) r = Ok (bs, r') \<Longrightarrow> (of_nat (length r) :: u32) = n + of_nat (length r')"
  by (auto simp: read_bytes_Ok_iff)

lemma read_bytes_nat: "read_bytes n r = Ok (bs, r') \<Longrightarrow> (of_nat (length r) :: u32) = of_nat n + of_nat (length r')"
  by (auto simp: read_bytes_Ok_iff)

lemma read_padding_len_word:
  "read_padding_len hdr r = Ok (pad, r') \<Longrightarrow>
   (of_nat (length r) :: u32) = (if padded hdr then 1 else 0) + of_nat (length r') \<and> (padded hdr \<longleftrightarrow> pad \<noteq> None)"
  by (auto simp: read_padding_len_def dest!: read_bytes_nat split: if_splits)

lemma read_padding_word:
  "read_padding hdr pad r = Ok (padding, r') \<Longrightarrow>
   (of_nat (length r) :: u32) = (case pad of Some n \<Rightarrow> ucast n | None \<Rightarrow> 0) + of_nat (length r') \<and>
   (pad = None \<longleftrightarrow> padding = None)"
  by (auto simp: read_padding_def read_bytes_Ok_iff split: option.splits)

lemma StreamWeight_word:
  "StreamWeight_DecodeSlice r = Ok (w, r') \<Longrightarrow> (of_nat (length r) :: u32) = 5 + of_nat (length r')"
  by (auto simp: StreamWeight_DecodeSlice_def dest!: read_bytes_nat)

lemma DataFrame_length:
  assumes "DataFrame_DecodeSlice hdr r = Ok (d, r')"
  shows "(of_nat (length r) :: u32) = Len hdr + of_nat (length r') \<and>
    (padded hdr \<longleftrightarrow> data_PaddingLen d \<noteq> None) \<and> (padded hdr \<longleftrightarrow> data_Padding d \<noteq> None)"
proof (intro conjI)
  from assms obtain pad r1 bs r2 padding where
    d: "read_padding_len hdr r = Ok (pad, r1)" "read_bytes (unat (data_len hdr pad)) r1 = Ok (bs, r2)"
      "read_padding hdr pad r2 = Ok (padding, r')"
      "d = \<lparr> data_PaddingLen = pad, data_Data = bs, data_Padding = padding \<rparr>"
    by (auto simp: DataFrame_DecodeSlice_def)
  note w = read_padding_len_word [OF d(1)] read_bytes_word [OF d(2)] read_padding_word [OF d(3)]
  show "(of_nat (length r) :: u32) = Len hdr + of_nat (length r')"
    using w by (auto simp: data_len_def split: option.splits)
  show "padded hdr \<longleftrightarrow> data_PaddingLen d \<noteq> None" "padded hdr \<longleftrightarrow> data_Padding d \<noteq> None"
    using w by (simp_all add: d(4))
qed

lemma HeadersFrame_length:
  assumes "HeadersFrame_DecodeSlice hdr r = Ok (h, r')"
  shows "(of_nat (length r) :: u32) =
      Len hdr + ((if flag_priority (hdr_flags hdr) = 1 then 5 else 0) + (if padded hdr then 1 else 0)) + of_nat (length r') \<and>
    (flag_priority (hdr_flags hdr) = 1 \<longleftrightarrow> headers_Priority h \<noteq> None) \<and>
    (padded hdr \<longleftrightarrow> headers_PaddingLen h \<noteq> None) \<and> (padded hdr \<longleftrightarrow> headers_Padding h \<noteq> None)"
proof (intro conjI)
  let ?p = "flag_priority (hdr_flags hdr) = 1"
  from assms obtain prio r0 pad r1 bs r2 padding where
    h: "(if ?p then bind_outcome (StreamWeight_DecodeSlice r) (\<lambda>(w, r). Ok (Some w, r)) else Ok (None, r)) = Ok (prio, r0)"
      "read_padding_len hdr r0 = Ok (pad, r1)" "read_bytes (unat (headers_len hdr pad)) r1 = Ok (bs, r2)"
      "read_padding hdr pad r2 = Ok (padding, r')"
      "h = \<lparr> headers_Priority = prio, headers_PaddingLen = pad, headers_Block = bs, headers_Padding = padding \<rparr>"
    by (fastforce simp: HeadersFrame_DecodeSlice_def)
  have p: "(of_nat (length r) :: u32) = (if ?p then 5 else 0) + of_nat (length r0)" "?p \<longleftrightarrow> prio \<noteq> None"
    using h(1) by (auto dest!: StreamWeight_word split: if_splits)
  note w = read_padding_len_word [OF h(2)] read_bytes_word [OF h(3)] read_padding_word [OF h(4)]
  show "(of_nat (length r) :: u32) =
      Len hdr + ((if ?p then 5 else 0) + (if padded hdr then 1 else 0)) + of_nat (length r')"
    using w p(1) by (auto simp: headers_len_def split: option.splits)
  show "?p \<longleftrightarrow> headers_Priority h \<noteq> None"
    "padded hdr \<longleftrightarrow> headers_PaddingLen h \<noteq> None" "padded hdr \<longleftrightarrow> headers_Padding h \<noteq> None"
    using w p by (simp_all add: h(5))
qed

lemma SettingsFrame_length:
  assumes "SettingsFrame_DecodeSlice hdr r = Ok (s, r')"
  shows "(of_nat (length r) :: u32) = Len hdr + of_nat (length r') \<and>
    (endStreamOrAck (hdr_flags hdr) = 1 \<longleftrightarrow> snd s) \<and> (snd s \<longrightarrow> fst s = [])"
proof (intro conjI)
  have "Len hdr mod 6 = 0" using assms by (auto simp: SettingsFrame_DecodeSlice_def)
  then have "6 * (Len hdr div 6) = Len hdr" by (metis add.right_neutral mult_div_mod_eq)
  then have "(6 * of_nat (unat (Len hdr div 6)) :: u32) = Len hdr" by simp
  then show "(of_nat (length r) :: u32) = Len hdr + of_nat (length r')"
    using assms by (auto simp: SettingsFrame_DecodeSlice_def dest!: settings_decode_length split: if_splits)
  show "endStreamOrAck (hdr_flags hdr) = 1 \<longleftrightarrow> snd s" "snd s \<longrightarrow> fst s = []"
    using assms by (auto simp: SettingsFrame_DecodeSlice_def split: if_splits)
qed

lemma FrameBody_length:
  assumes "FrameBody_DecodeSlice hdr r = Ok (b, r')"
  shows "body_ok hdr b \<and> (of_nat (length r) :: u32) = Len hdr + overhead hdr + of_nat (length r')"
  using assms unfolding FrameBody_DecodeSlice_def
  by (auto simp: overhead_def PriorityFrame_DecodeSlice_def RstStreamFrame_DecodeSlice_def PushPromiseFrame_DecodeSlice_def
      PingFrame_DecodeSlice_def GoAwayFrame_DecodeSlice_def WindowUpdateFrame_DecodeSlice_def ContinuationFrame_DecodeSlice_def
      dest!: read_bytes_nat StreamWeight_word DataFrame_length HeadersFrame_length SettingsFrame_length split: if_splits)

section \<open>Payloads of the announced length\<close>

text \<open>
  C22. A connection passes the decoder exactly the bytes that the header announces. Then no body with the
  PRIORITY or the PADDED flag of a HEADERS frame is ever decoded, whatever its bytes: the weight
  and the padding length are read, but not taken off the length of the header block, which runs
  past the end of the payload.
\<close>

theorem HEADERS_with_extras_refused:
  assumes "Type hdr = H2Type_HEADERS" "flag_priority (hdr_flags hdr) = 1 \<or> padded hdr"
    "length buf = unat (Len hdr)"
  shows "FrameBody_DecodeExact hdr buf \<noteq> Ok b"
proof
  assume "FrameBody_DecodeExact hdr buf = Ok b"
  then have "FrameBody_DecodeSlice hdr buf = Ok (b, [])"
    by (simp add: FrameBody_DecodeExact_def decode_exact_Ok_iff)
  from FrameBody_length [OF this] assms show False
    by (auto simp: overhead_def split: if_splits)
qed

theorem HEADERS_with_extras_refused_witness:
  "\<forall>b. FrameBody_DecodeExact \<lparr> len_type = set_bits 8 24 7 1, hdr_flags = 0x24, res_id = 1 \<rparr> [0, 0, 0, 0, 16, 0x82, 0x84]
     \<noteq> Ok b"
  using HEADERS_with_extras_refused
    [of "\<lparr> len_type = set_bits 8 24 7 1, hdr_flags = 0x24, res_id = 1 \<rparr>" "[0, 0, 0, 0, 16, 0x82, 0x84]"]
  by (simp add: Type_def Len_def flag_priority_def get_bits_def set_bits_def mask_eq_exp_minus_1)

text \<open>Decoding neither panics nor loops: every failure is an error.\<close>

lemma read_not_Panic [simp]: "read_bytes n r \<noteq> Panic" "require c \<noteq> Panic"
  by (simp_all add: read_bytes_def require_def)

lemma settings_loop_not_Panic [simp]: "settings_decode_loop n r \<noteq> Panic"
  by (induction n arbitrary: r) (auto simp: bind_outcome_Panic_iff Setting_DecodeSlice_def)

lemma FrameBody_Decode_not_Panic: "FrameBody_DecodeExact hdr buf \<noteq> Panic"
proof -
  have w: "StreamWeight_DecodeSlice r \<noteq> Panic" for r by (auto simp: StreamWeight_DecodeSlice_def bind_outcome_Panic_iff)
  have p: "read_padding_len hdr r \<noteq> Panic" "read_padding hdr pad r \<noteq> Panic" for r pad
    by (auto simp: read_padding_len_def read_padding_def bind_outcome_Panic_iff split: option.splits)
  have "FrameBody_DecodeSlice hdr buf \<noteq> Panic"
    unfolding FrameBody_DecodeSlice_def map_decoded_def
    by (auto simp: bind_outcome_Panic_iff w p DataFrame_DecodeSlice_def HeadersFrame_DecodeSlice_def SettingsFrame_DecodeSlice_def
        PriorityFrame_DecodeSlice_def RstStreamFrame_DecodeSlice_def PushPromiseFrame_DecodeSlice_def PingFrame_DecodeSlice_def
        GoAwayFrame_DecodeSlice_def WindowUpdateFrame_DecodeSlice_def ContinuationFrame_DecodeSlice_def split: if_splits)
  then show ?thesis by (auto simp: FrameBody_DecodeExact_def decode_exact_def bind_outcome_Panic_iff split: if_splits)
qed

theorem FrameBody_roundtrip_witness:
  "FrameBody_DecodeExact \<lparr> len_type = set_bits 8 24 4 8, hdr_flags = 0, res_id = 1 \<rparr> (append31 65535) = Ok (WindowUpdate 65535)"
proof -
  let ?h = "\<lparr> len_type = set_bits 8 24 4 8, hdr_flags = 0, res_id = 1 \<rparr>"
  have h: "Len ?h = 4" "Type ?h = 8" by (simp_all add: Len_def Type_def get_bits_def set_bits_def mask_eq_exp_minus_1)
  have "reserved31 65535 = 0" by (simp add: reserved31_def get_bits_def mask_eq_exp_minus_1)
  then have "FrameBody_Append ?h (WindowUpdate 65535) [] = Ok (append31 65535)" using h by (simp add: WindowUpdateFrame_Append_def)
  with FrameBody_roundtrip [of ?h "WindowUpdate 65535" "[]"] h show ?thesis by auto
qed

end
