(* ===== verification/Hpack_Integer.thy ===== *)
theory Hpack_Integer
  imports Kscale_Prelude
begin

text \<open>
  HPACK integers, \<open>AppendInteger\<close>, \<open>DecodeIntegerWithFirstByte\<close> and \<open>DecodeInteger\<close> of
  \<open>protobuf/wire/h2/hpack/hpack_primitive.go\<close>, and the interface of a codec whose values are
  followed by other input.
\<close>

section \<open>Codecs\<close>

text \<open>
  A codec on bytes: what is encoded decodes to itself and leaves the input after it. The codecs
  of this development are the integers and the string literals of HPACK.
\<close>

locale prefix_codec =
  fixes encode :: "'a \<Rightarrow> 'b list"
    and decode :: "'b list \<Rightarrow> ('e, 'a \<times> 'b list) outcome"
    and valid :: "'a \<Rightarrow> bool"
  assumes decode_encode: "valid a \<Longrightarrow> decode (encode a @ r) = Ok (a, r)"
    and encode_nonempty: "valid a \<Longrightarrow> encode a \<noteq> []"
begin

lemma encode_inject: "valid a \<Longrightarrow> valid b \<Longrightarrow> encode a @ r = encode b @ s \<longleftrightarrow> a = b \<and> r = s"
  using decode_encode [of a r] decode_encode [of b s] by (metis Pair_inject outcome.inject(1))

lemma prefix_free: "valid a \<Longrightarrow> valid b \<Longrightarrow> prefix (encode a) (encode b) \<Longrightarrow> a = b"
  using encode_inject [of b a "[]"] by (auto simp: prefix_def)

end

section \<open>Encoding\<close>

datatype hpack_error =
    PrefixTooLong
  | PrefixOverlapsMask
  | IntegerOverflow
  | UnexpectedEOF
  | EmptyInput
  | HuffmanDone
  | InvalidHuffman
  | HuffmanOutOfRange
  | StringTooLong
  | IndexZero
  | IndexOutOfRange
  | NilTable
  | UnknownFieldType
  | InvalidMayAdd
  | OutOfFuel

text \<open>\<open>^uint8(0) >> (8 - prefix_len)\<close>, for a prefix shorter than eight bits.\<close>

definition prefix_mask :: "nat \<Rightarrow> u8" where
  "prefix_mask prefix_len = drop_bit (8 - prefix_len) (NOT 0)"

function append_loop :: "u64 \<Rightarrow> u8 list" where
  "append_loop val =
     (if val > 0x7F then (ucast (val AND 0x7F) OR 0x80) # append_loop (drop_bit 7 val)
      else [ucast val])"
  by pat_completeness auto

termination
proof (relation "measure unat")
  fix val :: u64
  assume "0x7F < val"
  then have "0 < unat val" by (simp add: word_less_nat_alt)
  then have "unat (drop_bit 7 val) < unat val" by (simp add: unat_div drop_bit_eq_div)
  then show "(drop_bit 7 val, val) \<in> measure unat" by (simp only: in_measure)
qed simp

declare append_loop.simps [simp del]

definition AppendInteger :: "u8 list \<Rightarrow> nat \<Rightarrow> u8 \<Rightarrow> u64 \<Rightarrow> (hpack_error, u8 list) outcome" where
  "AppendInteger buf prefix_len pre value =
     (if prefix_len \<ge> 8 then Err PrefixTooLong
      else
        let mask = prefix_mask prefix_len in
        if mask AND pre \<noteq> 0 then Err PrefixOverlapsMask
        else if value < ucast mask then Ok (buf @ [(ucast value AND mask) OR pre])
        else Ok (buf @ (pre OR mask) # append_loop (value - ucast mask)))"

section \<open>Decoding\<close>

fun decode_loop :: "u8 list \<Rightarrow> nat \<Rightarrow> u64 \<Rightarrow> (hpack_error, u64 \<times> u8 list) outcome" where
  "decode_loop r shift value =
     (if shift \<ge> 64 then Err IntegerOverflow
      else
        case r of
          [] \<Rightarrow> Err UnexpectedEOF
        | b # r' \<Rightarrow>
            let value' = value + push_bit shift (ucast (b AND 0x7F)) in
            if b AND 0x80 = 0 then Ok (value', r') else decode_loop r' (shift + 7) value')"

declare decode_loop.simps [simp del]

definition DecodeIntegerWithFirstByte ::
    "u8 list \<Rightarrow> nat \<Rightarrow> u8 \<Rightarrow> (hpack_error, u64 \<times> u8 list \<times> u8) outcome" where
  "DecodeIntegerWithFirstByte r prefix_len first_byte =
     (if prefix_len \<ge> 8 then Err PrefixTooLong
      else
        let mask = prefix_mask prefix_len;
            pre = first_byte AND NOT mask;
            value = (ucast (first_byte AND mask) :: u64)
        in if value < ucast mask then Ok (value, r, pre)
           else bind_outcome (decode_loop r 0 value) (\<lambda>(value, r). Ok (value, r, pre)))"

definition DecodeInteger :: "u8 list \<Rightarrow> nat \<Rightarrow> (hpack_error, u64 \<times> u8 list \<times> u8) outcome" where
  "DecodeInteger r prefix_len =
     (case r of [] \<Rightarrow> Err EmptyInput | b # r' \<Rightarrow> DecodeIntegerWithFirstByte r' prefix_len b)"

section \<open>The round trip\<close>

lemma push_bit_split_word:
  fixes v :: "'a::len word"
  shows "push_bit s (v AND mask n) + push_bit (s + n) (drop_bit n v) = push_bit s v"
proof -
  have "(v AND mask n) + push_bit n (drop_bit n v) = v"
    by (metis bits_ident add.commute take_bit_eq_mask)
  then show ?thesis by (metis push_bit_add push_bit_push_bit)
qed

lemma mask_7F: "(0x7F :: 'a::len word) = mask 7"
  by (simp add: mask_eq_exp_minus_1)

lemma exp_80: "(0x80 :: 'a::len word) = push_bit 7 1"
  by simp

lemma bit_7F: "bit (0x7F :: 'a::len word) n \<longleftrightarrow> n < 7 \<and> n < LENGTH('a)"
  unfolding mask_7F by (simp only: bit_mask_iff) auto

lemma bit_80: "bit (0x80 :: 'a::len word) n \<longleftrightarrow> n = 7 \<and> n < LENGTH('a)"
  unfolding exp_80 by (simp only: bit_push_bit_iff bit_1_iff) auto

lemma small_bits:
  assumes "v < (128 :: u64)" "bit v n"
  shows "n < 7"
proof -
  have "v AND 0x7F = v" using less_mask_eq [of v 7] assms(1) unfolding mask_7F by simp
  with assms(2) have "bit (v AND 0x7F) n" by simp
  then show ?thesis by (simp only: bit_and_iff bit_7F)
qed

lemma small_byte:
  assumes "v < (128 :: u64)"
  shows "(ucast v :: u8) AND 0x7F = ucast v" "(ucast v :: u8) AND 0x80 = 0" "ucast (ucast v :: u8) = v"
proof -
  note b = bit_and_iff bit_unsigned_iff bit_7F bit_80 bit_0_eq
  show "(ucast v :: u8) AND 0x7F = ucast v" "ucast (ucast v :: u8) = v"
    by (rule bit_word_eqI; simp only: b; use small_bits [OF assms] in \<open>force\<close>)+
  show "(ucast v :: u8) AND 0x80 = 0"
  proof (rule bit_word_eqI)
    fix n
    have "\<not> bit ((ucast v :: u8) AND 0x80) n"
      using small_bits [OF assms, of 7] by (simp only: b) force
    then show "bit ((ucast v :: u8) AND 0x80) n = bit (0 :: u8) n" by simp
  qed
qed

lemma high_byte:
  fixes v :: u64
  shows "((ucast (v AND 0x7F) OR 0x80) :: u8) AND 0x80 \<noteq> 0"
    and "ucast (((ucast (v AND 0x7F) OR 0x80) :: u8) AND 0x7F) = v AND mask 7"
proof -
  note b = bit_and_iff bit_or_iff bit_unsigned_iff bit_7F bit_80 bit_mask_iff
  have "bit (((ucast (v AND 0x7F) OR 0x80) :: u8) AND 0x80) 7" by (simp only: b) simp
  then show "((ucast (v AND 0x7F) OR 0x80) :: u8) AND 0x80 \<noteq> 0" by (intro notI) simp
  show "ucast (((ucast (v AND 0x7F) OR 0x80) :: u8) AND 0x7F) = v AND mask 7"
    by (rule bit_word_eqI) (simp only: b, auto)
qed

lemma decode_append_loop:
  "shift < 64 \<Longrightarrow> unat v < 2 ^ (64 - shift) \<Longrightarrow>
     decode_loop (append_loop v @ r) shift acc = Ok (acc + push_bit shift v, r)"
proof (induction v arbitrary: shift acc rule: append_loop.induct)
  case (1 v)
  show ?case
  proof (cases "v > 0x7F")
    case False
    then have "v < 128" by (simp add: word_less_nat_alt not_less word_le_nat_alt)
    with small_byte [OF this] show ?thesis using 1(2) False
      by (simp add: append_loop.simps [of v] decode_loop.simps)
  next
    case True
    then have big: "2 ^ 7 \<le> unat v" by (simp add: word_less_nat_alt)
    have shift: "shift + 7 < 64"
    proof (rule ccontr)
      assume "\<not> shift + 7 < 64"
      then have "(2::nat) ^ (64 - shift) \<le> 2 ^ 7" by (intro power_increasing) auto
      with big 1(3) show False by linarith
    qed
    have "64 - shift = 64 - (shift + 7) + 7" using shift by simp
    then have "(2::nat) ^ (64 - shift) = 2 ^ (64 - (shift + 7)) * 2 ^ 7" by (simp only: power_add)
    then have "unat (drop_bit 7 v) < 2 ^ (64 - (shift + 7))"
      using 1(3) by (simp add: unat_div drop_bit_eq_div less_mult_imp_div_less)
    from "1.IH" [OF True shift this]
    have ih: "decode_loop (append_loop (drop_bit 7 v) @ r) (shift + 7) acc' =
        Ok (acc' + push_bit (shift + 7) (drop_bit 7 v), r)" for acc' .
    have a: "append_loop v = (ucast (v AND 0x7F) OR 0x80) # append_loop (drop_bit 7 v)"
      by (subst append_loop.simps) (simp only: True if_True)
    have "decode_loop (append_loop v @ r) shift acc =
        decode_loop (append_loop (drop_bit 7 v) @ r) (shift + 7) (acc + push_bit shift (v AND mask 7))"
      unfolding a append_Cons using 1(2)
      by (subst decode_loop.simps) (simp only: high_byte not_le [symmetric] if_False list.case Let_def)
    then show ?thesis unfolding ih
      by (simp only: push_bit_split_word [of shift v 7, symmetric] add.assoc)
  qed
qed

lemma prefix_mask_mask: "n < 8 \<Longrightarrow> prefix_mask n = mask n"
  unfolding prefix_mask_def
  by (rule bit_word_eqI) (auto simp: bit_drop_bit_eq bit_mask_iff bit_not_iff)

lemma bit_prefix_mask: "n < 8 \<Longrightarrow> bit (prefix_mask n) i \<longleftrightarrow> i < n"
  unfolding prefix_mask_mask by (simp only: bit_mask_iff) auto

lemma disjoint_bits: "(a :: 'a::len word) AND b = 0 \<Longrightarrow> bit a i \<Longrightarrow> bit b i \<Longrightarrow> False"
proof -
  assume "a AND b = 0" "bit a i" "bit b i"
  then have "bit (0 :: 'a word) i" using bit_and_iff [of a b i] by simp
  then show False by simp
qed

text \<open>The bytes \<open>AppendInteger\<close> appends.\<close>

definition integer_bytes :: "nat \<Rightarrow> u8 \<Rightarrow> u64 \<Rightarrow> u8 list" where
  "integer_bytes n pre value =
     (let m = prefix_mask n in
      if value < ucast m then [(ucast value AND m) OR pre]
      else (pre OR m) # append_loop (value - ucast m))"

lemma AppendInteger_bytes:
  "n < 8 \<Longrightarrow> prefix_mask n AND pre = 0 \<Longrightarrow> AppendInteger buf n pre value = Ok (buf @ integer_bytes n pre value)"
  by (simp add: AppendInteger_def integer_bytes_def Let_def)

lemma small_value:
  assumes "n < 8" "value < (ucast (prefix_mask n) :: u64)"
  shows "bit value i \<Longrightarrow> i < n" and "ucast (ucast value AND prefix_mask n) = value"
proof -
  have m: "(ucast (prefix_mask n) :: u64) = mask n"
    using assms(1) unfolding prefix_mask_mask [OF assms(1)]
    by (intro bit_word_eqI) (simp only: bit_unsigned_iff bit_mask_iff, auto)
  have "mask n AND mask n = (mask n :: u64)" by simp
  then have "uint (mask n :: u64) < 2 ^ n" by (rule iffD1 [OF mask_eq_iff])
  then have "uint value < 2 ^ n" using assms(2) unfolding m by (simp add: word_less_def)
  then have v: "value AND mask n = value" by (rule iffD2 [OF mask_eq_iff])
  show bits: "bit value i \<Longrightarrow> i < n" for i
    using arg_cong [OF v, of "\<lambda>w. bit w i"] by (simp only: bit_and_iff bit_mask_iff) blast
  show "ucast (ucast value AND prefix_mask n) = value"
    using bits assms(1)
    by (intro bit_word_eqI) (simp only: bit_unsigned_iff bit_and_iff bit_prefix_mask, force)
qed

lemma DecodeInteger_bytes:
  assumes n: "n < 8" and pre: "prefix_mask n AND pre = 0"
  shows "DecodeInteger (integer_bytes n pre value @ r) n = Ok (value, r, pre)"
proof -
  let ?m = "prefix_mask n"
  have disj: "\<not> (bit pre i \<and> i < n)" for i
    using disjoint_bits [OF pre, of i] bit_prefix_mask [OF n] by auto
  have keep: "(x OR pre) AND NOT ?m = pre" if "\<And>i. bit x i \<Longrightarrow> i < n" for x
    using that disj by (intro bit_word_eqI) (simp only: bit_and_iff bit_or_iff bit_not_iff bit_prefix_mask [OF n], auto)
  have low: "(x OR pre) AND ?m = x" if "\<And>i. bit x i \<Longrightarrow> i < n" for x
    using that disj by (intro bit_word_eqI) (simp only: bit_and_iff bit_or_iff bit_prefix_mask [OF n], auto)
  show ?thesis
  proof (cases "value < ucast ?m")
    case True
    define x where "x = (ucast value :: u8) AND ?m"
    have x: "\<And>i. bit x i \<Longrightarrow> i < n" unfolding x_def by (simp only: bit_and_iff bit_prefix_mask [OF n])
    have "ucast x = value" unfolding x_def by (rule small_value(2) [OF n True])
    then show ?thesis
      using True n by (simp add: integer_bytes_def Let_def x_def [symmetric] DecodeInteger_def
          DecodeIntegerWithFirstByte_def low [OF x] keep [OF x])
  next
    case False
    have m: "\<And>i. bit ?m i \<Longrightarrow> i < n" by (simp only: bit_prefix_mask [OF n])
    have "unat (value - ucast ?m) < 2 ^ 64" using unsigned_less [of "value - ucast ?m"] by simp
    then have "decode_loop (append_loop (value - ucast ?m) @ r) 0 (ucast ?m) =
        Ok (ucast ?m + push_bit 0 (value - ucast ?m), r)"
      by (intro decode_append_loop) simp_all
    then show ?thesis
      using False n by (simp add: integer_bytes_def Let_def DecodeInteger_def DecodeIntegerWithFirstByte_def
          low [OF m] keep [OF m] or.commute [of pre])
  qed
qed

text \<open>
  Integers round-trip: what \<open>AppendInteger\<close> appends for a value, with any prefix of fewer
  than eight bits and any bits above it, \<open>DecodeInteger\<close> reads back as that value and those bits,
  and leaves the input after it.
\<close>

theorem AppendInteger_DecodeInteger:
  assumes "n < 8" "prefix_mask n AND pre = 0"
  shows "\<exists>bs. AppendInteger buf n pre value = Ok (buf @ bs) \<and>
             DecodeInteger (bs @ r) n = Ok (value, r, pre)"
  using AppendInteger_bytes [OF assms] DecodeInteger_bytes [OF assms] by blast

theorem AppendInteger_DecodeInteger_witness:
  "\<exists>bs. AppendInteger [1] 5 0x40 1337 = Ok ([1] @ bs) \<and> DecodeInteger (bs @ [9]) 5 = Ok (1337, [9], 0x40)"
  by (rule AppendInteger_DecodeInteger) (simp, simp add: prefix_mask_def mask_eq_exp_minus_1)

lemma integer_codec:
  assumes "n < 8" "prefix_mask n AND pre = 0"
  shows "prefix_codec (integer_bytes n pre)
     (\<lambda>bs. bind_outcome (DecodeInteger bs n) (\<lambda>(value, r, pre). Ok (value, r))) (\<lambda>_. True)"
  by unfold_locales
     (simp_all add: DecodeInteger_bytes [OF assms], simp add: integer_bytes_def Let_def)

text \<open>The lengths and indices of header fields: a prefix of seven bits under a high bit.\<close>

interpretation indexed: prefix_codec "integer_bytes 7 0x80"
    "\<lambda>bs. bind_outcome (DecodeInteger bs 7) (\<lambda>(value, r, pre). Ok (value, r))" "\<lambda>_. True"
  by (rule integer_codec) (simp, simp add: prefix_mask_def mask_eq_exp_minus_1)

interpretation plain: prefix_codec "integer_bytes 7 0"
    "\<lambda>bs. bind_outcome (DecodeInteger bs 7) (\<lambda>(value, r, pre). Ok (value, r))" "\<lambda>_. True"
  by (rule integer_codec) (simp, simp add: prefix_mask_def mask_eq_exp_minus_1)

section \<open>Bounds\<close>

lemma append_loop_length:
  "unat v < 2 ^ (7 * k) \<Longrightarrow> 0 < k \<Longrightarrow> length (append_loop v) \<le> k"
proof (induction v arbitrary: k rule: append_loop.induct)
  case (1 v)
  show ?case
  proof (cases "v > 0x7F")
    case True
    then have big: "2 ^ 7 \<le> unat v" by (simp add: word_less_nat_alt)
    have k: "1 < k" using big 1(2,3) by (cases "k = 1") auto
    have "7 * k = 7 * (k - 1) + 7" using k by simp
    then have "(2::nat) ^ (7 * k) = 2 ^ (7 * (k - 1)) * 2 ^ 7" by (simp only: power_add)
    then have "unat (drop_bit 7 v) < 2 ^ (7 * (k - 1))"
      using 1(2) by (simp add: unat_div drop_bit_eq_div less_mult_imp_div_less)
    from "1.IH" [OF True this] k have "length (append_loop (drop_bit 7 v)) \<le> k - 1" by simp
    then show ?thesis
      using k by (subst append_loop.simps) (simp add: True del: append_loop.simps)
  next
    case False
    then show ?thesis using 1(3) by (subst append_loop.simps) simp
  qed
qed

lemma decode_loop_reads:
  "decode_loop r shift acc = Ok (value, r') \<Longrightarrow>
     \<exists>read. r = read @ r' \<and> read \<noteq> [] \<and> shift + 7 * (length read - 1) < 64"
proof (induction r shift acc rule: decode_loop.induct)
  case (1 r shift acc)
  show ?case
  proof (cases "shift \<ge> 64")
    case True
    then show ?thesis using "1.prems" by (simp add: decode_loop.simps [of r])
  next
    case False
    obtain b rs where r: "r = b # rs"
      using "1.prems" False by (cases r) (auto simp: decode_loop.simps [of "[]"])
    show ?thesis
    proof (cases "b AND 0x80 = 0")
      case True
      then have "rs = r'" using "1.prems" False by (simp add: r decode_loop.simps [of "b # rs"])
      then show ?thesis using False r by (intro exI [of _ "[b]"]) simp
    next
      case b: False
      have "decode_loop rs (shift + 7) (acc + push_bit shift (ucast (b AND 0x7F))) = Ok (value, r')"
        using "1.prems" False b by (simp add: r decode_loop.simps [of "b # rs"] Let_def)
      from "1.IH" [OF False r refl b this] obtain read
        where read: "rs = read @ r'" "read \<noteq> []" "shift + 7 + 7 * (length read - 1) < 64" by blast
      have "7 * (length (b # read) - 1) = 7 + 7 * (length read - 1)"
        using read(2) by (cases read) simp_all
      then show ?thesis using read r by (intro exI [of _ "b # read"]) simp
    qed
  qed
qed

lemma integer_bytes_length: "n < 8 \<Longrightarrow> length (integer_bytes n pre value) \<le> 11"
proof -
  have "unat (value - ucast (prefix_mask n)) < 2 ^ (7 * 10)"
    using less_trans [OF unsigned_less [of "value - ucast (prefix_mask n)"], of "2 ^ 70"] by simp
  from append_loop_length [OF this] show ?thesis by (simp add: integer_bytes_def Let_def)
qed

lemma integer_bytes_nonempty [simp]: "integer_bytes n pre value \<noteq> []"
  by (simp add: integer_bytes_def Let_def)

lemma DecodeInteger_reads:
  assumes "DecodeInteger r n = Ok (value, r', pre)"
  shows "\<exists>read. r = read @ r' \<and> 1 \<le> length read \<and> length read \<le> 11"
proof -
  obtain b rs where r: "r = b # rs" using assms by (cases r) (auto simp: DecodeInteger_def)
  show ?thesis
  proof (cases "rs = r'")
    case True
    then show ?thesis using r by (intro exI [of _ "[b]"]) simp
  next
    case False
    then have "\<exists>acc v. decode_loop rs 0 acc = Ok (v, r')"
      using assms by (auto simp: r DecodeInteger_def DecodeIntegerWithFirstByte_def Let_def
          split: if_splits outcome.splits)
    then obtain read where "rs = read @ r'" "7 * (length read - 1) < 64"
      using decode_loop_reads by fastforce
    then show ?thesis using r by (intro exI [of _ "b # read"]) simp
  qed
qed

lemma DecodeInteger_suffix: "DecodeInteger r n = Ok (value, r', pre) \<Longrightarrow> \<exists>read. r = read @ r'"
  using DecodeInteger_reads by blast

text \<open>
  No integer takes more than eleven bytes: \<open>AppendInteger\<close> appends between one and eleven,
  and \<open>DecodeInteger\<close>, whatever it is given, reads between one and eleven bytes off the front of
  the input before it returns a value.
\<close>

theorem integers_take_at_most_11_bytes:
  "(AppendInteger buf n pre value = Ok buf' \<longrightarrow>
      (\<exists>bs. buf' = buf @ bs \<and> 1 \<le> length bs \<and> length bs \<le> 11)) \<and>
   (DecodeInteger r n = Ok (value', r', pre') \<longrightarrow>
      (\<exists>read. r = read @ r' \<and> 1 \<le> length read \<and> length read \<le> 11))"
proof (intro conjI impI)
  assume a: "AppendInteger buf n pre value = Ok buf'"
  then have n: "n < 8" "prefix_mask n AND pre = 0"
    by (auto simp: AppendInteger_def Let_def split: if_splits)
  have "buf' = buf @ integer_bytes n pre value" using a AppendInteger_bytes [OF n] by simp
  then show "\<exists>bs. buf' = buf @ bs \<and> 1 \<le> length bs \<and> length bs \<le> 11"
    using integer_bytes_length [OF n(1)] integer_bytes_nonempty
    by (intro exI [of _ "integer_bytes n pre value"]) (simp add: Suc_le_eq)
qed (rule DecodeInteger_reads)

theorem integers_take_at_most_11_bytes_witness:
  "\<exists>read. [0x5F, 0x9A, 0x0A, 7] = read @ [7::u8] \<and> 1 \<le> length read \<and> length read \<le> 11"
proof -
  have "DecodeInteger [0x5F, 0x9A, 0x0A, 7] 5 = Ok (1337, [7], 0x40)"
    by (simp add: DecodeInteger_def DecodeIntegerWithFirstByte_def prefix_mask_def mask_eq_exp_minus_1
        decode_loop.simps Let_def)
  then show ?thesis using integers_take_at_most_11_bytes by blast
qed

lemma DecodeInteger_no_Panic: "DecodeInteger r n \<noteq> Panic"
proof -
  have "decode_loop r s v \<noteq> Panic" for r s v
    by (induction r s v rule: decode_loop.induct)
       (subst decode_loop.simps, simp add: Let_def split: list.splits)
  then show ?thesis
    by (auto simp: DecodeInteger_def DecodeIntegerWithFirstByte_def Let_def bind_outcome_Panic_iff
        split: list.splits outcome.splits)
qed

end
