(* ===== verification/Hpack_Huffman.thy ===== *)
theory Hpack_Huffman
  imports Hpack_Integer
begin

text \<open>
  The Huffman code of HPACK: the decoding tree, the code table, the bit writer and reader of
  \<open>protobuf/wire/h2/hpack/huffman.go\<close>, and the string literals of \<open>hpack_primitive.go\<close>
  (\<open>AppendString\<close>, \<open>decodeSingleChar\<close>, \<open>DecodeHuffmanString\<close>, \<open>DecodeString\<close>). The proofs about
  them are in \<open>Hpack_Huffman_Laws\<close>.
\<close>

section \<open>The decoding tree\<close>

type_synonym HuffmanTree = u32

definition raw_table :: "HuffmanTree list" where
  "raw_table =
    [
     229377, 65584, 1441795, 131250, 1343493, 884742, 2147483680, 262210, 295003, 327802,
     360631, 393244, 426113, 589838, 1114127, 557072, 2147483681, 2147483682, 622623, 753684,
     688319, 2686998, 2147483683, 2392088, 2752537, 852162, 2147483684, 2147483685, 1277981,
     1212446, 2147483686, 1048659, 1245217, 2147483687, 1179683, 2147483688, 2147483689,
     2147483690, 2147483691, 2359336, 2147483692, 1409066, 2147483693, 2147483694, 1933357,
     1835054, 1802287, 2147483695, 4882481, 1736754, 1703987, 2147483696, 2147483697, 4816950,
     2147483698, 2147483699, 1900601, 2147483700, 2147483701, 2064444, 2031677, 2147483702,
     2147483703, 2129984, 2147483704, 2147483705, 2195534, 2228390, 2261168, 2883654, 2850887,
     2147483706, 2147483707, 2424972, 2457742, 4390988, 4784205, 2147483708, 4980815, 4718672,
     2818129, 2147483709, 2147483710, 2147483711, 4358229, 2147483712, 2147483713, 2147483714,
     2949209, 2147483715, 2147483716, 3506268, 3276893, 3178590, 3145823, 2147483717,
     2147483718, 3244130, 2147483719, 2147483720, 3407973, 3375206, 2147483721, 2147483722,
     3473513, 2147483723, 2147483724, 3768428, 3670125, 3637358, 2147483725, 2147483726,
     3735665, 2147483727, 2147483728, 3899508, 3866741, 2147483729, 2147483730, 3965048,
     2147483731, 2147483732, 5308539, 4161660, 4128893, 2147483733, 2147483734, 4292736,
     2147483735, 4325506, 2147483736, 2147483737, 2147483738, 2147483739, 4423870, 6389896,
     9371785, 9044106, 13435019, 2147483740, 6324365, 2147483741, 6291599, 2147483742, 4849809,
     2147483743, 2147483744, 2147483745, 2147483746, 5243030, 5079191, 2147483747, 5144729,
     5111962, 2147483748, 2147483749, 2147483750, 5210270, 2147483751, 2147483752, 5636257,
     2147483753, 5701795, 5406884, 2147483754, 2147483755, 5570727, 5537960, 2147483756,
     2147483757, 5669035, 2147483758, 2147483759, 2147483760, 5963951, 2147483761, 5931185,
     2147483762, 5898419, 2147483763, 2147483764, 2147483765, 2147483766, 6127800, 6095033,
     2147483767, 2147483768, 6193340, 2147483769, 2147483770, 2147483771, 2147483772,
     2147483773, 2147483774, 2147483648, 6422807, 6652101, 6488441, 6521246, 9863368, 9765065,
     9666762, 2147483649, 6684986, 6717666, 6750570, 6783379, 6816184, 7569617, 7274706,
     7045331, 6947326, 7012565, 2147483650, 2147483651, 7176408, 7143641, 2147483652,
     2147483653, 7241948, 2147483654, 2147483655, 7962847, 7831776, 7799009, 2147483656,
     7438732, 10125540, 7504358, 10060006, 2147483657, 7602426, 7635211, 7667986, 7700982,
     8421612, 7897325, 2147483658, 2147483659, 7930096, 2147483660, 2147483661, 2147483662,
     8093940, 8061173, 2147483663, 2147483664, 8159480, 2147483665, 2147483666, 8519931,
     8356092, 8323325, 2147483667, 2147483668, 8487168, 2147483669, 16777474, 2147483670,
     2147483671, 8651013, 8618246, 2147483672, 2147483673, 8716553, 2147483674, 2147483675,
     8880396, 8847629, 2147483676, 2147483677, 8945936, 2147483678, 2147483679, 15040787,
     2147483775, 9077172, 9339158, 2147483776, 9175412, 10879257, 9535770, 9273817, 9503004,
     2147483777, 2147483778, 10748191, 12714272, 11305249, 2147483779, 2147483780, 9699620,
     9634085, 2147483781, 2147483782, 2147483783, 10256681, 2147483784, 9830699, 2147483785,
     2147483786, 9994542, 9961775, 2147483787, 2147483788, 10092850, 2147483789, 2147483790,
     2147483791, 10453302, 10223927, 2147483792, 2147483793, 2147483794, 11469115, 10649916,
     10551613, 10518846, 2147483795, 11174208, 2147483796, 2147483797, 10617155, 2147483798,
     2147483799, 11075910, 11010375, 2147483800, 10781137, 11632970, 11272523, 2147483801,
     11370829, 11206990, 11043151, 2147483802, 2147483803, 2147483804, 11141459, 2147483805,
     2147483806, 2147483807, 11338071, 2147483808, 2147483809, 2147483810, 2147483811,
     11796828, 11764061, 2147483812, 12091743, 11698528, 11600225, 2147483813, 2147483814,
     11993444, 2147483815, 12058982, 2147483816, 2147483817, 12026217, 2147483818, 13664619,
     14713196, 14221677, 2147483819, 2147483820, 2147483821, 2147483822, 12616050, 12550515,
     2147483823, 14778741, 12484982, 12321143, 2147483824, 2147483825, 12878202, 12779899,
     12583292, 2147483826, 14319998, 2147483827, 2147483828, 2147483829, 12681602, 2147483830,
     2147483831, 13402501, 2147483832, 12845447, 2147483833, 2147483834, 13107594, 13074827,
     2147483835, 13500813, 13173134, 2147483836, 2147483837, 13468049, 2147483838, 2147483839,
     13992340, 13894037, 13795734, 13369751, 2147483840, 2147483841, 2147483842, 2147483843,
     2147483844, 15532445, 2147483845, 15565215, 15434144, 2147483846, 13697505, 15663523,
     14254500, 2147483847, 13861286, 2147483848, 2147483849, 14352809, 14188970, 2147483850,
     14025159, 14057962, 14090751, 14156207, 2147483851, 2147483852, 2147483853, 2147483854,
     2147483855, 2147483856, 2147483857, 14614967, 2147483858, 16187833, 15106490, 14647739,
     14582204, 2147483859, 2147483860, 2147483861, 15073728, 2147483862, 15303106, 2147483863,
     15368644, 14877125, 2147483864, 2147483865, 15860168, 15008201, 2147483866, 2147483867,
     2147483868, 2147483869, 15991246, 15204815, 2147483870, 2147483871, 15335890, 2147483872,
     2147483873, 2147483874, 15466966, 2147483875, 2147483876, 2147483877, 2147483878,
     2147483879, 15630812, 2147483880, 2147483881, 15729119, 2147483882, 2147483883, 15827426,
     2147483884, 2147483885, 15958501, 2147483886, 2147483887, 2147483888, 16155113,
     2147483889, 16122347, 2147483890, 2147483891, 2147483892, 16482799, 16351728, 16318961,
     2147483893, 2147483894, 16417268, 2147483895, 2147483896, 2147483897, 16613880, 16581113,
     2147483898, 2147483899, 16679420, 2147483900, 2147483901, 2147483902, 2147483903,
     2147483904]"

definition OneIndex :: "HuffmanTree \<Rightarrow> u16" where
  "OneIndex h = ucast (drop_bit 15 (h AND 0x3FFF8000))"

definition ZeroIndex :: "HuffmanTree \<Rightarrow> u16" where
  "ZeroIndex h = ucast (h AND 0x7FFF)"

definition HasValue :: "HuffmanTree \<Rightarrow> bool" where
  "HasValue h \<longleftrightarrow> h AND 0x80000000 \<noteq> 0"

definition HuffmanTree_GetValue :: "HuffmanTree \<Rightarrow> u32" where
  "HuffmanTree_GetValue h = h AND 0x7FFFFFFF"

definition GetRoot :: HuffmanTree where
  "GetRoot = raw_table ! 0"

definition Next :: "HuffmanTree \<Rightarrow> bool \<Rightarrow> HuffmanTree option" where
  "Next h b =
     (if HasValue h then None
      else
        let nextIndex = if b then OneIndex h else ZeroIndex h in
        if nextIndex = 0 \<or> nextIndex \<ge> of_nat (length raw_table) then None
        else Some (raw_table ! unat nextIndex))"

section \<open>Writing bits\<close>

record Code =
  Code :: u32
  Bits :: u8
  Literal :: u16

record BitWriter =
  bits :: u8
  buf :: "u8 list"

definition WriteBit :: "bool \<Rightarrow> BitWriter \<Rightarrow> (hpack_error, BitWriter) outcome" where
  "WriteBit b c =
     (let byte = if b then 1 else (0 :: u8);
          c = if bits c = 0 then c \<lparr> buf := buf c @ [0], bits := 0 \<rparr> else c
      in if buf c = [] then Panic
         else Ok \<lparr> bits = (bits c + 1) AND 7,
                   buf = butlast (buf c) @ [last (buf c) OR push_bit (unat (7 - bits c)) byte] \<rparr>)"

lemma WriteBit_bits: "WriteBit b c = Ok c' \<Longrightarrow> bits c' = (bits c + 1) AND 7"
  by (auto simp: WriteBit_def Let_def split: if_splits)

lemma small_word: "unat (w :: u8) < 8 \<Longrightarrow> w \<in> {0, 1, 2, 3, 4, 5, 6, 7}"
proof -
  assume "unat w < 8"
  then have "unat w \<in> {0, 1, 2, 3, 4, 5, 6, 7}" by auto
  moreover have "w = word_of_nat (unat w)" by simp
  ultimately show ?thesis by fastforce
qed

text \<open>What is left to fill the byte the writer is in.\<close>

definition to_fill :: "BitWriter \<Rightarrow> nat" where
  "to_fill c = (if 8 \<le> bits c then 9 else if bits c = 0 then 0 else 8 - unat (bits c))"

lemma to_fill_decreases:
  assumes "bits c \<noteq> 0" "bits c' = (bits c + 1) AND 7"
  shows "to_fill c' < to_fill c"
proof -
  have "(7 :: u8) = mask 3" by (simp add: mask_eq_exp_minus_1)
  then have low: "bits c' < 8"
    using assms(2) and_mask_less_size [of 3 "bits c + 1"] by (simp add: word_size)
  show ?thesis
  proof (cases "8 \<le> bits c")
    case True
    then show ?thesis using low by (auto simp: to_fill_def not_le)
  next
    case False
    then have "bits c \<in> {1, 2, 3, 4, 5, 6, 7}"
      using assms(1) small_word [of "bits c"] by (simp add: not_le word_less_nat_alt)
    then show ?thesis using assms(2) by (auto simp: to_fill_def)
  qed
qed

function Fill :: "BitWriter \<Rightarrow> (hpack_error, BitWriter) outcome" where
  "Fill c =
     (if bits c = 0 then Ok c
      else case WriteBit True c of Ok c' \<Rightarrow> Fill c' | Err e \<Rightarrow> Err e | Panic \<Rightarrow> Panic)"
  by pat_completeness auto

termination
  by (relation "measure to_fill") (auto intro: to_fill_decreases WriteBit_bits)

declare Fill.simps [simp del]

fun write_loop :: "nat \<Rightarrow> u32 \<Rightarrow> u32 \<Rightarrow> BitWriter \<Rightarrow> (hpack_error, BitWriter) outcome" where
  "write_loop 0 code b w = Ok w"
| "write_loop (Suc n) code b w =
     bind_outcome (WriteBit (code AND b \<noteq> 0) w)
       (\<lambda>w. if b = 1 then Ok w else write_loop n code (drop_bit 1 b) w)"

definition Write :: "Code \<Rightarrow> BitWriter \<Rightarrow> (hpack_error, BitWriter) outcome" where
  "Write c w = write_loop (unat (Bits c)) (Code c) (push_bit (unat (Bits c - 1)) 1) w"

definition Codes :: "Code list" where
  "Codes =
    [
     \<lparr> Code = 8184, Bits = 13, Literal = 0 \<rparr>,
     \<lparr> Code = 8388568, Bits = 23, Literal = 1 \<rparr>,
     \<lparr> Code = 268435426, Bits = 28, Literal = 2 \<rparr>,
     \<lparr> Code = 268435427, Bits = 28, Literal = 3 \<rparr>,
     \<lparr> Code = 268435428, Bits = 28, Literal = 4 \<rparr>,
     \<lparr> Code = 268435429, Bits = 28, Literal = 5 \<rparr>,
     \<lparr> Code = 268435430, Bits = 28, Literal = 6 \<rparr>,
     \<lparr> Code = 268435431, Bits = 28, Literal = 7 \<rparr>,
     \<lparr> Code = 268435432, Bits = 28, Literal = 8 \<rparr>,
     \<lparr> Code = 16777194, Bits = 24, Literal = 9 \<rparr>,
     \<lparr> Code = 1073741820, Bits = 30, Literal = 10 \<rparr>,
     \<lparr> Code = 268435433, Bits = 28, Literal = 11 \<rparr>,
     \<lparr> Code = 268435434, Bits = 28, Literal = 12 \<rparr>,
     \<lparr> Code = 1073741821, Bits = 30, Literal = 13 \<rparr>,
     \<lparr> Code = 268435435, Bits = 28, Literal = 14 \<rparr>,
     \<lparr> Code = 268435436, Bits = 28, Literal = 15 \<rparr>,
     \<lparr> Code = 268435437, Bits = 28, Literal = 16 \<rparr>,
     \<lparr> Code = 268435438, Bits = 28, Literal = 17 \<rparr>,
     \<lparr> Code = 268435439, Bits = 28, Literal = 18 \<rparr>,
     \<lparr> Code = 268435440, Bits = 28, Literal = 19 \<rparr>,
     \<lparr> Code = 268435441, Bits = 28, Literal = 20 \<rparr>,
     \<lparr> Code = 268435442, Bits = 28, Literal = 21 \<rparr>,
     \<lparr> Code = 1073741822, Bits = 30, Literal = 22 \<rparr>,
     \<lparr> Code = 268435443, Bits = 28, Literal = 23 \<rparr>,
     \<lparr> Code = 268435444, Bits = 28, Literal = 24 \<rparr>,
     \<lparr> Code = 268435445, Bits = 28, Literal = 25 \<rparr>,
     \<lparr> Code = 268435446, Bits = 28, Literal = 26 \<rparr>,
     \<lparr> Code = 268435447, Bits = 28, Literal = 27 \<rparr>,
     \<lparr> Code = 268435448, Bits = 28, Literal = 28 \<rparr>,
     \<lparr> Code = 268435449, Bits = 28, Literal = 29 \<rparr>,
     \<lparr> Code = 268435450, Bits = 28, Literal = 30 \<rparr>,
     \<lparr> Code = 268435451, Bits = 28, Literal = 31 \<rparr>,
     \<lparr> Code = 20, Bits = 6, Literal = 32 \<rparr>,
     \<lparr> Code = 1016, Bits = 10, Literal = 33 \<rparr>,
     \<lparr> Code = 1017, Bits = 10, Literal = 34 \<rparr>,
     \<lparr> Code = 4090, Bits = 12, Literal = 35 \<rparr>,
     \<lparr> Code = 8185, Bits = 13, Literal = 36 \<rparr>,
     \<lparr> Code = 21, Bits = 6, Literal = 37 \<rparr>,
     \<lparr> Code = 248, Bits = 8, Literal = 38 \<rparr>,
     \<lparr> Code = 2042, Bits = 11, Literal = 39 \<rparr>,
     \<lparr> Code = 1018, Bits = 10, Literal = 40 \<rparr>,
     \<lparr> Code = 1019, Bits = 10, Literal = 41 \<rparr>,
     \<lparr> Code = 249, Bits = 8, Literal = 42 \<rparr>,
     \<lparr> Code = 2043, Bits = 11, Literal = 43 \<rparr>,
     \<lparr> Code = 250, Bits = 8, Literal = 44 \<rparr>,
     \<lparr> Code = 22, Bits = 6, Literal = 45 \<rparr>,
     \<lparr> Code = 23, Bits = 6, Literal = 46 \<rparr>,
     \<lparr> Code = 24, Bits = 6, Literal = 47 \<rparr>,
     \<lparr> Code = 0, Bits = 5, Literal = 48 \<rparr>,
     \<lparr> Code = 1, Bits = 5, Literal = 49 \<rparr>,
     \<lparr> Code = 2, Bits = 5, Literal = 50 \<rparr>,
     \<lparr> Code = 25, Bits = 6, Literal = 51 \<rparr>,
     \<lparr> Code = 26, Bits = 6, Literal = 52 \<rparr>,
     \<lparr> Code = 27, Bits = 6, Literal = 53 \<rparr>,
     \<lparr> Code = 28, Bits = 6, Literal = 54 \<rparr>,
     \<lparr> Code = 29, Bits = 6, Literal = 55 \<rparr>,
     \<lparr> Code = 30, Bits = 6, Literal = 56 \<rparr>,
     \<lparr> Code = 31, Bits = 6, Literal = 57 \<rparr>,
     \<lparr> Code = 92, Bits = 7, Literal = 58 \<rparr>,
     \<lparr> Code = 251, Bits = 8, Literal = 59 \<rparr>,
     \<lparr> Code = 32764, Bits = 15, Literal = 60 \<rparr>,
     \<lparr> Code = 32, Bits = 6, Literal = 61 \<rparr>,
     \<lparr> Code = 4091, Bits = 12, Literal = 62 \<rparr>,
     \<lparr> Code = 1020, Bits = 10, Literal = 63 \<rparr>,
     \<lparr> Code = 8186, Bits = 13, Literal = 64 \<rparr>,
     \<lparr> Code = 33, Bits = 6, Literal = 65 \<rparr>,
     \<lparr> Code = 93, Bits = 7, Literal = 66 \<rparr>,
     \<lparr> Code = 94, Bits = 7, Literal = 67 \<rparr>,
     \<lparr> Code = 95, Bits = 7, Literal = 68 \<rparr>,
     \<lparr> Code = 96, Bits = 7, Literal = 69 \<rparr>,
     \<lparr> Code = 97, Bits = 7, Literal = 70 \<rparr>,
     \<lparr> Code = 98, Bits = 7, Literal = 71 \<rparr>,
     \<lparr> Code = 99, Bits = 7, Literal = 72 \<rparr>,
     \<lparr> Code = 100, Bits = 7, Literal = 73 \<rparr>,
     \<lparr> Code = 101, Bits = 7, Literal = 74 \<rparr>,
     \<lparr> Code = 102, Bits = 7, Literal = 75 \<rparr>,
     \<lparr> Code = 103, Bits = 7, Literal = 76 \<rparr>,
     \<lparr> Code = 104, Bits = 7, Literal = 77 \<rparr>,
     \<lparr> Code = 105, Bits = 7, Literal = 78 \<rparr>,
     \<lparr> Code = 106, Bits = 7, Literal = 79 \<rparr>,
     \<lparr> Code = 107, Bits = 7, Literal = 80 \<rparr>,
     \<lparr> Code = 108, Bits = 7, Literal = 81 \<rparr>,
     \<lparr> Code = 109, Bits = 7, Literal = 82 \<rparr>,
     \<lparr> Code = 110, Bits = 7, Literal = 83 \<rparr>,
     \<lparr> Code = 111, Bits = 7, Literal = 84 \<rparr>,
     \<lparr> Code = 112, Bits = 7, Literal = 85 \<rparr>,
     \<lparr> Code = 113, Bits = 7, Literal = 86 \<rparr>,
     \<lparr> Code = 114, Bits = 7, Literal = 87 \<rparr>,
     \<lparr> Code = 252, Bits = 8, Literal = 88 \<rparr>,
     \<lparr> Code = 115, Bits = 7, Literal = 89 \<rparr>,
     \<lparr> Code = 253, Bits = 8, Literal = 90 \<rparr>,
     \<lparr> Code = 8187, Bits = 13, Literal = 91 \<rparr>,
     \<lparr> Code = 524272, Bits = 19, Literal = 92 \<rparr>,
     \<lparr> Code = 8188, Bits = 13, Literal = 93 \<rparr>,
     \<lparr> Code = 16380, Bits = 14, Literal = 94 \<rparr>,
     \<lparr> Code = 34, Bits = 6, Literal = 95 \<rparr>,
     \<lparr> Code = 32765, Bits = 15, Literal = 96 \<rparr>,
     \<lparr> Code = 3, Bits = 5, Literal = 97 \<rparr>,
     \<lparr> Code = 35, Bits = 6, Literal = 98 \<rparr>,
     \<lparr> Code = 4, Bits = 5, Literal = 99 \<rparr>,
     \<lparr> Code = 36, Bits = 6, Literal = 100 \<rparr>,
     \<lparr> Code = 5, Bits = 5, Literal = 101 \<rparr>,
     \<lparr> Code = 37, Bits = 6, Literal = 102 \<rparr>,
     \<lparr> Code = 38, Bits = 6, Literal = 103 \<rparr>,
     \<lparr> Code = 39, Bits = 6, Literal = 104 \<rparr>,
     \<lparr> Code = 6, Bits = 5, Literal = 105 \<rparr>,
     \<lparr> Code = 116, Bits = 7, Literal = 106 \<rparr>,
     \<lparr> Code = 117, Bits = 7, Literal = 107 \<rparr>,
     \<lparr> Code = 40, Bits = 6, Literal = 108 \<rparr>,
     \<lparr> Code = 41, Bits = 6, Literal = 109 \<rparr>,
     \<lparr> Code = 42, Bits = 6, Literal = 110 \<rparr>,
     \<lparr> Code = 7, Bits = 5, Literal = 111 \<rparr>,
     \<lparr> Code = 43, Bits = 6, Literal = 112 \<rparr>,
     \<lparr> Code = 118, Bits = 7, Literal = 113 \<rparr>,
     \<lparr> Code = 44, Bits = 6, Literal = 114 \<rparr>,
     \<lparr> Code = 8, Bits = 5, Literal = 115 \<rparr>,
     \<lparr> Code = 9, Bits = 5, Literal = 116 \<rparr>,
     \<lparr> Code = 45, Bits = 6, Literal = 117 \<rparr>,
     \<lparr> Code = 119, Bits = 7, Literal = 118 \<rparr>,
     \<lparr> Code = 120, Bits = 7, Literal = 119 \<rparr>,
     \<lparr> Code = 121, Bits = 7, Literal = 120 \<rparr>,
     \<lparr> Code = 122, Bits = 7, Literal = 121 \<rparr>,
     \<lparr> Code = 123, Bits = 7, Literal = 122 \<rparr>,
     \<lparr> Code = 32766, Bits = 15, Literal = 123 \<rparr>,
     \<lparr> Code = 2044, Bits = 11, Literal = 124 \<rparr>,
     \<lparr> Code = 16381, Bits = 14, Literal = 125 \<rparr>,
     \<lparr> Code = 8189, Bits = 13, Literal = 126 \<rparr>,
     \<lparr> Code = 268435452, Bits = 28, Literal = 127 \<rparr>,
     \<lparr> Code = 1048550, Bits = 20, Literal = 128 \<rparr>,
     \<lparr> Code = 4194258, Bits = 22, Literal = 129 \<rparr>,
     \<lparr> Code = 1048551, Bits = 20, Literal = 130 \<rparr>,
     \<lparr> Code = 1048552, Bits = 20, Literal = 131 \<rparr>,
     \<lparr> Code = 4194259, Bits = 22, Literal = 132 \<rparr>,
     \<lparr> Code = 4194260, Bits = 22, Literal = 133 \<rparr>,
     \<lparr> Code = 4194261, Bits = 22, Literal = 134 \<rparr>,
     \<lparr> Code = 8388569, Bits = 23, Literal = 135 \<rparr>,
     \<lparr> Code = 4194262, Bits = 22, Literal = 136 \<rparr>,
     \<lparr> Code = 8388570, Bits = 23, Literal = 137 \<rparr>,
     \<lparr> Code = 8388571, Bits = 23, Literal = 138 \<rparr>,
     \<lparr> Code = 8388572, Bits = 23, Literal = 139 \<rparr>,
     \<lparr> Code = 8388573, Bits = 23, Literal = 140 \<rparr>,
     \<lparr> Code = 8388574, Bits = 23, Literal = 141 \<rparr>,
     \<lparr> Code = 16777195, Bits = 24, Literal = 142 \<rparr>,
     \<lparr> Code = 8388575, Bits = 23, Literal = 143 \<rparr>,
     \<lparr> Code = 16777196, Bits = 24, Literal = 144 \<rparr>,
     \<lparr> Code = 16777197, Bits = 24, Literal = 145 \<rparr>,
     \<lparr> Code = 4194263, Bits = 22, Literal = 146 \<rparr>,
     \<lparr> Code = 8388576, Bits = 23, Literal = 147 \<rparr>,
     \<lparr> Code = 16777198, Bits = 24, Literal = 148 \<rparr>,
     \<lparr> Code = 8388577, Bits = 23, Literal = 149 \<rparr>,
     \<lparr> Code = 8388578, Bits = 23, Literal = 150 \<rparr>,
     \<lparr> Code = 8388579, Bits = 23, Literal = 151 \<rparr>,
     \<lparr> Code = 8388580, Bits = 23, Literal = 152 \<rparr>,
     \<lparr> Code = 2097116, Bits = 21, Literal = 153 \<rparr>,
     \<lparr> Code = 4194264, Bits = 22, Literal = 154 \<rparr>,
     \<lparr> Code = 8388581, Bits = 23, Literal = 155 \<rparr>,
     \<lparr> Code = 4194265, Bits = 22, Literal = 156 \<rparr>,
     \<lparr> Code = 8388582, Bits = 23, Literal = 157 \<rparr>,
     \<lparr> Code = 8388583, Bits = 23, Literal = 158 \<rparr>,
     \<lparr> Code = 16777199, Bits = 24, Literal = 159 \<rparr>,
     \<lparr> Code = 4194266, Bits = 22, Literal = 160 \<rparr>,
     \<lparr> Code = 2097117, Bits = 21, Literal = 161 \<rparr>,
     \<lparr> Code = 1048553, Bits = 20, Literal = 162 \<rparr>,
     \<lparr> Code = 4194267, Bits = 22, Literal = 163 \<rparr>,
     \<lparr> Code = 4194268, Bits = 22, Literal = 164 \<rparr>,
     \<lparr> Code = 8388584, Bits = 23, Literal = 165 \<rparr>,
     \<lparr> Code = 8388585, Bits = 23, Literal = 166 \<rparr>,
     \<lparr> Code = 2097118, Bits = 21, Literal = 167 \<rparr>,
     \<lparr> Code = 8388586, Bits = 23, Literal = 168 \<rparr>,
     \<lparr> Code = 4194269, Bits = 22, Literal = 169 \<rparr>,
     \<lparr> Code = 4194270, Bits = 22, Literal = 170 \<rparr>,
     \<lparr> Code = 16777200, Bits = 24, Literal = 171 \<rparr>,
     \<lparr> Code = 2097119, Bits = 21, Literal = 172 \<rparr>,
     \<lparr> Code = 4194271, Bits = 22, Literal = 173 \<rparr>,
     \<lparr> Code = 8388587, Bits = 23, Literal = 174 \<rparr>,
     \<lparr> Code = 8388588, Bits = 23, Literal = 175 \<rparr>,
     \<lparr> Code = 2097120, Bits = 21, Literal = 176 \<rparr>,
     \<lparr> Code = 2097121, Bits = 21, Literal = 177 \<rparr>,
     \<lparr> Code = 4194272, Bits = 22, Literal = 178 \<rparr>,
     \<lparr> Code = 2097122, Bits = 21, Literal = 179 \<rparr>,
     \<lparr> Code = 8388589, Bits = 23, Literal = 180 \<rparr>,
     \<lparr> Code = 4194273, Bits = 22, Literal = 181 \<rparr>,
     \<lparr> Code = 8388590, Bits = 23, Literal = 182 \<rparr>,
     \<lparr> Code = 8388591, Bits = 23, Literal = 183 \<rparr>,
     \<lparr> Code = 1048554, Bits = 20, Literal = 184 \<rparr>,
     \<lparr> Code = 4194274, Bits = 22, Literal = 185 \<rparr>,
     \<lparr> Code = 4194275, Bits = 22, Literal = 186 \<rparr>,
     \<lparr> Code = 4194276, Bits = 22, Literal = 187 \<rparr>,
     \<lparr> Code = 8388592, Bits = 23, Literal = 188 \<rparr>,
     \<lparr> Code = 4194277, Bits = 22, Literal = 189 \<rparr>,
     \<lparr> Code = 4194278, Bits = 22, Literal = 190 \<rparr>,
     \<lparr> Code = 8388593, Bits = 23, Literal = 191 \<rparr>,
     \<lparr> Code = 67108832, Bits = 26, Literal = 192 \<rparr>,
     \<lparr> Code = 67108833, Bits = 26, Literal = 193 \<rparr>,
     \<lparr> Code = 1048555, Bits = 20, Literal = 194 \<rparr>,
     \<lparr> Code = 524273, Bits = 19, Literal = 195 \<rparr>,
     \<lparr> Code = 4194279, Bits = 22, Literal = 196 \<rparr>,
     \<lparr> Code = 8388594, Bits = 23, Literal = 197 \<rparr>,
     \<lparr> Code = 4194280, Bits = 22, Literal = 198 \<rparr>,
     \<lparr> Code = 33554412, Bits = 25, Literal = 199 \<rparr>,
     \<lparr> Code = 67108834, Bits = 26, Literal = 200 \<rparr>,
     \<lparr> Code = 67108835, Bits = 26, Literal = 201 \<rparr>,
     \<lparr> Code = 67108836, Bits = 26, Literal = 202 \<rparr>,
     \<lparr> Code = 134217694, Bits = 27, Literal = 203 \<rparr>,
     \<lparr> Code = 134217695, Bits = 27, Literal = 204 \<rparr>,
     \<lparr> Code = 67108837, Bits = 26, Literal = 205 \<rparr>,
     \<lparr> Code = 16777201, Bits = 24, Literal = 206 \<rparr>,
     \<lparr> Code = 33554413, Bits = 25, Literal = 207 \<rparr>,
     \<lparr> Code = 524274, Bits = 19, Literal = 208 \<rparr>,
     \<lparr> Code = 2097123, Bits = 21, Literal = 209 \<rparr>,
     \<lparr> Code = 67108838, Bits = 26, Literal = 210 \<rparr>,
     \<lparr> Code = 134217696, Bits = 27, Literal = 211 \<rparr>,
     \<lparr> Code = 134217697, Bits = 27, Literal = 212 \<rparr>,
     \<lparr> Code = 67108839, Bits = 26, Literal = 213 \<rparr>,
     \<lparr> Code = 134217698, Bits = 27, Literal = 214 \<rparr>,
     \<lparr> Code = 16777202, Bits = 24, Literal = 215 \<rparr>,
     \<lparr> Code = 2097124, Bits = 21, Literal = 216 \<rparr>,
     \<lparr> Code = 2097125, Bits = 21, Literal = 217 \<rparr>,
     \<lparr> Code = 67108840, Bits = 26, Literal = 218 \<rparr>,
     \<lparr> Code = 67108841, Bits = 26, Literal = 219 \<rparr>,
     \<lparr> Code = 268435453, Bits = 28, Literal = 220 \<rparr>,
     \<lparr> Code = 134217699, Bits = 27, Literal = 221 \<rparr>,
     \<lparr> Code = 134217700, Bits = 27, Literal = 222 \<rparr>,
     \<lparr> Code = 134217701, Bits = 27, Literal = 223 \<rparr>,
     \<lparr> Code = 1048556, Bits = 20, Literal = 224 \<rparr>,
     \<lparr> Code = 16777203, Bits = 24, Literal = 225 \<rparr>,
     \<lparr> Code = 1048557, Bits = 20, Literal = 226 \<rparr>,
     \<lparr> Code = 2097126, Bits = 21, Literal = 227 \<rparr>,
     \<lparr> Code = 4194281, Bits = 22, Literal = 228 \<rparr>,
     \<lparr> Code = 2097127, Bits = 21, Literal = 229 \<rparr>,
     \<lparr> Code = 2097128, Bits = 21, Literal = 230 \<rparr>,
     \<lparr> Code = 8388595, Bits = 23, Literal = 231 \<rparr>,
     \<lparr> Code = 4194282, Bits = 22, Literal = 232 \<rparr>,
     \<lparr> Code = 4194283, Bits = 22, Literal = 233 \<rparr>,
     \<lparr> Code = 33554414, Bits = 25, Literal = 234 \<rparr>,
     \<lparr> Code = 33554415, Bits = 25, Literal = 235 \<rparr>,
     \<lparr> Code = 16777204, Bits = 24, Literal = 236 \<rparr>,
     \<lparr> Code = 16777205, Bits = 24, Literal = 237 \<rparr>,
     \<lparr> Code = 67108842, Bits = 26, Literal = 238 \<rparr>,
     \<lparr> Code = 8388596, Bits = 23, Literal = 239 \<rparr>,
     \<lparr> Code = 67108843, Bits = 26, Literal = 240 \<rparr>,
     \<lparr> Code = 134217702, Bits = 27, Literal = 241 \<rparr>,
     \<lparr> Code = 67108844, Bits = 26, Literal = 242 \<rparr>,
     \<lparr> Code = 67108845, Bits = 26, Literal = 243 \<rparr>,
     \<lparr> Code = 134217703, Bits = 27, Literal = 244 \<rparr>,
     \<lparr> Code = 134217704, Bits = 27, Literal = 245 \<rparr>,
     \<lparr> Code = 134217705, Bits = 27, Literal = 246 \<rparr>,
     \<lparr> Code = 134217706, Bits = 27, Literal = 247 \<rparr>,
     \<lparr> Code = 134217707, Bits = 27, Literal = 248 \<rparr>,
     \<lparr> Code = 268435454, Bits = 28, Literal = 249 \<rparr>,
     \<lparr> Code = 134217708, Bits = 27, Literal = 250 \<rparr>,
     \<lparr> Code = 134217709, Bits = 27, Literal = 251 \<rparr>,
     \<lparr> Code = 134217710, Bits = 27, Literal = 252 \<rparr>,
     \<lparr> Code = 134217711, Bits = 27, Literal = 253 \<rparr>,
     \<lparr> Code = 134217712, Bits = 27, Literal = 254 \<rparr>,
     \<lparr> Code = 67108846, Bits = 26, Literal = 255 \<rparr>,
     \<lparr> Code = 1073741823, Bits = 30, Literal = 256 \<rparr>]"

definition HuffmanLength :: "u8 list \<Rightarrow> nat" where
  "HuffmanLength str = ((\<Sum>c\<leftarrow>str. unat (Bits (Codes ! unat c))) + 7) div 8"

section \<open>Reading bits\<close>

record BitReader =
  input :: "u8 list"
  pos :: nat
  offset :: u8

text \<open>\<open>None\<close> is \<open>io.EOF\<close>.\<close>

definition ReadBit :: "BitReader \<Rightarrow> (bool \<times> BitReader) option" where
  "ReadBit r =
     (if pos r \<ge> length (input r) then None
      else
        let b = (input r ! pos r) AND push_bit (unat (7 - offset r)) 1 \<noteq> 0;
            r' = r \<lparr> offset := offset r + 1 \<rparr>
        in Some (b, if offset r' = 8 then r' \<lparr> offset := 0, pos := pos r' + 1 \<rparr> else r'))"

text \<open>An upper bound on the bits that can still be read, whatever the offset.\<close>

definition unread :: "BitReader \<Rightarrow> nat" where
  "unread r = (length (input r) - pos r) * 256 + unat (7 - offset r)"

lemma unread_decreases: "ReadBit r = Some (b, r') \<Longrightarrow> unread r' < unread r"
proof -
  assume a: "ReadBit r = Some (b, r')"
  then have more: "pos r < length (input r)" by (simp add: ReadBit_def split: if_splits)
  show ?thesis
  proof (cases "offset r = 7")
    case True
    have "length (input r) - pos r = Suc (length (input r) - Suc (pos r))" using more by simp
    then show ?thesis using a more True by (auto simp: ReadBit_def unread_def Let_def)
  next
    case False
    then have "offset r + 1 \<noteq> 8" using eq_diff_eq [of "offset r" 8 1] by simp
    moreover have "unat (7 - (offset r + 1)) < unat (7 - offset r)"
    proof -
      have "7 - offset r \<noteq> 0" using False by (metis eq_iff_diff_eq_0)
      then have "unat (7 - offset r - 1) < unat (7 - offset r)"
        by (rule measure_unat)
      then show ?thesis by (simp add: diff_diff_eq)
    qed
    ultimately show ?thesis using a more by (auto simp: ReadBit_def unread_def Let_def)
  qed
qed

section \<open>Decoding a string\<close>

text \<open>
  One character: \<open>allone\<close> is one more than the number of ones read, or zero once a zero was read.
  At the end of the input the padding, at most seven ones, is the code's \<open>ErrDone\<close>.
\<close>

function decode_char_loop ::
    "BitReader \<Rightarrow> HuffmanTree \<Rightarrow> int \<Rightarrow> (hpack_error, HuffmanTree \<times> BitReader) outcome" where
  "decode_char_loop r node allone =
     (if HasValue node then Ok (node, r)
      else
        case ReadBit r of
          None \<Rightarrow>
            if node = GetRoot \<or> allone \<noteq> 0 \<and> allone - 1 \<le> 7 then Err HuffmanDone else Err UnexpectedEOF
        | Some (b, r') \<Rightarrow>
            let allone' = if allone \<noteq> 0 \<and> b then allone + 1 else 0 in
            case Next node b of
              None \<Rightarrow> Err InvalidHuffman
            | Some next \<Rightarrow> decode_char_loop r' next allone')"
  by pat_completeness auto

termination
  by (relation "measure (\<lambda>(r, node, allone). unread r)") (auto intro: unread_decreases)

declare decode_char_loop.simps [simp del]

definition decodeSingleChar :: "BitReader \<Rightarrow> (hpack_error, HuffmanTree \<times> BitReader) outcome" where
  "decodeSingleChar r = decode_char_loop r GetRoot 1"

lemma decode_char_loop_unread:
  "decode_char_loop r node allone = Ok (node', r') \<Longrightarrow>
     unread r' \<le> unread r \<and> (\<not> HasValue node \<longrightarrow> unread r' < unread r)"
proof (induction r node allone rule: decode_char_loop.induct)
  case (1 r node allone)
  show ?case
  proof (cases "HasValue node")
    case True
    then show ?thesis using "1.prems" by (simp add: decode_char_loop.simps [of r])
  next
    case False
    then obtain b s where read: "ReadBit r = Some (b, s)"
      using "1.prems" by (cases "ReadBit r") (auto simp: decode_char_loop.simps [of r] split: if_splits)
    then obtain n where n: "Next node b = Some n"
      using "1.prems" False by (cases "Next node b") (auto simp: decode_char_loop.simps [of r] Let_def)
    have "decode_char_loop s n (if allone \<noteq> 0 \<and> b then allone + 1 else 0) = Ok (node', r')"
      using "1.prems" False read n by (simp add: decode_char_loop.simps [of r node] Let_def)
    from "1.IH" [OF False read refl refl n this] unread_decreases [OF read] show ?thesis by simp
  qed
qed

lemma root_no_value: "\<not> HasValue GetRoot"
  by (simp add: GetRoot_def raw_table_def HasValue_def)

function decode_huffman_loop :: "BitReader \<Rightarrow> u8 list \<Rightarrow> (hpack_error, u8 list) outcome" where
  "decode_huffman_loop r result =
     (case decodeSingleChar r of
        Panic \<Rightarrow> Panic
      | Err e \<Rightarrow> if e = HuffmanDone then Ok result else Err e
      | Ok (node, r') \<Rightarrow>
          if HuffmanTree_GetValue node = 256 then Err HuffmanOutOfRange
          else decode_huffman_loop r' (result @ [ucast (HuffmanTree_GetValue node)]))"
  by pat_completeness auto

termination
  by (relation "measure (\<lambda>(r, result). unread r)")
     (auto simp: decodeSingleChar_def root_no_value dest: decode_char_loop_unread)

declare decode_huffman_loop.simps [simp del]

definition DecodeHuffmanString :: "u8 list \<Rightarrow> (hpack_error, u8 list) outcome" where
  "DecodeHuffmanString r = decode_huffman_loop \<lparr> input = r, pos = 0, offset = 0 \<rparr> []"

section \<open>String literals\<close>

datatype AppendStringMode = BestEffort | ForceHuffman | ForceLiteral

fun write_string :: "u8 list \<Rightarrow> BitWriter \<Rightarrow> (hpack_error, BitWriter) outcome" where
  "write_string [] w = Ok w"
| "write_string (c # str) w = bind_outcome (Write (Codes ! unat c) w) (write_string str)"

definition AppendString ::
    "u8 list \<Rightarrow> u8 \<Rightarrow> u8 list \<Rightarrow> AppendStringMode \<Rightarrow> (hpack_error, u8 list) outcome" where
  "AppendString b pre str mode =
     (let huffLen = HuffmanLength str;
          literalIsBetter = huffLen > length str;
          literalIsBetter =
            (case mode of
               ForceHuffman \<Rightarrow> False
             | ForceLiteral \<Rightarrow> True
             | BestEffort \<Rightarrow> literalIsBetter)
      in if literalIsBetter then
           bind_outcome (AppendInteger b 7 (0x7F AND pre) (of_nat (length str))) (\<lambda>b. Ok (b @ str))
         else
           bind_outcome (AppendInteger b 7 (0x80 OR pre) (of_nat huffLen)) (\<lambda>b.
           bind_outcome (write_string str \<lparr> bits = 0, buf = [] \<rparr>) (\<lambda>w.
           bind_outcome (Fill w) (\<lambda>w. Ok (b @ buf w)))))"

text \<open>\<open>int(expectLen)\<close> is negative from \<open>2 ^ 63\<close> on, and slicing past the input then panics.\<close>

definition DecodeStringWithLenPrefix ::
    "u8 list \<Rightarrow> u64 \<Rightarrow> u8 \<Rightarrow> (hpack_error, u8 list \<times> u8 list) outcome" where
  "DecodeStringWithLenPrefix r expectLen pre =
     (if int (length r) < sint expectLen then Err StringTooLong
      else if length r < unat expectLen then Panic
      else if pre AND 0x80 \<noteq> 0 then
        bind_outcome (DecodeHuffmanString (take (unat expectLen) r))
          (\<lambda>decoded. Ok (decoded, drop (unat expectLen) r))
      else Ok (take (unat expectLen) r, drop (unat expectLen) r))"

definition DecodeString :: "u8 list \<Rightarrow> (hpack_error, u8 list \<times> u8 list) outcome" where
  "DecodeString r =
     bind_outcome (DecodeInteger r 7) (\<lambda>(len, r, pre). DecodeStringWithLenPrefix r len pre)"

definition DecodeStringWithFirstByte ::
    "u8 list \<Rightarrow> u8 \<Rightarrow> (hpack_error, u8 list \<times> u8 list) outcome" where
  "DecodeStringWithFirstByte r first_byte =
     bind_outcome (DecodeIntegerWithFirstByte r 7 first_byte)
       (\<lambda>(len, r, pre). DecodeStringWithLenPrefix r len pre)"

end
