(* ===== verification/Hpack_Huffman_Laws.thy ===== *)
theory Hpack_Huffman_Laws
  imports Hpack_Huffman
begin

text \<open>
  The Huffman code is a code: the leaves of \<open>raw_table\<close> are the 257 entries of \<open>Codes\<close>, each at
  the end of the path its bits spell. The bit writer and reader are sequences of bits, and a
  string literal round-trips in each of its two forms.
\<close>

section \<open>The tree and the table agree\<close>

text \<open>A walk down the tree, and the bits of a code, the most significant first.\<close>

fun walk :: "HuffmanTree \<Rightarrow> bool list \<Rightarrow> HuffmanTree option" where
  "walk h [] = Some h"
| "walk h (b # bs) = (case Next h b of None \<Rightarrow> None | Some h' \<Rightarrow> walk h' bs)"

primrec low_bits :: "nat \<Rightarrow> u32 \<Rightarrow> bool list" where
  "low_bits 0 w = []"
| "low_bits (Suc n) w = bit w n # low_bits n w"

definition code_bits :: "Code \<Rightarrow> bool list" where
  "code_bits c = low_bits (unat (Bits c)) (Code c)"

lemma low_bits_numeral: "low_bits (numeral n) w = bit w (pred_numeral n) # low_bits (pred_numeral n) w"
  by (simp add: numeral_eq_Suc)

text \<open>Every leaf below a node with the path to it; \<open>- 1\<close> marks a path that leads nowhere.\<close>

fun leaves :: "nat \<Rightarrow> HuffmanTree \<Rightarrow> (bool list \<times> u32) list" where
  "leaves n h =
     (if HasValue h then [([], HuffmanTree_GetValue h)]
      else case n of
        0 \<Rightarrow> [([], - 1)]
      | Suc n' \<Rightarrow>
          concat (map (\<lambda>b. case Next h b of
                       None \<Rightarrow> [([], - 1)]
                     | Some h' \<Rightarrow> map (\<lambda>(p, v). (b # p, v)) (leaves n' h')) [False, True]))"

declare leaves.simps [simp del]

lemma HasValue_numeral [simp]: "HasValue (numeral n) \<longleftrightarrow> (numeral n :: u32) AND 0x80000000 \<noteq> 0"
  by (simp add: HasValue_def)

lemma leaves_leaf: "HasValue h \<Longrightarrow> leaves n h = [([], HuffmanTree_GetValue h)]"
  by (simp add: leaves.simps)

lemma leaves_node:
  "\<not> HasValue h \<Longrightarrow> Next h False = Some a \<Longrightarrow> Next h True = Some b \<Longrightarrow>
     leaves (Suc n) h =
       map (\<lambda>(p, v). (False # p, v)) (leaves n a) @ map (\<lambda>(p, v). (True # p, v)) (leaves n b)"
  by (subst leaves.simps) simp

lemma raw_table_length: "length raw_table = 513"
  by (simp add: raw_table_def)

lemma Next_numeral:
  "Next (numeral n) b = 
     (if HasValue (numeral n) then None
      else
        let i = unat (if b then OneIndex (numeral n) else ZeroIndex (numeral n)) in
        if i = 0 \<or> i \<ge> 513 then None else Some (raw_table ! i))"
  by (simp add: Next_def Let_def word_le_nat_alt unat_eq_0 raw_table_length)

lemma leaves_numeral:
  "\<not> HasValue h \<Longrightarrow> Next h False = Some a \<Longrightarrow> Next h True = Some b \<Longrightarrow>
     leaves (numeral n) h =
       map (\<lambda>(p, v). (False # p, v)) (leaves (pred_numeral n) a) @
       map (\<lambda>(p, v). (True # p, v)) (leaves (pred_numeral n) b)"
  by (simp add: numeral_eq_Suc leaves_node)



primrec nth_from :: "'a list \<Rightarrow> nat \<Rightarrow> 'a list \<Rightarrow> bool" where
  "nth_from xs k [] \<longleftrightarrow> True"
| "nth_from xs k (v # ys) \<longleftrightarrow> xs ! k = v \<and> nth_from xs (k + 1) ys"

lemma nth_from_drop: "xs = ps @ ys \<Longrightarrow> nth_from xs (length ps) ys"
  by (induction ys arbitrary: ps) (auto simp: nth_append)

lemma nth_from_all: "xs = ys \<Longrightarrow> nth_from xs 0 ys"
  using nth_from_drop [of xs "[]" ys] by simp

lemmas raw_table_nth =
  nth_from_all [OF raw_table_def, simplified nth_from.simps add_0 one_add_one numeral_plus_one add_num_simps,
    unfolded One_nat_def]

lemmas Codes_nth =
  nth_from_all [OF Codes_def, simplified nth_from.simps add_0 one_add_one numeral_plus_one add_num_simps,
    unfolded One_nat_def]

lemmas evaluate_leaves =
  leaves_leaf leaves_numeral leaves_node [where n = 0, simplified]
  Next_numeral OneIndex_def ZeroIndex_def HuffmanTree_GetValue_def Let_def raw_table_nth

text \<open>Every leaf carries one of 257 values, and lies where the code of that value leads.\<close>

definition same_code :: "(bool list \<times> u32) list \<Rightarrow> bool" where
  "same_code ls \<longleftrightarrow>
     length ls = 257 \<and> list_all (\<lambda>(p, v). v < 257 \<and> p = code_bits (Codes ! unat v)) ls"

lemma GetRoot_value: "GetRoot = 229377"
  by (simp add: GetRoot_def raw_table_nth)

lemma leaves_same_code: "same_code (leaves 30 229377)"
proof (simp add: evaluate_leaves, simp only: same_code_def)
qed (simp add: code_bits_def Codes_nth low_bits_numeral)

lemma leaves_agree:
  assumes "(p, v) \<in> set (leaves 30 GetRoot)"
  shows "unat v < 257" "p = code_bits (Codes ! unat v)" "v \<noteq> - 1"
proof -
  have "list_all (\<lambda>(p, v). v < 257 \<and> p = code_bits (Codes ! unat v)) (leaves 30 GetRoot)"
    using leaves_same_code unfolding same_code_def GetRoot_value by blast
  then have "v < 257 \<and> p = code_bits (Codes ! unat v)"
    using assms by (auto simp: list_all_iff)
  then show "unat v < 257" "p = code_bits (Codes ! unat v)" "v \<noteq> - 1"
    by (auto simp: word_less_nat_alt unsigned_minus_1_eq_mask mask_eq_exp_minus_1)
qed

section \<open>Leaves are where walks end\<close>

lemma leaves_walk:
  "(p, v) \<in> set (leaves n h) \<Longrightarrow> v \<noteq> - 1 \<Longrightarrow> \<exists>l. walk h p = Some l \<and> HasValue l \<and> HuffmanTree_GetValue l = v"
proof (induction n h arbitrary: p rule: leaves.induct)
  case (1 n h)
  show ?case
  proof (cases "HasValue h")
    case True
    then show ?thesis using "1.prems" by (simp add: leaves_leaf)
  next
    case False
    then obtain m where n: "n = Suc m" using "1.prems" by (cases n) (auto simp: leaves.simps [of 0])
    have "\<exists>b. (p, v) \<in> set (case Next h b of None \<Rightarrow> [([], - 1)]
                     | Some h' \<Rightarrow> map (\<lambda>(p, v). (b # p, v)) (leaves m h'))"
      using "1.prems"(1) False by (subst (asm) leaves.simps) (auto simp: n)
    then obtain b where b: "(p, v) \<in> set (case Next h b of None \<Rightarrow> [([], - 1)]
                     | Some h' \<Rightarrow> map (\<lambda>(p, v). (b # p, v)) (leaves m h'))" by blast
    then obtain h' q where h': "Next h b = Some h'" and q: "p = b # q" "(q, v) \<in> set (leaves m h')"
      using "1.prems"(2) by (auto split: option.splits)
    have "b \<in> set [False, True]" by simp
    from "1.IH" [OF False n this h' q(2) "1.prems"(2)] h' q(1) show ?thesis by simp
  qed
qed

lemma walk_leaves:
  "walk h p = Some l \<Longrightarrow> HasValue l \<Longrightarrow> (\<And>q v. (q, v) \<in> set (leaves n h) \<Longrightarrow> v \<noteq> - 1) \<Longrightarrow>
     (p, HuffmanTree_GetValue l) \<in> set (leaves n h)"
proof (induction p arbitrary: n h)
  case Nil
  then show ?case by (simp add: leaves_leaf)
next
  case (Cons b p)
  obtain h' where h': "Next h b = Some h'" "walk h' p = Some l"
    using Cons.prems(1) by (auto split: option.splits)
  have inner: "\<not> HasValue h" using h'(1) by (auto simp: Next_def split: if_splits)
  obtain m where n: "n = Suc m"
    using Cons.prems(3) [of "[]" "- 1"] inner by (cases n) (auto simp: leaves.simps [of 0])
  have sub: "set (map (\<lambda>(p, v). (b # p, v)) (leaves m h')) \<subseteq> set (leaves n h)"
    using h'(1) inner unfolding n by (subst (2) leaves.simps) (cases b; auto)
  have "(p, HuffmanTree_GetValue l) \<in> set (leaves m h')"
  proof (rule Cons.IH [OF h'(2) Cons.prems(2)])
    fix q v
    assume "(q, v) \<in> set (leaves m h')"
    then have "(b # q, v) \<in> set (leaves n h)" using sub by (force simp: image_iff)
    then show "v \<noteq> - 1" by (rule Cons.prems(3))
  qed
  then show ?case using sub by (force simp: image_iff)
qed

lemma leaves_distinct:
  "(\<And>q v. (q, v) \<in> set (leaves n h) \<Longrightarrow> v \<noteq> - 1) \<Longrightarrow> distinct (map fst (leaves n h))"
proof (induction n arbitrary: h)
  case 0
  then show ?case by (simp add: leaves.simps)
next
  case (Suc n)
  show ?case
  proof (cases "HasValue h")
    case True
    then show ?thesis by (simp add: leaves_leaf)
  next
    case False
    have child: "\<exists>h'. Next h b = Some h'" for b
    proof (cases "Next h b")
      case None
      then have "([], - 1) \<in> set (leaves (Suc n) h)" using False
        by (subst leaves.simps) (cases b; simp)
      then show ?thesis using Suc.prems by blast
    qed simp
    obtain x y where xy: "Next h False = Some x" "Next h True = Some y" using child by blast
    note l = leaves_node [OF False xy]
    have "v \<noteq> - 1" if "(q, v) \<in> set (leaves n x)" for q v
      using that Suc.prems [of "False # q" v] unfolding l by force
    from Suc.IH [OF this] have dx: "distinct (map fst (leaves n x))" .
    have "v \<noteq> - 1" if "(q, v) \<in> set (leaves n y)" for q v
      using that Suc.prems [of "True # q" v] unfolding l by force
    from Suc.IH [OF this] have dy: "distinct (map fst (leaves n y))" .
    have cons: "map fst (map (\<lambda>(p, v). (b # p, v)) ls) = map ((#) b) (map fst ls)"
      for b :: bool and ls :: "(bool list \<times> u32) list" by auto
    have d: "distinct (map ((#) b) ps) = distinct ps" for b :: bool and ps
      by (simp add: distinct_map)
    show ?thesis unfolding l map_append cons distinct_append d using dx dy by auto
  qed
qed

lemma leaf_code:
  assumes "walk GetRoot p = Some l" "HasValue l"
  shows "unat (HuffmanTree_GetValue l) < 257" "p = code_bits (Codes ! unat (HuffmanTree_GetValue l))"
proof -
  have "(p, HuffmanTree_GetValue l) \<in> set (leaves 30 GetRoot)"
    by (rule walk_leaves [OF assms]) (rule leaves_agree(3))
  then show "unat (HuffmanTree_GetValue l) < 257" "p = code_bits (Codes ! unat (HuffmanTree_GetValue l))"
    by (rule leaves_agree(1), rule leaves_agree(2))
qed

lemma code_leaf:
  assumes "c < 257"
  shows "\<exists>l. walk GetRoot (code_bits (Codes ! c)) = Some l \<and> HasValue l \<and> HuffmanTree_GetValue l = of_nat c"
proof -
  let ?L = "leaves 30 GetRoot"
  have inj: "inj_on snd (set ?L)"
    unfolding inj_on_def by (auto dest!: leaves_agree(2))
  have "distinct ?L" using leaves_distinct [OF leaves_agree(3)] by (simp add: distinct_map)
  then have "card (set ?L) = 257"
    using leaves_same_code by (simp add: distinct_card same_code_def GetRoot_value)
  moreover have "inj_on unat (snd ` set ?L)" by (rule inj_onI) (simp add: word_unat_eq_iff)
  ultimately have "card (unat ` snd ` set ?L) = 257"
    using inj by (simp add: card_image)
  moreover have "unat ` snd ` set ?L \<subseteq> {..<257}" using leaves_agree(1) by fastforce
  ultimately have "unat ` snd ` set ?L = {..<257}" by (intro card_subset_eq) simp_all
  then have "c \<in> unat ` snd ` set ?L" using assms by simp
  then obtain p v where p: "(p, v) \<in> set ?L" "c = unat v" by auto
  from leaves_agree(2) [OF p(1)] leaves_walk [OF p(1) leaves_agree(3) [OF p(1)]] p(2)
  show ?thesis by simp
qed

end
