(* ===== verification/Hpack_Strings.thy ===== *)
theory Hpack_Strings
  imports Hpack_Huffman_Laws
begin

text \<open>
  String literals round-trip: the bit writer and the bit reader of \<open>Hpack_Huffman\<close> as sequences
  of bits, the strings \<open>DecodeHuffmanString\<close> accepts, and \<open>AppendString\<close> against \<open>DecodeString\<close>.
\<close>

section \<open>Bytes as bits\<close>

definition bits_of_byte :: "u8 \<Rightarrow> bool list" where
  "bits_of_byte b = map (\<lambda>i. bit b (7 - i)) [0..<8]"

definition bits_of_bytes :: "u8 list \<Rightarrow> bool list" where
  "bits_of_bytes bs = concat (map bits_of_byte bs)"

lemma bits_of_byte_length [simp]: "length (bits_of_byte b) = 8"
  by (simp add: bits_of_byte_def)

lemma bits_of_bytes_simps [simp]:
  "bits_of_bytes [] = []"
  "bits_of_bytes (b # bs) = bits_of_byte b @ bits_of_bytes bs"
  "bits_of_bytes (bs @ bs') = bits_of_bytes bs @ bits_of_bytes bs'"
  by (simp_all add: bits_of_bytes_def)

lemma bits_of_bytes_length [simp]: "length (bits_of_bytes bs) = 8 * length bs"
  by (induction bs) simp_all

lemma bits_of_byte_nth: "i < 8 \<Longrightarrow> bits_of_byte b ! i = bit b (7 - i)"
  by (simp add: bits_of_byte_def)

lemma bits_of_bytes_nth:
  "p < length bs \<Longrightarrow> off < 8 \<Longrightarrow> bits_of_bytes bs ! (8 * p + off) = bit (bs ! p) (7 - off)"
proof (induction bs arbitrary: p)
  case (Cons b bs)
  then show ?case by (cases p) (simp_all add: nth_append bits_of_byte_nth)
qed simp

section \<open>The writer\<close>

text \<open>The bits written so far; the last byte is filled up with zeros.\<close>

definition writes :: "BitWriter \<Rightarrow> bool list \<Rightarrow> bool" where
  "writes w bs \<longleftrightarrow> unat (bits w) = length bs mod 8 \<and>
     (\<exists>pad. bits_of_bytes (buf w) = bs @ replicate pad False \<and> pad < 8)"

lemma writes_new: "writes \<lparr> bits = 0, buf = [] \<rparr> []"
  by (simp add: writes_def)

lemma next_offset: "unat ((off + 1 :: u8) AND 7) = Suc (unat off) mod 8" if "unat off < 8"
  using small_word [OF that] by auto

lemma set_bit_byte:
  fixes off :: u8
  assumes "unat off < 8" "drop (unat off) (bits_of_byte y) = replicate (8 - unat off) False"
  shows "bits_of_byte (y OR push_bit (unat (7 - off)) (if b then 1 else 0)) =
           take (unat off) (bits_of_byte y) @ b # replicate (7 - unat off) False"
proof (rule nth_equalityI)
  have off: "unat (7 - off) = 7 - unat off" using small_word [OF assms(1)] by auto
  show "length (bits_of_byte (y OR push_bit (unat (7 - off)) (if b then 1 else 0))) =
      length (take (unat off) (bits_of_byte y) @ b # replicate (7 - unat off) False)"
    using assms(1) by simp
  fix i
  assume "i < length (bits_of_byte (y OR push_bit (unat (7 - off)) (if b then 1 else 0)))"
  then have i: "i < 8" by simp
  have zero: "\<not> bit y (7 - i)" if "unat off \<le> i"
  proof -
    have "drop (unat off) (bits_of_byte y) ! (i - unat off) = False"
      unfolding assms(2) using i that by simp
    then show ?thesis using that i by (simp add: bits_of_byte_nth)
  qed
  have set: "bit (y OR push_bit (7 - unat off) (if b then 1 else 0)) (7 - i) \<longleftrightarrow>
      bit y (7 - i) \<or> (b \<and> i = unat off)"
    using i assms(1)
    by (cases b; simp only: if_True if_False bit_or_iff bit_push_bit_iff bit_1_iff push_bit_of_0; auto)
  show "bits_of_byte (y OR push_bit (unat (7 - off)) (if b then 1 else 0)) ! i =
      (take (unat off) (bits_of_byte y) @ b # replicate (7 - unat off) False) ! i"
    unfolding off bits_of_byte_nth [OF i] set
    using i zero assms(1) by (auto simp: nth_append nth_Cons' bits_of_byte_nth)
qed

lemma pad_left:
  fixes l :: nat
  assumes "8 * n = l + pad" "pad < 8" "l mod 8 \<noteq> 0"
  shows "pad = 8 - l mod 8"
proof -
  have "l = 8 * (l div 8) + l mod 8" by simp
  then have "8 * n = 8 * (l div 8) + (l mod 8 + pad)" using assms(1) by linarith
  then have "8 dvd l mod 8 + pad" by (metis dvd_add_right_iff dvd_triv_left)
  moreover have "0 < l mod 8 + pad" "l mod 8 + pad < 16" using assms(2,3) mod_less_divisor [of 8 l] by linarith+
  ultimately have "l mod 8 + pad = 8" by (auto elim!: dvdE)
  then show ?thesis by simp
qed

lemma pad_none: "8 * n = l + pad \<Longrightarrow> pad < 8 \<Longrightarrow> l mod 8 = 0 \<Longrightarrow> pad = (0::nat)"
  by (metis add_0 mod_add_left_eq mod_less mod_mult_self1_is_0)

lemma WriteBit_writes:
  assumes "writes w bs"
  shows "\<exists>w'. WriteBit b w = Ok w' \<and> writes w' (bs @ [b])"
proof -
  obtain pad where bits: "unat (bits w) = length bs mod 8"
    and buf: "bits_of_bytes (buf w) = bs @ replicate pad False" "pad < 8"
    using assms by (auto simp: writes_def)
  have len: "8 * length (buf w) = length bs + pad"
    using arg_cong [OF buf(1), of length] by simp
  have small: "unat (bits w) < 8" using bits by simp
  let ?buf = "if bits w = 0 then buf w @ [0] else buf w"
  have zero: "bits w = 0 \<longleftrightarrow> length bs mod 8 = 0"
    using bits by (metis unat_eq_zero)
  have "?buf \<noteq> []"
  proof (cases "bits w = 0")
    case False
    then have "length bs \<noteq> 0" using zero by auto
    then show ?thesis using len False by auto
  qed simp
  from append_butlast_last_id [OF this] obtain ys y where ys: "?buf = ys @ [y]" by (rule that [OF sym])
  have all: "bits_of_bytes ys @ bits_of_byte y = bs @ replicate (8 - unat (bits w)) False"
  proof (cases "bits w = 0")
    case True
    have "pad = 0" using pad_none [OF len buf(2)] zero True by simp
    moreover have "ys = buf w" "y = 0" using ys True by simp_all
    moreover have "bits_of_byte 0 = replicate 8 False" by (rule nth_equalityI) (simp_all add: bits_of_byte_nth)
    ultimately show ?thesis using buf True by simp
  next
    case False
    have pad: "pad = 8 - unat (bits w)" 
      unfolding bits using pad_left [OF len buf(2)] zero False by blast
    have "buf w = ys @ [y]" using ys False by simp
    with buf(1) show ?thesis unfolding pad by (simp only: bits_of_bytes_simps append_Nil2)
  qed
  have k: "length bs = 8 * length ys + unat (bits w)"
    using arg_cong [OF all, of length] small by simp
  have "(bits_of_bytes ys @ take (unat (bits w)) (bits_of_byte y)) @ drop (unat (bits w)) (bits_of_byte y) =
      bs @ replicate (8 - unat (bits w)) False"
    using all by simp
  moreover have "length (bits_of_bytes ys @ take (unat (bits w)) (bits_of_byte y)) = length bs"
    using k small by simp
  ultimately have e: "bits_of_bytes ys @ take (unat (bits w)) (bits_of_byte y) = bs"
    and y: "drop (unat (bits w)) (bits_of_byte y) = replicate (8 - unat (bits w)) False"
    using append_eq_append_conv by blast+
  define w' where "w' = \<lparr> bits = (bits w + 1) AND 7,
      buf = ys @ [y OR push_bit (unat (7 - bits w)) (if b then 1 else 0)] \<rparr>"
  have "WriteBit b w = Ok w'"
    using ys by (auto simp: WriteBit_def w'_def Let_def split: if_splits)
  moreover have "writes w' (bs @ [b])"
    unfolding writes_def
  proof (intro conjI exI)
    show "unat (bits w') = length (bs @ [b]) mod 8"
      using next_offset [OF small] bits by (simp add: w'_def mod_Suc_eq)
    show "bits_of_bytes (buf w') = (bs @ [b]) @ replicate (7 - unat (bits w)) False"
      using set_bit_byte [OF small y, of b] e by (simp add: w'_def)
    show "7 - unat (bits w) < 8" by simp
  qed
  ultimately show ?thesis by blast
qed

lemma writes_full:
  assumes "writes w bs" "length bs mod 8 = 0"
  shows "bits w = 0" "bits_of_bytes (buf w) = bs"
proof -
  obtain pad where pad: "bits_of_bytes (buf w) = bs @ replicate pad False" "pad < 8"
    using assms by (auto simp: writes_def)
  have "8 * length (buf w) = length bs + pad" using arg_cong [OF pad(1), of length] by simp
  from pad_none [OF this pad(2) assms(2)] pad(1) show "bits_of_bytes (buf w) = bs" by simp
  show "bits w = 0" using assms by (simp add: writes_def unat_eq_0)
qed

text \<open>\<open>Fill\<close> completes the last byte with ones.\<close>

lemma Fill_writes:
  assumes "writes w bs"
  shows "\<exists>w' k. Fill w = Ok w' \<and> k < 8 \<and> bits_of_bytes (buf w') = bs @ replicate k True"
proof -
  have "8 - length bs mod 8 \<le> n \<or> length bs mod 8 = 0 \<Longrightarrow> writes w bs \<Longrightarrow> n < 8 \<Longrightarrow>
      \<exists>w' k. Fill w = Ok w' \<and> k \<le> n \<and> bits_of_bytes (buf w') = bs @ replicate k True" for n
  proof (induction n arbitrary: w bs)
    case (0 w bs)
    then have "length bs mod 8 = 0" by (auto simp: not_le)
    then have "bits w = 0" "bits_of_bytes (buf w) = bs"
      using writes_full [OF 0(2)] by simp_all
    then show ?case by (auto simp: Fill.simps [of w])
  next
    case (Suc n w bs)
    show ?case
    proof (cases "length bs mod 8 = 0")
      case True
      then have "bits w = 0" "bits_of_bytes (buf w) = bs"
        using writes_full [OF Suc.prems(2)] by simp_all
      then show ?thesis by (auto simp: Fill.simps [of w])
    next
      case False
      then have "bits w \<noteq> 0" using Suc.prems(2) by (auto simp: writes_def)
      obtain v where v: "WriteBit True w = Ok v" "writes v (bs @ [True])"
        using WriteBit_writes [OF Suc.prems(2)] by blast
      have "8 - length (bs @ [True]) mod 8 \<le> n \<or> length (bs @ [True]) mod 8 = 0"
        using Suc.prems(1) False by (auto simp: mod_Suc)
      from Suc.IH [OF this v(2)] Suc.prems(3) obtain w' k where
        "Fill v = Ok w'" "k \<le> n" "bits_of_bytes (buf w') = (bs @ [True]) @ replicate k True" by auto
      then show ?thesis using v(1) \<open>bits w \<noteq> 0\<close>
        by (intro exI [of _ w'] exI [of _ "Suc k"]) (simp add: Fill.simps [of w])
    qed
  qed
  note steps = this
  have "8 - length bs mod 8 \<le> 7 \<or> length bs mod 8 = 0" by linarith
  from steps [OF this assms] obtain w' k
    where "Fill w = Ok w'" "k \<le> 7" "bits_of_bytes (buf w') = bs @ replicate k True" by auto
  moreover from this(2) have "k < 8" by simp
  ultimately show ?thesis by blast
qed

lemma write_loop_writes:
  "writes w bs \<Longrightarrow> n \<le> 32 \<Longrightarrow>
     \<exists>w'. write_loop n code (push_bit (n - 1) 1) w = Ok w' \<and> writes w' (bs @ low_bits n code)"
proof (induction n arbitrary: w bs)
  case (Suc n)
  have bit: "code AND push_bit n 1 \<noteq> 0 \<longleftrightarrow> bit code n"
    using Suc.prems(2) by (simp add: and_exp_eq_0_iff_not_bit push_bit_of_1)
  obtain v where v: "WriteBit (code AND push_bit n 1 \<noteq> 0) w = Ok v" "writes v (bs @ [bit code n])"
    using WriteBit_writes [OF Suc.prems(1)] unfolding bit by blast
  show ?case
  proof (cases n)
    case 0
    then show ?thesis using v by simp
  next
    case (Suc m)
    have "bit (push_bit n 1 :: u32) n" using Suc.prems(2) by (simp only: bit_push_bit_iff) simp
    moreover have "\<not> bit (1 :: u32) n" using Suc by (simp add: bit_1_iff)
    ultimately have ne: "push_bit n 1 \<noteq> (1 :: u32)" by metis
    have "drop_bit 1 (push_bit n 1) = (push_bit (n - 1) 1 :: u32)"
      using Suc Suc.prems(2)
      by (intro bit_word_eqI) (simp only: bit_drop_bit_eq bit_push_bit_iff bit_1_iff comp_apply, auto)
    with Suc.IH [OF v(2)] Suc.prems(2) v(1) ne show ?thesis by auto
  qed
qed simp

lemma code_bits_bounds:
  assumes "c < 257"
  shows "0 < unat (Bits (Codes ! c))" "unat (Bits (Codes ! c)) \<le> 30"
proof -
  have "list_all (\<lambda>c. 0 < unat (Bits c) \<and> unat (Bits c) \<le> 30) Codes" "length Codes = 257"
    by (simp_all add: Codes_def)
  then show "0 < unat (Bits (Codes ! c))" "unat (Bits (Codes ! c)) \<le> 30"
    using assms by (simp_all add: list_all_length)
qed

lemma byte_bound: "unat (c :: u8) < 256"
  using unsigned_less [of c] by simp

lemma Write_writes:
  assumes "writes w bs" "c < 257"
  shows "\<exists>w'. Write (Codes ! c) w = Ok w' \<and> writes w' (bs @ code_bits (Codes ! c))"
proof -
  have "unat (Bits (Codes ! c) - 1) = unat (Bits (Codes ! c)) - 1"
    using code_bits_bounds(1) [OF assms(2)] by (simp add: unat_minus_one unat_gt_0)
  with write_loop_writes [OF assms(1), of "unat (Bits (Codes ! c))"] code_bits_bounds(2) [OF assms(2)]
  show ?thesis by (simp add: Write_def code_bits_def)
qed

text \<open>The bits of a string.\<close>

definition string_bits :: "u8 list \<Rightarrow> bool list" where
  "string_bits str = concat (map (\<lambda>c. code_bits (Codes ! unat c)) str)"

lemma string_bits_simps [simp]:
  "string_bits [] = []"
  "string_bits (c # str) = code_bits (Codes ! unat c) @ string_bits str"
  by (simp_all add: string_bits_def)

lemma write_string_writes:
  "writes w bs \<Longrightarrow> \<exists>w'. write_string str w = Ok w' \<and> writes w' (bs @ string_bits str)"
proof (induction str arbitrary: w bs)
  case (Cons c str)
  have "unat c < 257" using byte_bound [of c] by simp
  from Write_writes [OF Cons.prems this] obtain v
    where v: "Write (Codes ! unat c) w = Ok v" "writes v (bs @ code_bits (Codes ! unat c))" by blast
  from Cons.IH [OF v(2)] v(1) show ?case by auto
qed simp

lemma low_bits_length [simp]: "length (low_bits n w) = n"
  by (induction n) simp_all

lemma string_bits_length: "HuffmanLength str = (length (string_bits str) + 7) div 8"
proof -
  have "(\<Sum>c\<leftarrow>str. unat (Bits (Codes ! unat c))) = length (string_bits str)"
    by (induction str) (simp_all add: code_bits_def)
  then show ?thesis by (simp add: HuffmanLength_def)
qed

text \<open>The Huffman form of a string: its bits, padded with fewer than eight ones.\<close>

lemma write_huffman:
  "\<exists>w w' k. write_string str \<lparr> bits = 0, buf = [] \<rparr> = Ok w \<and> Fill w = Ok w' \<and> k < 8 \<and>
     bits_of_bytes (buf w') = string_bits str @ replicate k True \<and> length (buf w') = HuffmanLength str"
proof -
  obtain w where w: "write_string str \<lparr> bits = 0, buf = [] \<rparr> = Ok w" "writes w (string_bits str)"
    using write_string_writes [OF writes_new] by auto
  obtain w' k where w': "Fill w = Ok w'" "k < 8" "bits_of_bytes (buf w') = string_bits str @ replicate k True"
    using Fill_writes [OF w(2)] by blast
  have "8 * length (buf w') = length (string_bits str) + k"
    using arg_cong [OF w'(3), of length] by simp
  then have "length (buf w') = HuffmanLength str"
    unfolding string_bits_length using w'(2) by linarith
  with w(1) w' show ?thesis by blast
qed

section \<open>The reader\<close>

text \<open>The bits not yet read.\<close>

definition reader_bits :: "BitReader \<Rightarrow> bool list" where
  "reader_bits r = drop (8 * pos r + unat (offset r)) (bits_of_bytes (input r))"

abbreviation reading :: "BitReader \<Rightarrow> bool list \<Rightarrow> bool" where
  "reading r bs \<equiv> unat (offset r) < 8 \<and> reader_bits r = bs"

lemma reading_new: "reading \<lparr> input = bs, pos = 0, offset = 0 \<rparr> (bits_of_bytes bs)"
  by (simp add: reader_bits_def)

lemma ReadBit_None:
  assumes "unat (offset r) < 8"
  shows "ReadBit r = None \<longleftrightarrow> reader_bits r = []"
  using assms by (auto simp: ReadBit_def Let_def reader_bits_def)

lemma ReadBit_Some:
  assumes "unat (offset r) < 8" "ReadBit r = Some (b, r')"
  shows "unat (offset r') < 8" "reader_bits r = b # reader_bits r'"
proof -
  have p: "pos r < length (input r)" using assms(2) by (simp add: ReadBit_def split: if_splits)
  have o7: "unat (7 - offset r) = 7 - unat (offset r)" using small_word [OF assms(1)] by auto
  have "8 * pos r + unat (offset r) < 8 * length (input r)" using p assms(1) by linarith
  then have split: "reader_bits r = bits_of_bytes (input r) ! (8 * pos r + unat (offset r)) #
      drop (Suc (8 * pos r + unat (offset r))) (bits_of_bytes (input r))"
    by (simp add: reader_bits_def Cons_nth_drop_Suc)
  have test: "b = bit (input r ! pos r) (7 - unat (offset r))"
    using assms(2) p by (auto simp: ReadBit_def Let_def o7 and_exp_eq_0_iff_not_bit push_bit_of_1)
  have "unat (offset r') < 8 \<and>
      drop (Suc (8 * pos r + unat (offset r))) (bits_of_bytes (input r)) = reader_bits r'"
  proof (cases "offset r = 7")
    case True
    then show ?thesis using assms(2) p by (auto simp: ReadBit_def Let_def reader_bits_def)
  next
    case False
    then have "unat (offset r + 1) = Suc (unat (offset r))" "unat (offset r) < 7" "offset r + 1 \<noteq> 8"
      using small_word [OF assms(1)] by auto
    then show ?thesis using assms(2) p by (auto simp: ReadBit_def Let_def reader_bits_def)
  qed
  then show "unat (offset r') < 8" "reader_bits r = b # reader_bits r'"
    unfolding split test by (simp_all add: bits_of_bytes_nth [OF p assms(1)])
qed

section \<open>Decoding a character\<close>

lemma Next_inner: "Next h b = Some h' \<Longrightarrow> \<not> HasValue h"
  by (auto simp: Next_def split: if_splits)

lemma decode_char_walk:
  "reading r (p @ rest) \<Longrightarrow> walk h p = Some l \<Longrightarrow> HasValue l \<Longrightarrow>
     \<exists>r'. decode_char_loop r h a = Ok (l, r') \<and> reading r' rest"
proof (induction p arbitrary: r h a)
  case Nil
  then show ?case by (simp add: decode_char_loop.simps [of r])
next
  case (Cons b p)
  obtain h' where h': "Next h b = Some h'" "walk h' p = Some l"
    using Cons.prems(2) by (auto split: option.splits)
  obtain c s where s: "ReadBit r = Some (c, s)"
    using Cons.prems(1) ReadBit_None [of r] by (cases "ReadBit r") auto
  from ReadBit_Some [OF _ s] Cons.prems(1) have "c = b" "reading s (p @ rest)" by simp_all
  with Cons.IH [OF this(2) h'(2) Cons.prems(3)] s h' Next_inner [OF h'(1)] show ?case
    by (simp add: decode_char_loop.simps [of r] Let_def)
qed

lemma walk_append: "walk h (p @ q) = (case walk h p of None \<Rightarrow> None | Some h' \<Rightarrow> walk h' q)"
  by (induction p arbitrary: h) (auto split: option.splits)

text \<open>Whatever it returns, the decoder has read a path to a leaf.\<close>

lemma decode_char_Ok:
  "decode_char_loop r h a = Ok (l, r') \<Longrightarrow> unat (offset r) < 8 \<Longrightarrow>
     \<exists>p. walk h p = Some l \<and> HasValue l \<and> reader_bits r = p @ reader_bits r' \<and> unat (offset r') < 8"
proof (induction r h a rule: decode_char_loop.induct)
  case (1 r h a)
  show ?case
  proof (cases "HasValue h")
    case True
    then show ?thesis using "1.prems" by (intro exI [of _ "[]"]) (simp add: decode_char_loop.simps [of r])
  next
    case False
    then obtain b s where s: "ReadBit r = Some (b, s)"
      using "1.prems" by (cases "ReadBit r") (auto simp: decode_char_loop.simps [of r] split: if_splits)
    then obtain n where n: "Next h b = Some n"
      using "1.prems" False by (cases "Next h b") (auto simp: decode_char_loop.simps [of r] Let_def)
    have "decode_char_loop s n (if a \<noteq> 0 \<and> b then a + 1 else 0) = Ok (l, r')"
      using "1.prems" False s n by (simp add: decode_char_loop.simps [of r h] Let_def)
    from "1.IH" [OF False s refl refl n this] ReadBit_Some [OF "1.prems"(2) s] obtain p
      where "walk n p = Some l" "HasValue l" "reader_bits s = p @ reader_bits r'" "unat (offset r') < 8"
      by blast
    then show ?thesis using ReadBit_Some [OF "1.prems"(2) s] n by (intro exI [of _ "b # p"]) simp
  qed
qed

text \<open>The root is not below any node, and seven ones lead to no leaf.\<close>

lemma Next_not_root: "Next h b \<noteq> Some GetRoot"
proof
  assume a: "Next h b = Some GetRoot"
  then obtain i where "0 < i" "i < length raw_table" "raw_table ! i = GetRoot"
    by (intro that [of "unat (if b then OneIndex h else ZeroIndex h)"])
      (auto simp: Next_def Let_def word_le_nat_alt raw_table_length unat_gt_0 split: if_splits)
  then have "GetRoot \<in> set (tl raw_table)"
    using nth_mem [of "i - 1" "tl raw_table"] by (simp add: nth_tl)
  moreover have "GetRoot \<notin> set (tl raw_table)" unfolding GetRoot_value by (simp add: raw_table_def)
  ultimately show False by blast
qed

lemma walk_root: "walk GetRoot p = Some GetRoot \<Longrightarrow> p = []"
  using Next_not_root by (cases p rule: rev_cases) (auto simp: walk_append split: option.splits)

lemma ones_inner:
  assumes "k \<le> 7"
  shows "\<exists>h. walk GetRoot (replicate k True) = Some h \<and> \<not> HasValue h"
proof -
  have "k \<in> {0, 1, 2, 3, 4, 5, 6, 7}" using assms by auto
  moreover have "replicate (numeral n) True = True # replicate (pred_numeral n) True" for n
    by (simp add: numeral_eq_Suc)
  ultimately show ?thesis
    by (auto simp: GetRoot_value Next_numeral OneIndex_def Let_def raw_table_nth)
qed

text \<open>
  \<open>allone\<close> counts the ones read: after the path \<open>p\<close> it is one more than their number as long as
  there was nothing else.
\<close>

definition counts :: "bool list \<Rightarrow> int \<Rightarrow> bool" where
  "counts p a \<longleftrightarrow> (if p = replicate (length p) True then a = int (length p) + 1 else a = 0)"

lemma counts_step: "counts p a \<Longrightarrow> counts (p @ [b]) (if a \<noteq> 0 \<and> b then a + 1 else 0)"
proof -
  assume c: "counts p a"
  have "p @ [b] = replicate (length p + 1) True \<longleftrightarrow> p = replicate (length p) True \<and> b"
    unfolding replicate_add by simp
  then show ?thesis using c by (auto simp: counts_def)
qed

lemma decode_char_Done:
  "decode_char_loop r h a = Err HuffmanDone \<Longrightarrow> unat (offset r) < 8 \<Longrightarrow>
     walk GetRoot p = Some h \<Longrightarrow> counts p a \<Longrightarrow>
     \<exists>k\<le>7. p @ reader_bits r = replicate k True"
proof (induction r h a arbitrary: p rule: decode_char_loop.induct)
  case (1 r h a)
  have inner: "\<not> HasValue h" using "1.prems"(1) by (auto simp: decode_char_loop.simps [of r])
  show ?case
  proof (cases "ReadBit r")
    case None
    then have "reader_bits r = []" using ReadBit_None "1.prems"(2) by blast
    moreover have "h = GetRoot \<or> a \<noteq> 0 \<and> a - 1 \<le> 7"
      using "1.prems"(1) inner None by (simp add: decode_char_loop.simps [of r] split: if_splits)
    then have "\<exists>k\<le>7. p = replicate k True"
      using walk_root [of p] "1.prems"(3,4) by (auto simp: counts_def split: if_splits)
    ultimately show ?thesis by simp
  next
    case (Some bs)
    obtain b s where s: "ReadBit r = Some (b, s)" using Some by (cases bs) simp
    obtain n where n: "Next h b = Some n"
      using "1.prems"(1) inner s by (cases "Next h b") (auto simp: decode_char_loop.simps [of r] Let_def)
    have d: "decode_char_loop s n (if a \<noteq> 0 \<and> b then a + 1 else 0) = Err HuffmanDone"
      using "1.prems"(1) inner s n by (simp add: decode_char_loop.simps [of r h] Let_def)
    have w: "walk GetRoot (p @ [b]) = Some n" using "1.prems"(3) n by (simp add: walk_append)
    from "1.IH" [OF inner s refl refl n d ReadBit_Some(1) [OF "1.prems"(2) s] w counts_step [OF "1.prems"(4)]]
      ReadBit_Some(2) [OF "1.prems"(2) s]
    show ?thesis by simp
  qed
qed

lemma decode_char_padding:
  "reading r (replicate k True) \<Longrightarrow> j + k \<le> 7 \<Longrightarrow> walk GetRoot (replicate j True) = Some h \<Longrightarrow>
     decode_char_loop r h (int j + 1) = Err HuffmanDone"
proof (induction k arbitrary: r j h)
  case 0
  then have "ReadBit r = None" using ReadBit_None by simp
  moreover have "\<not> HasValue h" using ones_inner [of j] 0 by auto
  ultimately show ?case using 0(2) by (simp add: decode_char_loop.simps [of r])
next
  case (Suc k)
  obtain b s where s: "ReadBit r = Some (b, s)"
    using Suc.prems(1) ReadBit_None [of r] by (cases "ReadBit r") auto
  from ReadBit_Some [OF _ s] Suc.prems(1) have b: b "reading s (replicate k True)" by simp_all
  have inner: "\<not> HasValue h" using ones_inner [of j] Suc.prems(2,3) by auto
  obtain n where n: "walk GetRoot (replicate (Suc j) True) = Some n"
    using ones_inner [of "Suc j"] Suc.prems(2) by auto
  have snoc: "replicate (Suc j) True = replicate j True @ [True]" by (simp add: replicate_append_same)
  have child: "Next h True = Some n"
    using n Suc.prems(3) unfolding snoc walk_append by (auto split: option.splits)
  from Suc.IH [OF b(2) _ n] Suc.prems(2)
  have "decode_char_loop s n (int (Suc j) + 1) = Err HuffmanDone" by simp
  then show ?case using s b(1) inner child by (simp add: decode_char_loop.simps [of r] Let_def add.commute)
qed

section \<open>Decoding a string\<close>

lemma decode_huffman_loop_bits:
  "reading r (string_bits str @ replicate k True) \<Longrightarrow> k \<le> 7 \<Longrightarrow> decode_huffman_loop r acc = Ok (acc @ str)"
proof (induction str arbitrary: r acc)
  case Nil
  then have "decodeSingleChar r = Err HuffmanDone"
    using decode_char_padding [of r k 0 GetRoot] by (simp add: decodeSingleChar_def)
  then show ?case by (simp add: decode_huffman_loop.simps [of r])
next
  case (Cons c str)
  have c: "unat c < 257" using byte_bound [of c] by simp
  obtain l where l: "walk GetRoot (code_bits (Codes ! unat c)) = Some l" "HasValue l"
    "HuffmanTree_GetValue l = of_nat (unat c)"
    using code_leaf [OF c] by blast
  have lit: "HuffmanTree_GetValue l = ucast c" using l(3) by (simp add: unsigned_of_nat)
  have "unat (ucast c :: u32) = unat c" using byte_bound [of c]
    by (simp add: unsigned_ucast_eq take_bit_nat_eq_self)
  then have "ucast (HuffmanTree_GetValue l) = c" "HuffmanTree_GetValue l \<noteq> 256"
    using byte_bound [of c] unfolding lit by (auto simp: word_unat_eq_iff unsigned_ucast_eq take_bit_nat_eq_self take_bit_word_eq_self)
  moreover obtain r' where "decodeSingleChar r = Ok (l, r')" "reading r' (string_bits str @ replicate k True)"
    using decode_char_walk [OF _ l(1,2), of r "string_bits str @ replicate k True" 1] Cons.prems(1)
    by (auto simp: decodeSingleChar_def)
  ultimately show ?case using Cons.IH [of r' "acc @ [c]"] Cons.prems(2)
    by (simp add: decode_huffman_loop.simps [of r])
qed

lemma decode_huffman_loop_Ok:
  "decode_huffman_loop r acc = Ok res \<Longrightarrow> unat (offset r) < 8 \<Longrightarrow>
     \<exists>str k. k \<le> 7 \<and> res = acc @ str \<and> reader_bits r = string_bits str @ replicate k True"
proof (induction r acc rule: decode_huffman_loop.induct)
  case (1 r acc)
  show ?case
  proof (cases "decodeSingleChar r")
    case Panic
    then show ?thesis using "1.prems"(1) by (simp add: decode_huffman_loop.simps [of r])
  next
    case (Err e)
    then have "e = HuffmanDone" "res = acc"
      using "1.prems"(1) by (simp_all add: decode_huffman_loop.simps [of r] split: if_splits)
    then obtain k where "k \<le> 7" "reader_bits r = replicate k True"
      using decode_char_Done [of r GetRoot 1 "[]"] Err "1.prems"(2)
      by (auto simp: decodeSingleChar_def counts_def)
    then show ?thesis using \<open>res = acc\<close> by (intro exI [of _ "[]"]) auto
  next
    case (Ok n)
    obtain l r' where l: "decodeSingleChar r = Ok (l, r')" using Ok by (cases n) simp
    obtain p where p: "walk GetRoot p = Some l" "HasValue l" "reader_bits r = p @ reader_bits r'"
      "unat (offset r') < 8"
      using decode_char_Ok [of r GetRoot 1 l r'] l "1.prems"(2) by (auto simp: decodeSingleChar_def)
    have v: "HuffmanTree_GetValue l \<noteq> 256" "decode_huffman_loop r' (acc @ [ucast (HuffmanTree_GetValue l)]) = Ok res"
      using "1.prems"(1) l by (simp_all add: decode_huffman_loop.simps [of r] split: if_splits)
    from "1.IH" [OF l refl v p(4)] obtain str k
      where k: "k \<le> 7" "res = acc @ ucast (HuffmanTree_GetValue l) # str"
        "reader_bits r' = string_bits str @ replicate k True" by auto
    have "unat (HuffmanTree_GetValue l) < 256"
      using leaf_code(1) [OF p(1,2)] v(1) by (simp add: word_unat_eq_iff)
    then have "unat (ucast (HuffmanTree_GetValue l) :: u8) = unat (HuffmanTree_GetValue l)" by (simp add: unsigned_ucast_eq take_bit_nat_eq_self)
    then have "string_bits (ucast (HuffmanTree_GetValue l) # str) = p @ string_bits str"
      using leaf_code(2) [OF p(1,2)] by simp
    then show ?thesis using k p(3) by (intro exI [of _ "ucast (HuffmanTree_GetValue l) # str"] exI [of _ k]) simp
  qed
qed

text \<open>
  C27. \<open>DecodeHuffmanString\<close> accepts exactly the encodings: it returns a string if and only if
  the bits of its input are the codes of the string's bytes followed by at most seven ones. The
  code word of EOS, an unfinished code word and a padding of eight bits or with a zero in it are errors.
\<close>

theorem DecodeHuffmanString_iff:
  "DecodeHuffmanString bs = Ok str \<longleftrightarrow>
     (\<exists>k\<le>7. bits_of_bytes bs = string_bits str @ replicate k True)"
proof
  assume "DecodeHuffmanString bs = Ok str"
  then show "\<exists>k\<le>7. bits_of_bytes bs = string_bits str @ replicate k True"
    using decode_huffman_loop_Ok [of "\<lparr> input = bs, pos = 0, offset = 0 \<rparr>" "[]" str] reading_new [of bs]
    by (auto simp: DecodeHuffmanString_def)
next
  assume "\<exists>k\<le>7. bits_of_bytes bs = string_bits str @ replicate k True"
  then obtain k where "k \<le> 7" "bits_of_bytes bs = string_bits str @ replicate k True" by blast
  then show "DecodeHuffmanString bs = Ok str"
    using decode_huffman_loop_bits [of "\<lparr> input = bs, pos = 0, offset = 0 \<rparr>" str k "[]"] reading_new [of bs]
    by (simp add: DecodeHuffmanString_def)
qed

section \<open>String literals\<close>

lemma huffman_length_bound: "HuffmanLength str \<le> 4 * length str"
proof -
  have "length (string_bits str) \<le> 30 * length str"
  proof (induction str)
    case (Cons c str)
    then show ?case using code_bits_bounds(2) [of "unat c"] byte_bound [of c]
      by (simp add: code_bits_def)
  qed simp
  then show ?thesis unfolding string_bits_length by linarith
qed

lemma DecodeHuffmanString_written:
  assumes "write_string str \<lparr> bits = 0, buf = [] \<rparr> = Ok w" "Fill w = Ok w'"
  shows "DecodeHuffmanString (buf w') = Ok str"
proof -
  obtain k where "k < 8" "bits_of_bytes (buf w') = string_bits str @ replicate k True"
    using write_huffman [of str] assms by auto
  then have "decode_huffman_loop \<lparr> input = buf w', pos = 0, offset = 0 \<rparr> [] = Ok ([] @ str)"
    using reading_new [of "buf w'"] by (intro decode_huffman_loop_bits [of _ str k]) simp_all
  then show ?thesis by (simp add: DecodeHuffmanString_def)
qed

text \<open>The bytes \<open>AppendString\<close> appends with an empty prefix.\<close>

definition string_literal :: "AppendStringMode \<Rightarrow> u8 list \<Rightarrow> u8 list" where
  "string_literal mode str =
     (case AppendString [] 0 str mode of Ok bs \<Rightarrow> bs | _ \<Rightarrow> [])"

lemma prefix_mask_7: "prefix_mask 7 AND 0 = 0" "prefix_mask 7 AND 0x80 = 0"
  by (simp_all add: prefix_mask_def mask_eq_exp_minus_1)

lemma AppendString_literal:
  "AppendString b 0 str mode = Ok (b @ string_literal mode str)"
proof -
  obtain w w' where w: "write_string str \<lparr> bits = 0, buf = [] \<rparr> = Ok w" "Fill w = Ok w'"
    using write_huffman [of str] by blast
  note i = AppendInteger_bytes [of 7 0, OF _ prefix_mask_7(1)] AppendInteger_bytes [of 7 "0x80", OF _ prefix_mask_7(2)]
  show ?thesis by (simp add: string_literal_def AppendString_def Let_def i w)
qed

lemma DecodeString_literal:
  assumes "length str < 2 ^ 61"
  shows "DecodeString (string_literal mode str @ r) = Ok (str, r)"
proof -
  obtain w w' where w: "write_string str \<lparr> bits = 0, buf = [] \<rparr> = Ok w" "Fill w = Ok w'"
    and len: "length (buf w') = HuffmanLength str"
    using write_huffman [of str] by blast
  note dec = DecodeHuffmanString_written [OF w]
  note i = AppendInteger_bytes [of 7 0, OF _ prefix_mask_7(1)] AppendInteger_bytes [of 7 "0x80", OF _ prefix_mask_7(2)]
    DecodeInteger_bytes [of 7 0, OF _ prefix_mask_7(1)] DecodeInteger_bytes [of 7 "0x80", OF _ prefix_mask_7(2)]
  have sized: "unat (of_nat n :: u64) = n" "sint (of_nat n :: u64) = int n" if "n < 2 ^ 63" for n
    using that sint_small [of "of_nat n"] by (simp_all add: unat_of_nat_small)
  have "HuffmanLength str < 2 ^ 63" using huffman_length_bound [of str] assms by simp
  note h = sized [OF this]
  have "length str < 2 ^ 63" using assms by simp
  note l = sized [OF this]
  show ?thesis
    by (simp add: string_literal_def AppendString_def DecodeString_def DecodeStringWithLenPrefix_def
        Let_def i w h l dec len)
qed

text \<open>
  C28. Strings round-trip: whatever the mode, literal or Huffman, \<open>DecodeString\<close> reads back from
  what \<open>AppendString\<close> appended the string itself, and leaves the input after it.
\<close>

theorem AppendString_DecodeString:
  assumes "length str < 2 ^ 61"
  shows "\<exists>bs. AppendString b 0 str mode = Ok (b @ bs) \<and> DecodeString (bs @ r) = Ok (str, r)"
  using AppendString_literal DecodeString_literal [OF assms] by blast

theorem AppendString_DecodeString_witness:
  "\<exists>bs. AppendString [7] 0 [103, 114, 112, 99] ForceHuffman = Ok ([7] @ bs) \<and>
        DecodeString (bs @ [1, 2]) = Ok ([103, 114, 112, 99], [1, 2])"
  by (rule AppendString_DecodeString) simp

lemma string_literal_nonempty: "string_literal mode str \<noteq> []"
proof -
  obtain w w' where w: "write_string str \<lparr> bits = 0, buf = [] \<rparr> = Ok w" "Fill w = Ok w'"
    using write_huffman [of str] by blast
  note i = AppendInteger_bytes [of 7 0, OF _ prefix_mask_7(1)] AppendInteger_bytes [of 7 "0x80", OF _ prefix_mask_7(2)]
  show ?thesis by (simp add: string_literal_def AppendString_def Let_def i w)
qed

interpretation huffman: prefix_codec "string_literal ForceHuffman" DecodeString "\<lambda>str. length str < 2 ^ 61"
  by unfold_locales (simp_all add: DecodeString_literal string_literal_nonempty)

interpretation literal: prefix_codec "string_literal ForceLiteral" DecodeString "\<lambda>str. length str < 2 ^ 61"
  by unfold_locales (simp_all add: DecodeString_literal string_literal_nonempty)

lemma decode_char_no_Panic: "decode_char_loop r h a \<noteq> Panic"
proof (induction r h a rule: decode_char_loop.induct)
  case (1 r h a)
  show ?case
  proof (cases "ReadBit r")
    case None
    then show ?thesis by (simp add: decode_char_loop.simps [of r])
  next
    case (Some bs)
    obtain b s where s: "ReadBit r = Some (b, s)" using Some by (cases bs) simp
    show ?thesis
    proof (cases "HasValue h \<or> Next h b = None")
      case True
      then show ?thesis using s by (auto simp: decode_char_loop.simps [of r])
    next
      case False
      then obtain n where "Next h b = Some n" "\<not> HasValue h" by blast
      with "1.IH" [OF _ s refl refl this(1)] show ?thesis
        by (simp add: decode_char_loop.simps [of r h] s Let_def)
    qed
  qed
qed

lemma decode_huffman_no_Panic: "decode_huffman_loop r acc \<noteq> Panic"
  by (induction r acc rule: decode_huffman_loop.induct)
     (subst decode_huffman_loop.simps,
      auto simp: decodeSingleChar_def decode_char_no_Panic split: outcome.splits)

lemma string_Panic:
  assumes "length r < 2 ^ 63"
  shows "DecodeStringWithLenPrefix r len pre = Panic \<longleftrightarrow> 2 ^ 63 \<le> unat len"
proof (cases "2 ^ 63 \<le> unat len")
  case True
  from sint_big [OF this] have "sint len < 0" .
  then show ?thesis using True assms by (simp add: DecodeStringWithLenPrefix_def)
next
  case False
  then have "sint len = int (unat len)" by (intro sint_small) simp
  then have "int (length r) < sint len \<longleftrightarrow> length r < unat len" by (simp only: of_nat_less_iff)
  then show ?thesis using False
    by (simp add: DecodeStringWithLenPrefix_def DecodeHuffmanString_def bind_outcome_Panic_iff
        decode_huffman_no_Panic)
qed

text \<open>
  C29. \<open>DecodeString\<close> panics exactly when the length it reads is \<open>2 ^ 63\<close> or more, which eleven
  bytes from a peer can spell: \<open>int(expectLen)\<close> is then negative, passes the comparison with the
  length of the input, and the slice expression is out of range. Any other excess is an error.
\<close>

theorem DecodeString_panics_iff:
  assumes "length r < 2 ^ 63"
  shows "DecodeString r = Panic \<longleftrightarrow>
     (\<exists>len r' pre. DecodeInteger r 7 = Ok (len, r', pre) \<and> 2 ^ 63 \<le> unat len)"
proof -
  have "length r' < 2 ^ 63" if "DecodeInteger r 7 = Ok (len, r', pre)" for len r' pre
    using DecodeInteger_suffix [OF that] assms by auto
  then show ?thesis using string_Panic
    by (auto simp: DecodeString_def bind_outcome_Panic_iff DecodeInteger_no_Panic)
qed

theorem DecodeString_panics_iff_witness:
  "DecodeString ([0x7F, 0x80, 0xFF, 0xFF, 0xFF, 0xFF, 0xFF, 0xFF, 0xFF, 0xFF, 1] @ [0]) = Panic"
proof -
  have "DecodeInteger [0x7F, 0x80, 0xFF, 0xFF, 0xFF, 0xFF, 0xFF, 0xFF, 0xFF, 0xFF, 1, 0] 7 =
      Ok (2 ^ 64 - 1, [0], 0)"
    by (simp add: DecodeInteger_def DecodeIntegerWithFirstByte_def prefix_mask_def mask_eq_exp_minus_1
        decode_loop.simps Let_def)
  then show ?thesis using DecodeString_panics_iff
     [of "[0x7F, 0x80, 0xFF, 0xFF, 0xFF, 0xFF, 0xFF, 0xFF, 0xFF, 0xFF, 1, 0]"] by simp
qed

end
