(* ===== verification/Hpack_Table.thy ===== *)
theory Hpack_Table
  imports Hpack_Strings
begin

text \<open>
  Header fields and the dynamic table of HPACK: \<open>protobuf/wire/h2/hpack/hpack.go\<close> and the field
  types of \<open>hpack_type.go\<close>. The proofs about them are in \<open>Hpack_Table_Laws\<close>.
\<close>

section \<open>Field types\<close>

datatype FieldType =
    FieldType_Index
  | FieldType_IndexLiteralInsert
  | FieldType_IndexLiteralNeverIndexed
  | FieldType_IndexLiteralNoInsert
  | FieldType_DynTableUpdate
  | FieldType_Unknown

fun FieldType_String :: "FieldType \<Rightarrow> string" where
  "FieldType_String FieldType_Index = ''Index''"
| "FieldType_String FieldType_IndexLiteralInsert = ''IndexLiteralInsert''"
| "FieldType_String FieldType_IndexLiteralNeverIndexed = ''IndexLiteralNeverIndexed''"
| "FieldType_String FieldType_IndexLiteralNoInsert = ''IndexLiteralNoInsert''"
| "FieldType_String FieldType_DynTableUpdate = ''DynTableUpdate''"
| "FieldType_String FieldType_Unknown = ''Unknown''"

fun FieldPrefixLen :: "FieldType \<Rightarrow> nat" where
  "FieldPrefixLen FieldType_Index = 7"
| "FieldPrefixLen FieldType_IndexLiteralInsert = 6"
| "FieldPrefixLen FieldType_IndexLiteralNeverIndexed = 4"
| "FieldPrefixLen FieldType_IndexLiteralNoInsert = 4"
| "FieldPrefixLen FieldType_DynTableUpdate = 5"
| "FieldPrefixLen FieldType_Unknown = 255"

fun MaskFieldType :: "FieldType \<Rightarrow> u8" where
  "MaskFieldType FieldType_Index = 128"
| "MaskFieldType FieldType_IndexLiteralInsert = 192"
| "MaskFieldType FieldType_IndexLiteralNeverIndexed = 240"
| "MaskFieldType FieldType_IndexLiteralNoInsert = 240"
| "MaskFieldType FieldType_DynTableUpdate = 224"
| "MaskFieldType FieldType_Unknown = 15"

fun MatchFieldType :: "FieldType \<Rightarrow> u8" where
  "MatchFieldType FieldType_Index = 128"
| "MatchFieldType FieldType_IndexLiteralInsert = 64"
| "MatchFieldType FieldType_IndexLiteralNeverIndexed = 16"
| "MatchFieldType FieldType_IndexLiteralNoInsert = 0"
| "MatchFieldType FieldType_DynTableUpdate = 32"
| "MatchFieldType FieldType_Unknown = 240"

definition IsFieldType :: "u8 \<Rightarrow> FieldType \<Rightarrow> bool" where
  "IsFieldType t m \<longleftrightarrow> MaskFieldType m AND t = MatchFieldType m"

definition GetFieldType :: "u8 \<Rightarrow> FieldType" where
  "GetFieldType t =
     (if IsFieldType t FieldType_Index then FieldType_Index
      else if IsFieldType t FieldType_IndexLiteralInsert then FieldType_IndexLiteralInsert
      else if IsFieldType t FieldType_IndexLiteralNeverIndexed then FieldType_IndexLiteralNeverIndexed
      else if IsFieldType t FieldType_IndexLiteralNoInsert then FieldType_IndexLiteralNoInsert
      else if IsFieldType t FieldType_DynTableUpdate then FieldType_DynTableUpdate
      else FieldType_Unknown)"

definition SizeOfField :: "u64 \<Rightarrow> u64 \<Rightarrow> u64" where
  "SizeOfField KeyLen ValueLen = (KeyLen + ValueLen) + 32"

section \<open>The tables\<close>

text \<open>A Go string is a sequence of bytes.\<close>

record KeyValue =
  Key :: "u8 list"
  Value :: "u8 list"

definition bytes :: "string \<Rightarrow> u8 list" where
  "bytes s = map of_char s"

definition predefinedHeaders :: "KeyValue list" where
  "predefinedHeaders =
     map (\<lambda>(k, v). \<lparr> Key = bytes k, Value = bytes v \<rparr>)
      [
       (''INVALIDINDEX'', ''INVALIDINDEX''),
       ('':authority'', ''''),
       ('':method'', ''GET''),
       ('':method'', ''POST''),
       ('':path'', ''/''),
       ('':path'', ''/index.html''),
       ('':scheme'', ''http''),
       ('':scheme'', ''https''),
       ('':status'', ''200''),
       ('':status'', ''204''),
       ('':status'', ''206''),
       ('':status'', ''304''),
       ('':status'', ''400''),
       ('':status'', ''404''),
       ('':status'', ''500''),
       (''accept-charset'', ''''),
       (''accept-encoding'', ''gzip, deflate''),
       (''accept-language'', ''''),
       (''accept-ranges'', ''''),
       (''accept'', ''''),
       (''access-control-allow-origin'', ''''),
       (''age'', ''''),
       (''allow'', ''''),
       (''authorization'', ''''),
       (''cache-control'', ''''),
       (''content-disposition'', ''''),
       (''content-encoding'', ''''),
       (''content-language'', ''''),
       (''content-length'', ''''),
       (''content-location'', ''''),
       (''content-range'', ''''),
       (''content-type'', ''''),
       (''cookie'', ''''),
       (''date'', ''''),
       (''etag'', ''''),
       (''expect'', ''''),
       (''expires'', ''''),
       (''from'', ''''),
       (''host'', ''''),
       (''if-match'', ''''),
       (''if-modified-since'', ''''),
       (''if-none-match'', ''''),
       (''if-range'', ''''),
       (''if-unmodified-since'', ''''),
       (''last-modified'', ''''),
       (''link'', ''''),
       (''location'', ''''),
       (''max-forwards'', ''''),
       (''proxy-authenticate'', ''''),
       (''proxy-authorization'', ''''),
       (''range'', ''''),
       (''referer'', ''''),
       (''refresh'', ''''),
       (''retry-after'', ''''),
       (''server'', ''''),
       (''set-cookie'', ''''),
       (''strict-transport-security'', ''''),
       (''transfer-encoding'', ''''),
       (''user-agent'', ''''),
       (''vary'', ''''),
       (''via'', ''''),
       (''www-authenticate'', '''')]"

record KeyValEntry =
  keyvalue :: KeyValue
  entry_index :: u64

record Table =
  entries :: "KeyValue list"
  max_size :: u64
  table_size :: u64

definition NewTable :: "u64 \<Rightarrow> Table" where
  "NewTable limit = \<lparr> entries = [], max_size = limit, table_size = 0 \<rparr>"

definition slot :: "Table \<Rightarrow> int \<Rightarrow> int" where
  "slot t i = int (length (entries t)) - 1 - i"

text \<open>\<open>uint64(len(s))\<close>.\<close>

definition len64 :: "'a list \<Rightarrow> u64" where
  "len64 s = of_nat (length s)"

fun remove_loop :: "KeyValue list \<Rightarrow> u64 \<Rightarrow> u64 \<Rightarrow> u64 \<Rightarrow> (hpack_error, KeyValue list \<times> u64) outcome" where
  "remove_loop [] sz limit additionalCapacity =
     (if sz + additionalCapacity > limit then if sz \<noteq> 0 then Panic else Ok ([], sz) else Ok ([], sz))"
| "remove_loop (removed # es) sz limit additionalCapacity =
     (if sz + additionalCapacity > limit then
        remove_loop es (sz - SizeOfField (len64 (Key removed)) (len64 (Value removed))) limit additionalCapacity
      else Ok (removed # es, sz))"

definition removeUntilLimit :: "u64 \<Rightarrow> Table \<Rightarrow> (hpack_error, Table) outcome" where
  "removeUntilLimit additionalCapacity t =
     bind_outcome (remove_loop (entries t) (table_size t) (max_size t) additionalCapacity)
       (\<lambda>(es, sz). Ok (t \<lparr> entries := es, table_size := sz \<rparr>))"

definition update_max_size :: "u64 \<Rightarrow> Table \<Rightarrow> (hpack_error, Table) outcome" where
  "update_max_size limit t = removeUntilLimit 0 (t \<lparr> max_size := limit \<rparr>)"

definition table_insert :: "u8 list \<Rightarrow> u8 list \<Rightarrow> Table \<Rightarrow> (hpack_error, Table) outcome" where
  "table_insert key val t =
     (let newFieldSize = SizeOfField (len64 key) (len64 val) in
      bind_outcome (removeUntilLimit newFieldSize t) (\<lambda>t.
        if newFieldSize > max_size t then Ok t
        else Ok (t \<lparr> entries := entries t @ [\<lparr> Key = key, Value = val \<rparr>],
                      table_size := table_size t + newFieldSize \<rparr>)))"

text \<open>
  A nil table is \<open>None\<close>. \<open>int(index)\<close> is negative from \<open>2 ^ 63\<close> on, which sends the index to the
  static table.
\<close>

definition Lookup :: "Table option \<Rightarrow> u64 \<Rightarrow> (hpack_error, KeyValEntry) outcome" where
  "Lookup table index =
     (if sint index < int (length predefinedHeaders) then
        if index = 0 then Err IndexZero
        else if unat index \<ge> length predefinedHeaders then Panic
        else Ok \<lparr> keyvalue = predefinedHeaders ! unat index, entry_index = index \<rparr>
      else
        case table of
          Some t \<Rightarrow>
            let i = sint index - int (length predefinedHeaders) in
            if i < 0 \<or> i \<ge> int (length (entries t)) then Err IndexOutOfRange
            else Ok \<lparr> keyvalue = entries t ! nat (slot t i), entry_index = index \<rparr>
        | None \<Rightarrow> Err IndexOutOfRange)"

section \<open>Decoding fields\<close>

type_synonym emitted = "FieldType \<times> u8 list \<times> u8 list"

text \<open>
  The key of a literal field is an indexed name, or a string when the index is zero; the value is
  a string.
\<close>

definition decode_literal ::
    "Table option \<Rightarrow> u64 \<Rightarrow> u8 list \<Rightarrow> (hpack_error, u8 list \<times> u8 list \<times> u8 list) outcome" where
  "decode_literal table index remain =
     (if index = 0 then
        bind_outcome (DecodeString remain) (\<lambda>(key, remain).
        bind_outcome (DecodeString remain) (\<lambda>(val, remain).
        Ok (key, val, remain)))
      else
        bind_outcome (Lookup table index) (\<lambda>entry.
        bind_outcome (DecodeString remain) (\<lambda>(val, remain).
        Ok (Key (keyvalue entry), val, remain))))"

text \<open>What is left of the input, the table after the field, and what was passed to \<open>emit\<close>.\<close>

definition DecodeField ::
    "Table option \<Rightarrow> u8 list \<Rightarrow> (hpack_error, u8 list \<times> Table option \<times> emitted list) outcome" where
  "DecodeField table r =
     (case r of
        [] \<Rightarrow> Err UnexpectedEOF
      | b # remain \<Rightarrow>
          let fieldType = GetFieldType b;
              prefixLen = FieldPrefixLen fieldType
          in
          (case fieldType of
             FieldType_Index \<Rightarrow>
               bind_outcome (DecodeIntegerWithFirstByte remain prefixLen b) (\<lambda>(index, remain, _).
               bind_outcome (Lookup table index) (\<lambda>entry.
               Ok (remain, table, [(fieldType, Key (keyvalue entry), Value (keyvalue entry))])))
           | FieldType_IndexLiteralInsert \<Rightarrow>
               (case table of
                  None \<Rightarrow> Err NilTable
                | Some t \<Rightarrow>
                    bind_outcome (DecodeIntegerWithFirstByte remain prefixLen b) (\<lambda>(index, remain, _).
                    bind_outcome (decode_literal table index remain) (\<lambda>(key, val, remain).
                    bind_outcome (table_insert key val t) (\<lambda>t.
                    Ok (remain, Some t, [(fieldType, key, val)])))))
           | FieldType_IndexLiteralNoInsert \<Rightarrow>
               bind_outcome (DecodeIntegerWithFirstByte remain prefixLen b) (\<lambda>(index, remain, _).
               bind_outcome (decode_literal table index remain) (\<lambda>(key, val, remain).
               Ok (remain, table, [(fieldType, key, val)])))
           | FieldType_IndexLiteralNeverIndexed \<Rightarrow>
               bind_outcome (DecodeIntegerWithFirstByte remain prefixLen b) (\<lambda>(index, remain, _).
               bind_outcome (decode_literal table index remain) (\<lambda>(key, val, remain).
               Ok (remain, table, [(fieldType, key, val)])))
           | FieldType_DynTableUpdate \<Rightarrow>
               bind_outcome (DecodeIntegerWithFirstByte remain prefixLen b) (\<lambda>(newSize, remain, _).
               (case table of
                  None \<Rightarrow> Ok (remain, None, [])
                | Some t \<Rightarrow>
                    bind_outcome (update_max_size newSize t) (\<lambda>t. Ok (remain, Some t, []))))
           | FieldType_Unknown \<Rightarrow> Err UnknownFieldType))"

lemma DecodeStringWithLenPrefix_remain:
  "DecodeStringWithLenPrefix r len pre = Ok (str, r') \<Longrightarrow> length r' \<le> length r"
  by (auto simp: DecodeStringWithLenPrefix_def split: if_splits)

lemma DecodeString_remain: "DecodeString r = Ok (str, r') \<Longrightarrow> length r' \<le> length r"
  by (auto simp: DecodeString_def dest!: DecodeInteger_suffix DecodeStringWithLenPrefix_remain)

lemma DecodeIntegerWithFirstByte_remain:
  "DecodeIntegerWithFirstByte r n b = Ok (index, r', pre) \<Longrightarrow> length r' \<le> length r"
  using DecodeInteger_reads [of "b # r" n index r' pre] by (auto simp: DecodeInteger_def Cons_eq_append_conv)

lemma decode_literal_remain: "decode_literal t index r = Ok (key, val, r') \<Longrightarrow> length r' \<le> length r"
  by (auto simp: decode_literal_def dest!: DecodeString_remain split: if_splits)

text \<open>Every field reads at least the byte it starts with.\<close>

lemma DecodeField_remain: "DecodeField table r = Ok (r', table', out) \<Longrightarrow> length r' < length r"
  by (auto simp: DecodeField_def Let_def less_Suc_eq_le split: list.splits FieldType.splits option.splits
      dest!: DecodeIntegerWithFirstByte_remain decode_literal_remain)

text \<open>
  The fields of a block. An error ends it; the fields before it have been emitted and have changed
  the table.
\<close>

function DecodeFields ::
    "Table option \<Rightarrow> u8 list \<Rightarrow> (hpack_error, unit) outcome \<times> Table option \<times> emitted list" where
  "DecodeFields table r =
     (if r = [] then (Ok (), table, [])
      else case DecodeField table r of
        Panic \<Rightarrow> (Panic, table, [])
      | Err e \<Rightarrow> (Err e, table, [])
      | Ok (remain, table', out) \<Rightarrow>
          let (res, table'', out') = DecodeFields table' remain in (res, table'', out @ out'))"
  by pat_completeness auto

termination
  by (relation "measure (\<lambda>(table, r). length r)") (auto dest: DecodeField_remain)

declare DecodeFields.simps [simp del]

section \<open>Encoding fields\<close>

definition field_matches :: "bool \<Rightarrow> u8 list \<Rightarrow> u8 list \<Rightarrow> KeyValue \<Rightarrow> bool" where
  "field_matches only_hdr_equal key val x \<longleftrightarrow>
     (if \<not> only_hdr_equal then key = Key x \<and> val = Value x else key = Key x)"

fun find_field :: "(KeyValue \<Rightarrow> bool) \<Rightarrow> nat \<Rightarrow> KeyValue list \<Rightarrow> (nat \<times> KeyValue) option" where
  "find_field p i [] = None"
| "find_field p i (x # xs) = (if p x then Some (i, x) else find_field p (i + 1) xs)"

definition ReverseLookup :: "Table option \<Rightarrow> u8 list \<Rightarrow> u8 list \<Rightarrow> bool \<Rightarrow> KeyValEntry option" where
  "ReverseLookup table key val only_hdr_equal =
     (case find_field (field_matches only_hdr_equal key val) 0 (tl predefinedHeaders) of
        Some (i, entry) \<Rightarrow> Some \<lparr> keyvalue = entry, entry_index = of_nat i + 1 \<rparr>
      | None \<Rightarrow>
          (case table of
             None \<Rightarrow> None
           | Some t \<Rightarrow>
               (case find_field (field_matches only_hdr_equal key val) 0 (entries t) of
                  Some (i, x) \<Rightarrow>
                    Some \<lparr> keyvalue = x,
                           entry_index = word_of_int (slot t (int i)) + len64 predefinedHeaders \<rparr>
                | None \<Rightarrow> None)))"

text \<open>The caller's choice of representation, asked only when there is a table.\<close>

definition choose_type ::
    "KeyValue \<Rightarrow> bool \<Rightarrow> Table option \<Rightarrow> (KeyValue \<Rightarrow> bool \<Rightarrow> FieldType) option \<Rightarrow>
     (hpack_error, FieldType) outcome" where
  "choose_type entry indexed table mayAdd =
     (case (table, mayAdd) of
        (Some t, Some f) \<Rightarrow>
          let typ = f entry indexed in
          if typ \<noteq> FieldType_IndexLiteralInsert \<and> typ \<noteq> FieldType_IndexLiteralNeverIndexed \<and>
             typ \<noteq> FieldType_IndexLiteralNoInsert
          then Err InvalidMayAdd else Ok typ
      | _ \<Rightarrow> Ok FieldType_IndexLiteralNoInsert)"

definition AppendField ::
    "u8 list \<Rightarrow> KeyValue \<Rightarrow> AppendStringMode \<Rightarrow> Table option \<Rightarrow> (KeyValue \<Rightarrow> bool \<Rightarrow> FieldType) option \<Rightarrow>
     (hpack_error, u8 list \<times> Table option) outcome" where
  "AppendField b entry mode table mayAdd =
     (case ReverseLookup table (Key entry) (Value entry) False of
        Some matched \<Rightarrow>
          bind_outcome (AppendInteger b 7 (MatchFieldType FieldType_Index) (entry_index matched))
            (\<lambda>b. Ok (b, table))
      | None \<Rightarrow>
          let matched_key = ReverseLookup table (Key entry) (Value entry) True in
          bind_outcome (choose_type entry (matched_key \<noteq> None) table mayAdd) (\<lambda>fieldType.
          let index = (case matched_key of Some m \<Rightarrow> entry_index m | None \<Rightarrow> 0) in
          bind_outcome (AppendInteger b (FieldPrefixLen fieldType) (MatchFieldType fieldType) index) (\<lambda>b.
          bind_outcome (if matched_key = None then AppendString b 0 (Key entry) mode else Ok b) (\<lambda>b.
          bind_outcome (AppendString b 0 (Value entry) mode) (\<lambda>b.
          if fieldType = FieldType_IndexLiteralInsert then
            (case table of
               None \<Rightarrow> Panic
             | Some t \<Rightarrow>
                 bind_outcome (table_insert (Key entry) (Value entry) t) (\<lambda>t. Ok (b, Some t)))
          else Ok (b, table))))))"

section \<open>Header blocks\<close>

text \<open>
  \<open>hpacker\<close> and \<open>PackHeader\<close> of \<open>http2_conn.go\<close>. The header emitter calls \<open>emit\<close> for one field
  after the other and stops at the first error; it is the list of its calls here. The connection
  passes no \<open>mayAdd\<close>.
\<close>

record hpacker =
  encState :: "Table option"
  hpackBuffer :: "u8 list"

definition newHPacker :: "u64 \<Rightarrow> hpacker" where
  "newHPacker maxTableSize = \<lparr> encState = Some (NewTable maxTableSize), hpackBuffer = [] \<rparr>"

fun emit_fields :: "(KeyValue \<times> AppendStringMode) list \<Rightarrow> hpacker \<Rightarrow> (hpack_error, unit) outcome \<times> hpacker" where
  "emit_fields [] h = (Ok (), h)"
| "emit_fields ((kv, mode) # hdr) h =
     (case AppendField (hpackBuffer h) kv mode (encState h) None of
        Ok (buffer, table) \<Rightarrow> emit_fields hdr \<lparr> encState = table, hpackBuffer = buffer \<rparr>
      | Err e \<Rightarrow> (Err e, h)
      | Panic \<Rightarrow> (Panic, h))"

definition PackHeader ::
    "(KeyValue \<times> AppendStringMode) list \<Rightarrow> hpacker \<Rightarrow> (hpack_error, u8 list) outcome \<times> hpacker" where
  "PackHeader hdr h =
     (case emit_fields hdr (h \<lparr> hpackBuffer := [] \<rparr>) of
        (Ok _, h') \<Rightarrow> (Ok (hpackBuffer h'), h')
      | (Err e, h') \<Rightarrow> (Err e, h')
      | (Panic, h') \<Rightarrow> (Panic, h'))"

end
