(* ===== verification/Http2_Conn.thy ===== *)
theory Http2_Conn
  imports Http2_Frame Hpack_Table
begin

text \<open>
  The HTTP/2 connection that the RPC layer runs on: \<open>protobuf/wire/h2/http2_conn.go\<close> and the read
  buffer of \<open>protobuf/wire/zerocopy\<close>. Every operation holds the connection's lock, so it is a step on
  the connection's state; an operation that waits for a channel gives the lock back, and its model is
  the step up to the point where it waits.

  Streams are shared objects: the routing map, the accept queue and the users of the connection hold
  pointers to them. \<open>heap\<close> holds every stream object that was made, and a pointer is its position.
  A channel of capacity one that is only ever sent to without blocking is a flag.

  The inspector callback only observes frames and is left out.
\<close>

section \<open>HTTP headers\<close>

text \<open>\<open>http.Header\<close> of the package \<open>net/http\<close>: its \<open>Add\<close> puts the key into canonical form.\<close>

definition byte_in :: "char \<Rightarrow> char \<Rightarrow> u8 \<Rightarrow> bool" where
  "byte_in a z b \<longleftrightarrow> of_char a \<le> b \<and> b \<le> of_char z"

definition validHeaderFieldByte :: "u8 \<Rightarrow> bool" where
  "validHeaderFieldByte b \<longleftrightarrow>
     byte_in CHR ''0'' CHR ''9'' b \<or> byte_in CHR ''a'' CHR ''z'' b \<or> byte_in CHR ''A'' CHR ''Z'' b \<or>
     b \<in> set (bytes ''!#$%&*+-.^_`|~'') \<or> b = 0x27"

fun canonical_loop :: "bool \<Rightarrow> u8 list \<Rightarrow> u8 list" where
  "canonical_loop upper [] = []"
| "canonical_loop upper (c # cs) =
     (let c = (if upper \<and> byte_in CHR ''a'' CHR ''z'' c then c - 32
               else if \<not> upper \<and> byte_in CHR ''A'' CHR ''Z'' c then c + 32 else c)
      in c # canonical_loop (c = of_char CHR ''-'') cs)"

definition CanonicalMIMEHeaderKey :: "u8 list \<Rightarrow> u8 list" where
  "CanonicalMIMEHeaderKey s = (if list_all validHeaderFieldByte s then canonical_loop True s else s)"

type_synonym http_header = "(u8 list \<times> u8 list list) list"

definition header_Add :: "u8 list \<Rightarrow> u8 list \<Rightarrow> http_header \<Rightarrow> http_header" where
  "header_Add key val h =
     (let k = CanonicalMIMEHeaderKey key in
      AList.update k ((case map_of h k of Some vs \<Rightarrow> vs | None \<Rightarrow> []) @ [val]) h)"

section \<open>State\<close>

datatype H2StreamState =
    Idle
  | Open
  | ReservedLocal
  | ReservedRemote
  | HalfClosedLocal
  | HalfClosedRemote
  | Close

datatype ParseState = WaitHeader | HeaderRead | GoneAway | WaitPreface

record PredefinedSettings =
  TableSize :: u32
  EnablePush :: bool
  MaxConcurrentStreams :: u32
  InitialWindowSize :: u32
  MaxFrameSize :: u32
  MaxHeaderListSize :: u32

definition defaultSettings :: PredefinedSettings where
  "defaultSettings =
     \<lparr> TableSize = 4096, EnablePush = True, MaxConcurrentStreams = 0, InitialWindowSize = 65535,
       MaxFrameSize = 16384, MaxHeaderListSize = 0 \<rparr>"

text \<open>A window is a signed 64-bit number; \<open>wrap64\<close> is what is left of a sum.\<close>

type_synonym window = int

definition wrap64 :: "int \<Rightarrow> int" where
  "wrap64 i = (i + 2 ^ 63) mod 2 ^ 64 - 2 ^ 63"

record H2Stream =
  streamID :: u32
  code :: u32
  st :: H2StreamState
  s_localWindow :: window
  s_peerWindow :: window
  windowUpdateCh :: bool
  sentHeader :: http_header
  receivedHeader :: "http_header option"
  streamData :: "u8 list"
  readCh :: bool

record Conn =
  heap :: "H2Stream list"
  streams :: "(u32 \<times> nat) list"
  encHpack :: hpacker
  decHpack :: "Table option"
  writeBuffer :: "u8 list"
  writeCh :: bool
  headerBuffer :: "u8 list"
  localSettings :: PredefinedSettings
  updatingSettings :: PredefinedSettings
  peerSettings :: PredefinedSettings
  header :: FrameHeader
  c_localWindow :: window
  c_peerWindow :: window
  continuationStreamID :: u32
  nextStreamID :: u32
  maxReceivedStreamID :: u32
  isClient :: bool
  state :: ParseState
  waitingSettingsAck :: bool
  activeStreams :: int
  acceptQueue :: "nat list"
  acceptCh :: bool
  readBuffer :: "u8 list"

datatype conn_error =
    WindowExceeded
  | StreamNotWritable
  | StreamNotOpen H2StreamState
  | FrameTooLarge
  | GoneAwayError
  | UpdateWhileWaiting
  | InvalidMaxFrameSize
  | UnexpectedSettingsAck
  | UnexpectedStreamFrame
  | UnexpectedConnectionFrame
  | InvalidStreamID
  | ContinuationForOtherStream
  | ExpectedContinuation
  | ContinuationWithoutHeaders
  | FrameOnClosedStream
  | ExpectedHeaders
  | PushDisabled
  | PushOnServer
  | InvalidPromisedID
  | InvalidPreface
  | DataAfterGoaway
  | FrameErr frame_error
  | HpackErr hpack_error

text \<open>Calls in sequence: an error or a panic ends them, and what was changed before stays changed.\<close>

type_synonym 'a conn_action = "Conn \<Rightarrow> (conn_error, 'a) outcome \<times> Conn"

fun and_then :: "(conn_error, 'a) outcome \<times> Conn \<Rightarrow> ('a \<Rightarrow> 'b conn_action) \<Rightarrow> (conn_error, 'b) outcome \<times> Conn" where
  "and_then (Ok a, c) f = f a c"
| "and_then (Err e, c) f = (Err e, c)"
| "and_then (Panic, c) f = (Panic, c)"

definition fail :: "conn_error \<Rightarrow> 'a conn_action" where
  "fail e c = (Err e, c)"

definition done_with :: "'a \<Rightarrow> 'a conn_action" where
  "done_with a c = (Ok a, c)"

text \<open>\<open>MustAppend\<close>: an encoder's error is a panic.\<close>

definition must_append :: "(u8 list \<Rightarrow> (frame_error, u8 list) outcome) \<Rightarrow> unit conn_action" where
  "must_append app c =
     (case app (writeBuffer c) of
        Ok b \<Rightarrow> (Ok (), c\<lparr> writeBuffer := b \<rparr>)
      | _ \<Rightarrow> (Panic, c))"

section \<open>Streams\<close>

definition upd_stream :: "nat \<Rightarrow> (H2Stream \<Rightarrow> H2Stream) \<Rightarrow> Conn \<Rightarrow> Conn" where
  "upd_stream r f c = c\<lparr> heap := (heap c)[r := f (heap c ! r)] \<rparr>"

definition notifyWindowUpdate :: "nat \<Rightarrow> Conn \<Rightarrow> Conn" where
  "notifyWindowUpdate r = upd_stream r (\<lambda>s. s\<lparr> windowUpdateCh := True \<rparr>)"

definition notifyRead :: "nat \<Rightarrow> Conn \<Rightarrow> Conn" where
  "notifyRead r = upd_stream r (\<lambda>s. s\<lparr> readCh := True \<rparr>)"

definition notifyWritable :: "Conn \<Rightarrow> Conn" where
  "notifyWritable c = c\<lparr> writeCh := True \<rparr>"

definition setState :: "nat \<Rightarrow> H2StreamState \<Rightarrow> Conn \<Rightarrow> Conn" where
  "setState r s c =
     (let c = upd_stream r (\<lambda>x. x\<lparr> st := s \<rparr>) c in
      if s = Close then
        let c = notifyWindowUpdate r (notifyRead r c); sid = streamID (heap c ! r) in
        if continuationStreamID c \<noteq> sid then c\<lparr> streams := AList.delete sid (streams c) \<rparr> else c
      else c)"

text \<open>The loop over the streams; the ones it closes leave the map while it runs.\<close>

definition close_all :: "Conn \<Rightarrow> Conn" where
  "close_all c = fold (\<lambda>(sid, r) c. setState r Close c) (streams c) c"

definition window_Consume :: "int \<Rightarrow> window \<Rightarrow> window option" where
  "window_Consume n w = (if w < n then None else Some (w - n))"

definition window_Update :: "int \<Rightarrow> window \<Rightarrow> window" where
  "window_Update n w = wrap64 (w + n)"

definition IsClientInitiated :: "u32 \<Rightarrow> bool" where
  "IsClientInitiated sid \<longleftrightarrow> sid AND 1 = 1"

definition isThisSideInitiated :: "u32 \<Rightarrow> Conn \<Rightarrow> bool" where
  "isThisSideInitiated sid c \<longleftrightarrow> IsClientInitiated sid = isClient c"

definition newHTTP2Stream :: "u32 \<Rightarrow> H2StreamState \<Rightarrow> Conn \<Rightarrow> nat \<times> Conn" where
  "newHTTP2Stream sid s c =
     (let r = length (heap c);
          stream = \<lparr> streamID = sid, code = 0, st = s,
            s_localWindow = uint (InitialWindowSize (localSettings c)),
            s_peerWindow = uint (InitialWindowSize (peerSettings c)),
            windowUpdateCh = False, sentHeader = [], receivedHeader = None, streamData = [], readCh = False \<rparr>;
          c = c\<lparr> heap := heap c @ [stream], streams := AList.update sid r (streams c) \<rparr>
      in (r, if \<not> isThisSideInitiated sid c then c\<lparr> acceptQueue := acceptQueue c @ [r], acceptCh := True \<rparr> else c))"

definition CreateStream :: "Conn \<Rightarrow> nat option \<times> Conn" where
  "CreateStream c =
     (if state c = GoneAway then (None, c)
      else if MaxConcurrentStreams (peerSettings c) \<noteq> 0 \<and>
              activeStreams c \<ge> uint (MaxConcurrentStreams (peerSettings c)) then (None, c)
      else
        let c = c\<lparr> activeStreams := activeStreams c + 1 \<rparr>;
            sid = nextStreamID c;
            c = c\<lparr> nextStreamID := nextStreamID c + 2 \<rparr>;
            (r, c) = newHTTP2Stream sid Idle c
        in (Some r, c))"

definition FindStream :: "u32 \<Rightarrow> Conn \<Rightarrow> nat option" where
  "FindStream sid c = map_of (streams c) sid"

definition Abort :: "Conn \<Rightarrow> Conn" where
  "Abort c = (let c = close_all (c\<lparr> state := GoneAway \<rparr>) in (notifyWritable c)\<lparr> acceptCh := True \<rparr>)"

text \<open>What a call does up to the point where it waits for a channel.\<close>

datatype 'a attempt = Done 'a | Wait

definition AcceptStream :: "nat attempt conn_action" where
  "AcceptStream c =
     (if state c = GoneAway then fail GoneAwayError c
      else case acceptQueue c of
        r # rs \<Rightarrow> done_with (Done r) (c\<lparr> acceptQueue := rs \<rparr>)
      | [] \<Rightarrow> done_with Wait c)"

section \<open>Writing frames\<close>

definition maxFrameSize :: "Conn \<Rightarrow> int" where
  "maxFrameSize c = uint (MaxFrameSize (peerSettings c))"

definition frame_header :: "u32 \<Rightarrow> H2Type \<Rightarrow> nat \<Rightarrow> Flags \<Rightarrow> FrameHeader" where
  "frame_header sid frameType payloadLen flags =
     (SetLen (of_nat payloadLen) (SetType frameType (SetStreamId sid zero_header)))\<lparr> hdr_flags := flags \<rparr>"

definition prepaereHeader ::
    "u32 \<Rightarrow> H2Type \<Rightarrow> nat \<Rightarrow> Flags \<Rightarrow> Conn \<Rightarrow> (conn_error, FrameHeader \<times> u8 list) outcome" where
  "prepaereHeader sid frameType payloadLen flags c =
     (if int payloadLen > maxFrameSize c then Err FrameTooLarge
      else
        let hdr = frame_header sid frameType payloadLen flags in
        map_error FrameErr (bind_outcome (FrameHeader_Append hdr []) (\<lambda>data. Ok (hdr, data))))"

definition write_raw :: "u8 list \<Rightarrow> Conn \<Rightarrow> Conn" where
  "write_raw bs c = c\<lparr> writeBuffer := writeBuffer c @ bs \<rparr>"

datatype blockingReason = blockingReasonMaxFrameSize | blockingReasonConnectionWindow | blockingReasonStreamWindow

text \<open>
  \<open>streamPeerWindow\<close> points to the window of the stream \<open>r\<close>. The two \<open>Consume\<close> calls come after the
  frame is in the buffer.
\<close>

definition emit_data :: "u32 \<Rightarrow> nat \<Rightarrow> u8 list \<Rightarrow> bool \<Rightarrow> nat \<Rightarrow> (nat \<times> blockingReason) conn_action" where
  "emit_data sid r p endStream n c =
     (case prepaereHeader sid H2Type_DATA n (SetEndStreamOrAck endStream 0) c of
        Panic \<Rightarrow> (Panic, c)
      | Err e \<Rightarrow> (Err e, c)
      | Ok (_, headerBuf) \<Rightarrow>
          let c = write_raw (take n p) (write_raw headerBuf c) in
          case window_Consume (int n) (s_peerWindow (heap c ! r)) of
            None \<Rightarrow> fail WindowExceeded c
          | Some w \<Rightarrow>
              let c = upd_stream r (\<lambda>s. s\<lparr> s_peerWindow := w \<rparr>) c in
              case window_Consume (int n) (c_peerWindow c) of
                None \<Rightarrow> fail WindowExceeded c
              | Some w \<Rightarrow> done_with (n, blockingReasonMaxFrameSize) (notifyWritable (c\<lparr> c_peerWindow := w \<rparr>)))"

definition writeData :: "u32 \<Rightarrow> nat \<Rightarrow> u8 list \<Rightarrow> bool \<Rightarrow> (nat \<times> blockingReason) conn_action" where
  "writeData sid r p endStream c =
     (let sw = s_peerWindow (heap c ! r); cw = c_peerWindow c;
          minimum = min (int (length p)) (min (maxFrameSize c) (min sw cw))
      in
      if minimum \<le> 0 \<and> \<not> endStream then
        let reason = blockingReasonMaxFrameSize;
            reason = (if minimum = sw then blockingReasonStreamWindow else reason);
            reason = (if minimum = cw then blockingReasonConnectionWindow else reason)
        in done_with (0, reason) c
      else emit_data sid r p endStream (nat minimum) c)"

text \<open>
  \<open>appendContinuation\<close> writes a header per frame; the bytes of the frames are not written. With a
  frame size of zero it would not end (\<open>None\<close>, which \<open>writeHeader\<close> does not tell from a panic; the
  frame size is never zero): the fuel is the number of bytes left and one.
\<close>

fun appendContinuation :: "nat \<Rightarrow> u32 \<Rightarrow> u8 list \<Rightarrow> Conn \<Rightarrow> ((conn_error, unit) outcome \<times> Conn) option" where
  "appendContinuation 0 sid p c = None"
| "appendContinuation (Suc fuel) sid p c =
     (let frameLen = nat (min (int (length p)) (maxFrameSize c));
          flags = (if frameLen = length p then SetEndHeaders True 0 else 0)
      in case prepaereHeader sid H2Type_CONTINUATION frameLen flags c of
        Panic \<Rightarrow> Some (Panic, c)
      | Err e \<Rightarrow> Some (Err e, c)
      | Ok (_, headerBuf) \<Rightarrow>
          let c = write_raw headerBuf c; p = drop frameLen p in
          if EndHeaders flags then Some (Ok (), c) else appendContinuation fuel sid p c)"

definition emit_headers :: "u32 \<Rightarrow> u8 list \<Rightarrow> unit conn_action" where
  "emit_headers sid packed c =
     (let bufSize = nat (min (int (length packed)) (maxFrameSize c));
          flags = (if bufSize = length packed then SetEndHeaders True 0 else 0)
      in
      case prepaereHeader sid H2Type_HEADERS bufSize flags c of
        Panic \<Rightarrow> (Panic, c)
      | Err e \<Rightarrow> (Err e, c)
      | Ok (_, headerBuf) \<Rightarrow>
          let c = write_raw (take bufSize packed) (write_raw headerBuf c) in
          if \<not> EndHeaders flags then
            (case appendContinuation (length packed + 1) sid (drop bufSize packed) c of
               None \<Rightarrow> (Panic, c)
             | Some x \<Rightarrow> and_then x (\<lambda>_ c. done_with () (notifyWritable c)))
          else done_with () (notifyWritable c))"

definition writeHeader :: "u32 \<Rightarrow> (KeyValue \<times> AppendStringMode) list \<Rightarrow> unit conn_action" where
  "writeHeader sid hdr c =
     (let (packed, h) = PackHeader hdr (encHpack c); c = c\<lparr> encHpack := h \<rparr> in
      case packed of
        Panic \<Rightarrow> (Panic, c)
      | Err e \<Rightarrow> (Err (HpackErr e), c)
      | Ok packed \<Rightarrow> emit_headers sid packed c)"

definition writeRstStream :: "u32 \<Rightarrow> u32 \<Rightarrow> unit conn_action" where
  "writeRstStream sid cd c =
     (case prepaereHeader sid H2Type_RST_STREAM 4 0 c of
        Panic \<Rightarrow> (Panic, c)
      | Err e \<Rightarrow> (Err e, c)
      | Ok (hdr, headerBuf) \<Rightarrow>
          and_then (must_append (RstStreamFrame_Append hdr cd) (write_raw headerBuf c)) (\<lambda>_ c.
          done_with () (notifyWritable c)))"

text \<open>The settings one frame names, applied in order; an invalid frame size ends the loop.\<close>

fun apply_settings :: "Setting list \<Rightarrow> PredefinedSettings \<Rightarrow> bool \<times> PredefinedSettings" where
  "apply_settings [] p = (True, p)"
| "apply_settings (s # ss) p =
     (if Id s = SettingsID_HEADER_TABLE_SIZE then apply_settings ss (p\<lparr> TableSize := SettingValue s \<rparr>)
      else if Id s = SettingsID_ENABLE_PUSH then apply_settings ss (p\<lparr> EnablePush := SettingValue s \<noteq> 0 \<rparr>)
      else if Id s = SettingsID_MAX_CONCURRENT_STREAMS then
        apply_settings ss (p\<lparr> MaxConcurrentStreams := SettingValue s \<rparr>)
      else if Id s = SettingsID_INITIAL_WINDOW_SIZE then
        apply_settings ss (p\<lparr> InitialWindowSize := SettingValue s \<rparr>)
      else if Id s = SettingsID_MAX_FRAME_SIZE then
        (if \<not> AllowedMaxFrameSize (SettingValue s) then (False, p)
         else apply_settings ss (p\<lparr> MaxFrameSize := SettingValue s \<rparr>))
      else if Id s = SettingsID_MAX_HEADER_LIST_SIZE then
        apply_settings ss (p\<lparr> MaxHeaderListSize := SettingValue s \<rparr>)
      else apply_settings ss p)"

definition updateSettings :: "Setting list \<Rightarrow> unit conn_action" where
  "updateSettings ss c =
     (if waitingSettingsAck c then fail UpdateWhileWaiting c
      else
        let (valid, s) = apply_settings ss (localSettings c); c = c\<lparr> updatingSettings := s \<rparr> in
        if \<not> valid then fail InvalidMaxFrameSize c
        else
          let hdr = SetLen (of_nat (6 * length ss)) (SetType H2Type_SETTINGS zero_header);
              hdr = hdr\<lparr> hdr_flags := SetEndStreamOrAck False (hdr_flags hdr) \<rparr>
          in case bind_outcome (FrameHeader_Append hdr []) (SettingsFrame_Append hdr (ss, False)) of
            Panic \<Rightarrow> (Panic, c)
          | Err e \<Rightarrow> (Err (FrameErr e), c)
          | Ok frame \<Rightarrow> done_with () (notifyWritable ((write_raw frame c)\<lparr> waitingSettingsAck := True \<rparr>)))"

definition writeGoAway :: "u32 \<Rightarrow> u32 \<Rightarrow> u8 list \<Rightarrow> unit conn_action" where
  "writeGoAway lastStreamID cd debugData c =
     (case prepaereHeader 0 H2Type_GOAWAY (8 + length debugData) 0 c of
        Panic \<Rightarrow> (Panic, c)
      | Err e \<Rightarrow> (Err e, c)
      | Ok (hdr, headerBuf) \<Rightarrow>
          let frame = \<lparr> last_id = set_number31 lastStreamID 0, goaway_ErrorCode = cd, DebugData = debugData \<rparr> in
          and_then (must_append (GoAwayFrame_Append hdr frame) (write_raw headerBuf c)) (\<lambda>_ c.
          done_with () (notifyWritable c)))"

definition writeWindowUpdate :: "u32 \<Rightarrow> u32 \<Rightarrow> unit conn_action" where
  "writeWindowUpdate sid increment c =
     (case prepaereHeader sid H2Type_WINDOW_UPDATE 4 0 c of
        Panic \<Rightarrow> (Panic, c)
      | Err e \<Rightarrow> (Err e, c)
      | Ok (hdr, headerBuf) \<Rightarrow>
          must_append (WindowUpdateFrame_Append hdr (set_number31 increment 0)) (write_raw headerBuf c))"

section \<open>Handling frames\<close>

definition set_header_flags :: "(Flags \<Rightarrow> Flags) \<Rightarrow> Conn \<Rightarrow> Conn" where
  "set_header_flags f c = c\<lparr> header := (header c)\<lparr> hdr_flags := f (hdr_flags (header c)) \<rparr> \<rparr>"

definition must_append_header :: "unit conn_action" where
  "must_append_header c = must_append (FrameHeader_Append (header c)) c"

definition update_stream_windows :: "int \<Rightarrow> Conn \<Rightarrow> Conn" where
  "update_stream_windows diff c =
     fold (\<lambda>(sid, r). upd_stream r (\<lambda>s. s\<lparr> s_localWindow := window_Update diff (s_localWindow s) \<rparr>)) (streams c) c"

definition handle_settings :: "Setting list \<Rightarrow> unit conn_action" where
  "handle_settings ss c =
     (if EndStreamOrAck (hdr_flags (header c)) then
        (if \<not> waitingSettingsAck c then fail UnexpectedSettingsAck c
         else
           let new = InitialWindowSize (updatingSettings c); old = InitialWindowSize (localSettings c);
               c = (if old \<noteq> new then
                      let diff = uint new - uint old in
                      update_stream_windows diff (c\<lparr> c_localWindow := window_Update diff (c_localWindow c) \<rparr>)
                    else c)
           in done_with () (c\<lparr> localSettings := updatingSettings c, waitingSettingsAck := False \<rparr>))
      else
        let (valid, s) = apply_settings ss (peerSettings c); c = c\<lparr> peerSettings := s \<rparr> in
        if \<not> valid then fail InvalidMaxFrameSize c
        else
          let c = set_header_flags (SetEndStreamOrAck True) c; c = c\<lparr> header := SetLen 0 (header c) \<rparr> in
          must_append_header c)"

definition handleConnectionLevelFrame :: "FrameBody \<Rightarrow> unit conn_action" where
  "handleConnectionLevelFrame body c =
     (case body of
        Ping ping \<Rightarrow>
          if EndStreamOrAck (hdr_flags (header c)) then done_with () c
          else
            and_then (must_append_header (set_header_flags (SetEndStreamOrAck True) c)) (\<lambda>_ c.
            must_append (PingFrame_Append (header c) ping) c)
      | Settings s \<Rightarrow> handle_settings (fst s) c
      | Goaway g \<Rightarrow> done_with () (close_all (c\<lparr> state := GoneAway \<rparr>))
      | WindowUpdate w \<Rightarrow>
          let c = c\<lparr> c_peerWindow := window_Update (uint (number31 w)) (c_peerWindow c) \<rparr> in
          done_with () (fold (\<lambda>(sid, r). notifyWindowUpdate r) (streams c) c)
      | _ \<Rightarrow>
          if Type (header c) = H2Type_HEADERS \<or> Type (header c) = H2Type_CONTINUATION \<or>
             Type (header c) = H2Type_PRIORITY \<or> Type (header c) = H2Type_RST_STREAM
          then fail UnexpectedStreamFrame c
          else done_with () c)"

text \<open>The fields decoded before an error are added to the header too.\<close>

definition handleHpackDecode :: "nat \<Rightarrow> u8 list \<Rightarrow> unit conn_action" where
  "handleHpackDecode r hdrBlock c =
     (let h0 = (case receivedHeader (heap c ! r) of None \<Rightarrow> [] | Some h \<Rightarrow> h);
          (res, table, out) = DecodeFields (decHpack c) hdrBlock;
          h = fold (\<lambda>(fieldType, key, val). header_Add key val) out h0;
          c = upd_stream r (\<lambda>s. s\<lparr> receivedHeader := Some h \<rparr>) (c\<lparr> decHpack := table \<rparr>)
      in (map_error HpackErr res, c))"

text \<open>\<open>maySendWindowUpdate\<close> drops the error of \<open>writeWindowUpdate\<close>; a panic is not dropped.\<close>

definition replenish :: "u32 \<Rightarrow> window \<Rightarrow> (int \<Rightarrow> Conn \<Rightarrow> Conn) \<Rightarrow> Conn \<Rightarrow> (conn_error, bool) outcome \<times> Conn" where
  "replenish sid avail upd c =
     (let initial = InitialWindowSize (localSettings c); threshold = initial div 2 in
      if avail < uint threshold then
        let increment = uint initial - avail in
        if increment \<le> 0 then (Ok False, c)
        else
          (case writeWindowUpdate sid (word_of_int increment) c of
             (Panic, c) \<Rightarrow> (Panic, c)
           | (_, c) \<Rightarrow> (Ok True, upd increment c))
      else (Ok True, c))"

definition maySendWindowUpdate :: "nat \<Rightarrow> unit conn_action" where
  "maySendWindowUpdate r c =
     and_then
       (replenish (streamID (heap c ! r)) (s_localWindow (heap c ! r))
         (\<lambda>increment. upd_stream r (\<lambda>s. s\<lparr> s_localWindow := window_Update increment (s_localWindow s) \<rparr>)) c)
       (\<lambda>continue c.
          if \<not> continue then done_with () c
          else
            and_then
              (replenish 0 (c_localWindow c)
                (\<lambda>increment c. c\<lparr> c_localWindow := window_Update increment (c_localWindow c) \<rparr>) c)
              (\<lambda>_. done_with ()))"

text \<open>The first part of \<open>handleStreamLevelFrame\<close>: the stream of the frame, or nothing to do.\<close>

definition find_or_open :: "nat option conn_action" where
  "find_or_open c =
     (let sid = StreamId (header c) in
      case map_of (streams c) sid of
        Some r \<Rightarrow> done_with (Some r) c
      | None \<Rightarrow>
          if isThisSideInitiated sid c then
            (if sid < nextStreamID c then done_with None c else fail InvalidStreamID c)
          else
            let (r, c) = newHTTP2Stream sid Idle c;
                c = c\<lparr> maxReceivedStreamID := max (maxReceivedStreamID c) (streamID (heap c ! r)) \<rparr>
            in done_with (Some r)
                 (if streamID (heap c ! r) < maxReceivedStreamID c then setState r Close c else c))"

definition continuation_check :: "unit conn_action" where
  "continuation_check c =
     (if continuationStreamID c \<noteq> 0 then
        (if StreamId (header c) \<noteq> continuationStreamID c then fail ContinuationForOtherStream c
         else if Type (header c) \<noteq> H2Type_CONTINUATION then fail ExpectedContinuation c
         else done_with () c)
      else done_with () c)"

definition handle_continuation :: "nat \<Rightarrow> u8 list \<Rightarrow> unit conn_action" where
  "handle_continuation r block c =
     (if continuationStreamID c = 0 then fail ContinuationWithoutHeaders c
      else
        let c = c\<lparr> headerBuffer := headerBuffer c @ block \<rparr> in
        if EndHeaders (hdr_flags (header c)) then
          let c = c\<lparr> continuationStreamID := 0 \<rparr>; (res, c) = handleHpackDecode r (headerBuffer c) c in
          (case res of
             Panic \<Rightarrow> (Panic, c)
           | _ \<Rightarrow> (res,
               if st (heap c ! r) = Close
               then c\<lparr> streams := AList.delete (streamID (heap c ! r)) (streams c) \<rparr> else c))
        else done_with () c)"

definition handle_rst :: "nat \<Rightarrow> u32 \<Rightarrow> unit conn_action" where
  "handle_rst r cd c =
     done_with ()
       (if st (heap c ! r) \<noteq> Close then
          let c = setState r Close c; c = upd_stream r (\<lambda>s. s\<lparr> code := cd \<rparr>) c in
          if isThisSideInitiated (streamID (heap c ! r)) c then c\<lparr> activeStreams := activeStreams c - 1 \<rparr> else c
        else c)"

definition mayHandleClose :: "nat \<Rightarrow> Conn \<Rightarrow> Conn" where
  "mayHandleClose r c =
     (if EndStreamOrAck (hdr_flags (header c)) then
        (case st (heap c ! r) of
           Open \<Rightarrow> setState r HalfClosedRemote c
         | HalfClosedLocal \<Rightarrow>
             let c = setState r Close c in
             if isThisSideInitiated (streamID (heap c ! r)) c then c\<lparr> activeStreams := activeStreams c - 1 \<rparr> else c
         | _ \<Rightarrow> c)
      else c)"

definition handle_headers :: "nat \<Rightarrow> u8 list \<Rightarrow> unit conn_action" where
  "handle_headers r block c =
     (let c = (if st (heap c ! r) = Idle then setState r Open c else c);
          c = mayHandleClose r c
      in
      if EndHeaders (hdr_flags (header c)) then handleHpackDecode r block c
      else done_with () (c\<lparr> continuationStreamID := streamID (heap c ! r), headerBuffer := block \<rparr>))"

definition handle_data :: "nat \<Rightarrow> u8 list \<Rightarrow> unit conn_action" where
  "handle_data r bs c =
     (let c = mayHandleClose r c; n = uint (Len (header c)) in
      case window_Consume n (c_localWindow c) of
        None \<Rightarrow> fail WindowExceeded c
      | Some w \<Rightarrow>
          let c = c\<lparr> c_localWindow := w \<rparr> in
          case window_Consume n (s_localWindow (heap c ! r)) of
            None \<Rightarrow> fail WindowExceeded c
          | Some w \<Rightarrow>
              let c = upd_stream r (\<lambda>s. s\<lparr> s_localWindow := w \<rparr>) c;
                  c = upd_stream r (\<lambda>s. s\<lparr> streamData := streamData s @ bs \<rparr>) c;
                  c = notifyRead r c
              in maySendWindowUpdate r c)"

definition handle_push_promise :: "PushPromiseFrame \<Rightarrow> unit conn_action" where
  "handle_push_promise pp c =
     (let promised = number31 (promised_id pp) in
      if \<not> EnablePush (localSettings c) then fail PushDisabled c
      else if \<not> isClient c then fail PushOnServer c
      else if promised \<le> maxReceivedStreamID c then fail InvalidPromisedID c
      else
        let c = c\<lparr> maxReceivedStreamID := promised \<rparr>;
            (r, c) = newHTTP2Stream promised ReservedRemote c;
            c = c\<lparr> streams := AList.update (streamID (heap c ! r)) r (streams c) \<rparr>
        in
        if EndHeaders (hdr_flags (header c)) then handleHpackDecode r (promise_Block pp) c
        else done_with () (c\<lparr> continuationStreamID := streamID (heap c ! r), headerBuffer := promise_Block pp \<rparr>))"

definition handle_on_stream :: "FrameBody \<Rightarrow> nat \<Rightarrow> unit conn_action" where
  "handle_on_stream body r c =
     (case body of
        Continuation block \<Rightarrow> handle_continuation r block c
      | Priority _ \<Rightarrow> done_with () c
      | WindowUpdate w \<Rightarrow>
          done_with () (notifyWindowUpdate r
            (upd_stream r (\<lambda>s. s\<lparr> s_peerWindow := window_Update (uint (number31 w)) (s_peerWindow s) \<rparr>) c))
      | RstStream cd \<Rightarrow> handle_rst r cd c
      | _ \<Rightarrow>
          if st (heap c ! r) = Close then fail FrameOnClosedStream c
          else if st (heap c ! r) = Idle \<and> Type (header c) \<noteq> H2Type_HEADERS then fail ExpectedHeaders c
          else
            (case body of
               Headers h \<Rightarrow> handle_headers r (headers_Block h) c
             | Data d \<Rightarrow> handle_data r (data_Data d) c
             | PushPromise pp \<Rightarrow> handle_push_promise pp c
             | _ \<Rightarrow>
                 if Type (header c) = H2Type_PING \<or> Type (header c) = H2Type_SETTINGS \<or>
                    Type (header c) = H2Type_GOAWAY
                 then fail UnexpectedConnectionFrame c else done_with () c))"

definition handleStreamLevelFrame :: "FrameBody \<Rightarrow> unit conn_action" where
  "handleStreamLevelFrame body c =
     and_then (find_or_open c) (\<lambda>stream c.
       case stream of
         None \<Rightarrow> done_with () c
       | Some r \<Rightarrow> and_then (continuation_check c) (\<lambda>_. handle_on_stream body r))"

definition handleBody :: "FrameBody \<Rightarrow> unit conn_action" where
  "handleBody body c =
     (if StreamId (header c) = 0 then handleConnectionLevelFrame body c else handleStreamLevelFrame body c)"

section \<open>The user's side\<close>

definition headers_allowed :: "nat \<Rightarrow> Conn \<Rightarrow> bool" where
  "headers_allowed r c \<longleftrightarrow> st (heap c ! r) \<in> {Idle, Open, HalfClosedRemote}"

text \<open>What the deferred function of the two header writers does when there is no error.\<close>

definition open_idle :: "nat \<Rightarrow> unit conn_action" where
  "open_idle r c = done_with () (if st (heap c ! r) = Idle then setState r Open c else c)"

definition WriteHeaderOrdered :: "nat \<Rightarrow> KeyValue list \<Rightarrow> AppendStringMode \<Rightarrow> unit conn_action" where
  "WriteHeaderOrdered r hdr mode c =
     (if \<not> headers_allowed r c then fail StreamNotWritable c
      else and_then (writeHeader (streamID (heap c ! r)) (map (\<lambda>kv. (kv, mode)) hdr) c) (\<lambda>_. open_idle r))"

definition isPseudo :: "u8 list \<Rightarrow> bool" where
  "isPseudo k \<longleftrightarrow> HasPrefix k (bytes '':'')"

definition emitWhere :: "(u8 list \<Rightarrow> bool) \<Rightarrow> http_header \<Rightarrow> (KeyValue \<times> AppendStringMode) list" where
  "emitWhere keep order =
     concat (map (\<lambda>(k, vs). map (\<lambda>v. (\<lparr> Key = k, Value = v \<rparr>, BestEffort)) vs) (filter (\<lambda>(k, vs). keep k) order))"

text \<open>Ranging over the map \<open>hdr\<close> visits its entries in any order; \<open>order1\<close> and \<open>order2\<close> are those of the two loops.\<close>

definition WriteHeader :: "http_header \<Rightarrow> http_header \<Rightarrow> nat \<Rightarrow> http_header \<Rightarrow> unit conn_action" where
  "WriteHeader order1 order2 r hdr c =
     (if \<not> headers_allowed r c then fail StreamNotWritable c
      else
        let c = upd_stream r (\<lambda>s. s\<lparr> sentHeader := hdr \<rparr>) c in
        and_then (writeHeader (streamID (heap c ! r))
            (emitWhere isPseudo order1 @ emitWhere (\<lambda>k. \<not> isPseudo k) order2) c)
          (\<lambda>_. open_idle r))"

definition data_allowed :: "nat \<Rightarrow> Conn \<Rightarrow> bool" where
  "data_allowed r c \<longleftrightarrow> st (heap c ! r) \<in> {Open, HalfClosedRemote}"

definition WriteNonBlocking :: "nat \<Rightarrow> u8 list \<Rightarrow> nat conn_action" where
  "WriteNonBlocking r p c =
     (if \<not> data_allowed r c then fail (StreamNotOpen (st (heap c ! r))) c
      else and_then (writeData (streamID (heap c ! r)) r p False c) (\<lambda>(n, _). done_with n))"

text \<open>
  \<open>Write\<close> from one wait to the next: how many bytes are written, and whether it waits for a window
  or is done. The number comes with an error too. A frame of no bytes for the reason of the frame
  size would repeat for ever; the fuel is the number of bytes and one.
\<close>

fun Write_round :: "nat \<Rightarrow> nat \<Rightarrow> u8 list \<Rightarrow> nat \<Rightarrow> Conn \<Rightarrow> ((conn_error, unit attempt) outcome \<times> nat \<times> Conn) option" where
  "Write_round 0 r p n c = None"
| "Write_round (Suc fuel) r p n c =
     (if \<not> n < length p then Some (Ok (Done ()), n, c)
      else if \<not> data_allowed r c then Some (Err (StreamNotOpen (st (heap c ! r))), n, c)
      else case writeData (streamID (heap c ! r)) r (drop n p) False c of
        (Panic, c) \<Rightarrow> Some (Panic, n, c)
      | (Err e, c) \<Rightarrow> Some (Err e, n, c)
      | (Ok (m, blocking), c) \<Rightarrow>
          if blocking \<noteq> blockingReasonMaxFrameSize then Some (Ok Wait, n + m, c)
          else Write_round fuel r p (n + m) c)"

definition Close_stream :: "nat \<Rightarrow> unit conn_action" where
  "Close_stream r c =
     (if \<not> data_allowed r c then done_with () c
      else and_then (writeData (streamID (heap c ! r)) r [] True c) (\<lambda>_ c.
        case st (heap c ! r) of
          Open \<Rightarrow> done_with () (setState r HalfClosedLocal c)
        | HalfClosedRemote \<Rightarrow> done_with () (setState r Close c)
        | _ \<Rightarrow> done_with () c))"

definition PeekPeerData :: "nat \<Rightarrow> Conn \<Rightarrow> u8 list" where
  "PeekPeerData r c = streamData (heap c ! r)"

definition TakePeerDataNonBlocking :: "nat \<Rightarrow> Conn \<Rightarrow> u8 list \<times> Conn" where
  "TakePeerDataNonBlocking r c = (streamData (heap c ! r), upd_stream r (\<lambda>s. s\<lparr> streamData := [] \<rparr>) c)"

definition peer_done :: "nat \<Rightarrow> Conn \<Rightarrow> bool" where
  "peer_done r c \<longleftrightarrow> st (heap c ! r) \<in> {Close, HalfClosedRemote}"

text \<open>The data, \<open>None\<close> for \<open>io.EOF\<close>.\<close>

definition TakePeerData :: "nat \<Rightarrow> Conn \<Rightarrow> u8 list option attempt \<times> Conn" where
  "TakePeerData r c =
     (if streamData (heap c ! r) = [] then (if peer_done r c then (Done None, c) else (Wait, c))
      else (Done (Some (streamData (heap c ! r))), upd_stream r (\<lambda>s. s\<lparr> streamData := [] \<rparr>) c))"

text \<open>
  One critical section of \<open>Read\<close> with \<open>p\<close> of \<open>k\<close> bytes: the bytes copied and whether the end of the
  stream was met. All of the data there is is copied at once, so the loop runs at most twice.
\<close>

definition Read :: "nat \<Rightarrow> nat \<Rightarrow> Conn \<Rightarrow> (u8 list \<times> bool) attempt \<times> Conn" where
  "Read r k c =
     (if k = 0 then (Done ([], False), c)
      else if streamData (heap c ! r) = [] then (if peer_done r c then (Done ([], True), c) else (Wait, c))
      else
        let got = take k (streamData (heap c ! r));
            c = upd_stream r (\<lambda>s. s\<lparr> streamData := drop k (streamData s) \<rparr>) c
        in (Done (got, length got < k \<and> peer_done r c), c))"

definition PeerHeader :: "nat \<Rightarrow> Conn \<Rightarrow> http_header option" where
  "PeerHeader r c = receivedHeader (heap c ! r)"

definition CONNECTION_PREFACE :: "u8 list" where
  "CONNECTION_PREFACE = bytes ''PRI * HTTP/2.0'' @ [13, 10, 13, 10] @ bytes ''SM'' @ [13, 10, 13, 10]"

lemma CONNECTION_PREFACE_code [code]:
  "CONNECTION_PREFACE = [80, 82, 73, 32, 42, 32, 72, 84, 84, 80, 47, 50, 46, 48, 13, 10, 13, 10, 83, 77, 13, 10, 13, 10]"
  by (simp add: CONNECTION_PREFACE_def bytes_def)

definition NewHTTP2Conn :: "bool \<Rightarrow> Conn" where
  "NewHTTP2Conn client =
     \<lparr> heap = [], streams = [], encHpack = newHPacker (ucast (TableSize defaultSettings)),
       decHpack = Some (NewTable (ucast (TableSize defaultSettings))), writeBuffer = [], writeCh = False,
       headerBuffer = [], localSettings = defaultSettings,
       updatingSettings = \<lparr> TableSize = 0, EnablePush = False, MaxConcurrentStreams = 0, InitialWindowSize = 0,
         MaxFrameSize = 0, MaxHeaderListSize = 0 \<rparr>,
       peerSettings = defaultSettings, header = zero_header, c_localWindow = 0, c_peerWindow = 0,
       continuationStreamID = 0, nextStreamID = 0, maxReceivedStreamID = 0, isClient = client, state = WaitHeader,
       waitingSettingsAck = False, activeStreams = 0, acceptQueue = [], acceptCh = False, readBuffer = [] \<rparr>"

definition Start_conn :: "unit conn_action" where
  "Start_conn c =
     (let c = c\<lparr> c_localWindow := window_Update (uint (InitialWindowSize (localSettings c))) (c_localWindow c) \<rparr>;
          c = c\<lparr> c_peerWindow := window_Update (uint (InitialWindowSize (peerSettings c))) (c_peerWindow c) \<rparr>;
          c = (if isClient c then (write_raw CONNECTION_PREFACE c)\<lparr> nextStreamID := 1 \<rparr>
               else c\<lparr> nextStreamID := 2, state := WaitPreface \<rparr>);
          enablePush = (if EnablePush (localSettings c) then 1 else 0)
      in
      and_then (updateSettings
          [\<lparr> Id = SettingsID_HEADER_TABLE_SIZE, SettingValue = TableSize (localSettings c) \<rparr>,
           \<lparr> Id = SettingsID_ENABLE_PUSH, SettingValue = enablePush \<rparr>,
           \<lparr> Id = SettingsID_INITIAL_WINDOW_SIZE, SettingValue = InitialWindowSize (localSettings c) \<rparr>,
           \<lparr> Id = SettingsID_MAX_FRAME_SIZE, SettingValue = MaxFrameSize (localSettings c) \<rparr>] c)
        (\<lambda>_ c. done_with () (notifyWritable c)))"

definition EncodeNonBlock :: "u8 list conn_action" where
  "EncodeNonBlock c =
     (if state c = GoneAway then fail GoneAwayError c
      else done_with (writeBuffer c) (c\<lparr> writeBuffer := [] \<rparr>))"

definition Encode :: "u8 list attempt conn_action" where
  "Encode c =
     (if state c = GoneAway then fail GoneAwayError c
      else if writeBuffer c \<noteq> [] then done_with (Done (writeBuffer c)) (c\<lparr> writeBuffer := [] \<rparr>)
      else done_with Wait c)"

end
