(* ===== verification/Http2_Decode.thy ===== *)
theory Http2_Decode
  imports Http2_Conn
begin

text \<open>
  \<open>Decode\<close> of \<open>http2_conn.go\<close>: the loop that cuts the input into frames, over the read buffer of
  \<open>protobuf/wire/zerocopy/zerocopy.go\<close>. The handlers neither read nor change the read buffer, which
  the loop ends for and which makes it independent of how the input is cut into calls
  (\<open>Http2_Decode_Laws\<close>).
\<close>

section \<open>The handlers, the read buffer and the write signal\<close>

named_theorems unbuffered \<open>an operation commutes with replacing the read buffer and the write signal\<close>

abbreviation with_buffer :: "u8 list \<Rightarrow> bool \<Rightarrow> Conn \<Rightarrow> Conn" where
  "with_buffer b w c \<equiv> c\<lparr> writeCh := w, readBuffer := b \<rparr>"

lemma and_then_unbuffered:
  assumes "m' = apsnd (with_buffer b w) m" "\<And>a c. f a (with_buffer b w c) = apsnd (with_buffer b w) (f a c)"
  shows "and_then m' f = apsnd (with_buffer b w) (and_then m f)"
proof -
  obtain r c where m: "m = (r, c)" by (cases m)
  show ?thesis using assms by (cases r) (simp_all add: m)
qed

lemma swap_unbuffered [unbuffered]:
  "heap_update f1 (readBuffer_update g c) = readBuffer_update g (heap_update f1 c)"
  "heap_update f1 (writeCh_update h c) = writeCh_update h (heap_update f1 c)"
  "streams_update f2 (readBuffer_update g c) = readBuffer_update g (streams_update f2 c)"
  "streams_update f2 (writeCh_update h c) = writeCh_update h (streams_update f2 c)"
  "encHpack_update f3 (readBuffer_update g c) = readBuffer_update g (encHpack_update f3 c)"
  "encHpack_update f3 (writeCh_update h c) = writeCh_update h (encHpack_update f3 c)"
  "decHpack_update f4 (readBuffer_update g c) = readBuffer_update g (decHpack_update f4 c)"
  "decHpack_update f4 (writeCh_update h c) = writeCh_update h (decHpack_update f4 c)"
  "writeBuffer_update f5 (readBuffer_update g c) = readBuffer_update g (writeBuffer_update f5 c)"
  "writeBuffer_update f5 (writeCh_update h c) = writeCh_update h (writeBuffer_update f5 c)"
  "headerBuffer_update f7 (readBuffer_update g c) = readBuffer_update g (headerBuffer_update f7 c)"
  "headerBuffer_update f7 (writeCh_update h c) = writeCh_update h (headerBuffer_update f7 c)"
  "localSettings_update f8 (readBuffer_update g c) = readBuffer_update g (localSettings_update f8 c)"
  "localSettings_update f8 (writeCh_update h c) = writeCh_update h (localSettings_update f8 c)"
  "updatingSettings_update f9 (readBuffer_update g c) = readBuffer_update g (updatingSettings_update f9 c)"
  "updatingSettings_update f9 (writeCh_update h c) = writeCh_update h (updatingSettings_update f9 c)"
  "peerSettings_update f10 (readBuffer_update g c) = readBuffer_update g (peerSettings_update f10 c)"
  "peerSettings_update f10 (writeCh_update h c) = writeCh_update h (peerSettings_update f10 c)"
  "header_update f11 (readBuffer_update g c) = readBuffer_update g (header_update f11 c)"
  "header_update f11 (writeCh_update h c) = writeCh_update h (header_update f11 c)"
  "c_localWindow_update f12 (readBuffer_update g c) = readBuffer_update g (c_localWindow_update f12 c)"
  "c_localWindow_update f12 (writeCh_update h c) = writeCh_update h (c_localWindow_update f12 c)"
  "c_peerWindow_update f13 (readBuffer_update g c) = readBuffer_update g (c_peerWindow_update f13 c)"
  "c_peerWindow_update f13 (writeCh_update h c) = writeCh_update h (c_peerWindow_update f13 c)"
  "continuationStreamID_update f14 (readBuffer_update g c) = readBuffer_update g (continuationStreamID_update f14 c)"
  "continuationStreamID_update f14 (writeCh_update h c) = writeCh_update h (continuationStreamID_update f14 c)"
  "nextStreamID_update f15 (readBuffer_update g c) = readBuffer_update g (nextStreamID_update f15 c)"
  "nextStreamID_update f15 (writeCh_update h c) = writeCh_update h (nextStreamID_update f15 c)"
  "maxReceivedStreamID_update f16 (readBuffer_update g c) = readBuffer_update g (maxReceivedStreamID_update f16 c)"
  "maxReceivedStreamID_update f16 (writeCh_update h c) = writeCh_update h (maxReceivedStreamID_update f16 c)"
  "isClient_update f17 (readBuffer_update g c) = readBuffer_update g (isClient_update f17 c)"
  "isClient_update f17 (writeCh_update h c) = writeCh_update h (isClient_update f17 c)"
  "state_update f18 (readBuffer_update g c) = readBuffer_update g (state_update f18 c)"
  "state_update f18 (writeCh_update h c) = writeCh_update h (state_update f18 c)"
  "waitingSettingsAck_update f19 (readBuffer_update g c) = readBuffer_update g (waitingSettingsAck_update f19 c)"
  "waitingSettingsAck_update f19 (writeCh_update h c) = writeCh_update h (waitingSettingsAck_update f19 c)"
  "activeStreams_update f20 (readBuffer_update g c) = readBuffer_update g (activeStreams_update f20 c)"
  "activeStreams_update f20 (writeCh_update h c) = writeCh_update h (activeStreams_update f20 c)"
  "acceptQueue_update f21 (readBuffer_update g c) = readBuffer_update g (acceptQueue_update f21 c)"
  "acceptQueue_update f21 (writeCh_update h c) = writeCh_update h (acceptQueue_update f21 c)"
  "acceptCh_update f22 (readBuffer_update g c) = readBuffer_update g (acceptCh_update f22 c)"
  "acceptCh_update f22 (writeCh_update h c) = writeCh_update h (acceptCh_update f22 c)"
  by simp_all

lemma upd_stream_unbuffered [unbuffered]:
  "upd_stream r f (with_buffer b w c) = with_buffer b w (upd_stream r f c)"
  by (simp add: upd_stream_def)

lemma notify_unbuffered [unbuffered]:
  "notifyRead r (with_buffer b w c) = with_buffer b w (notifyRead r c)"
  "notifyWindowUpdate r (with_buffer b w c) = with_buffer b w (notifyWindowUpdate r c)"
  by (simp_all add: notifyRead_def notifyWindowUpdate_def unbuffered)

lemma setState_unbuffered [unbuffered]: "setState r s (with_buffer b w c) = with_buffer b w (setState r s c)"
  by (simp add: setState_def Let_def unbuffered)

lemma fold_unbuffered:
  assumes "\<And>x c. f x (with_buffer b w c) = with_buffer b w (f x c)"
  shows "fold f xs (with_buffer b w c) = with_buffer b w (fold f xs c)"
  using assms by (induction xs arbitrary: c) simp_all

lemma close_all_unbuffered [unbuffered]: "close_all (with_buffer b w c) = with_buffer b w (close_all c)"
  unfolding close_all_def by (subst fold_unbuffered) (auto simp: unbuffered)

lemma newHTTP2Stream_unbuffered [unbuffered]:
  "newHTTP2Stream sid s (with_buffer b w c) = apsnd (with_buffer b w) (newHTTP2Stream sid s c)"
  by (simp add: newHTTP2Stream_def Let_def isThisSideInitiated_def)

lemma must_append_unbuffered [unbuffered]:
  "must_append app (with_buffer b w c) = apsnd (with_buffer b w) (must_append app c)"
  by (simp add: must_append_def split: outcome.splits)

lemma prepaereHeader_unbuffered [unbuffered]:
  "prepaereHeader sid ty n flags (with_buffer b w c) = prepaereHeader sid ty n flags c"
  by (simp add: prepaereHeader_def maxFrameSize_def)

lemma write_raw_unbuffered [unbuffered]: "write_raw bs (with_buffer b w c) = with_buffer b w (write_raw bs c)"
  by (simp add: write_raw_def)

lemma writeWindowUpdate_unbuffered [unbuffered]:
  "writeWindowUpdate sid n (with_buffer b w c) = apsnd (with_buffer b w) (writeWindowUpdate sid n c)"
  by (simp add: writeWindowUpdate_def unbuffered split: outcome.splits prod.splits)

lemma header_unbuffered [unbuffered]:
  "set_header_flags f (with_buffer b w c) = with_buffer b w (set_header_flags f c)"
  "must_append_header (with_buffer b w c) = apsnd (with_buffer b w) (must_append_header c)"
  by (simp_all add: set_header_flags_def must_append_header_def unbuffered)

lemma update_stream_windows_unbuffered [unbuffered]:
  "update_stream_windows d (with_buffer b w c) = with_buffer b w (update_stream_windows d c)"
  unfolding update_stream_windows_def by (simp add: fold_unbuffered case_prod_unfold unbuffered)

lemma handle_settings_unbuffered [unbuffered]:
  "handle_settings ss (with_buffer b w c) = apsnd (with_buffer b w) (handle_settings ss c)"
  by (simp add: handle_settings_def Let_def fail_def done_with_def unbuffered split: prod.splits)

lemma handleConnectionLevelFrame_unbuffered [unbuffered]:
  "handleConnectionLevelFrame body (with_buffer b w c) = apsnd (with_buffer b w) (handleConnectionLevelFrame body c)"
proof (cases body)
  case (Ping p)
  then show ?thesis
    by (auto simp: handleConnectionLevelFrame_def Let_def fail_def done_with_def unbuffered intro!: and_then_unbuffered)
next
  case (WindowUpdate w)
  then show ?thesis
    by (simp add: handleConnectionLevelFrame_def Let_def done_with_def unbuffered fold_unbuffered case_prod_unfold)
qed (simp_all add: handleConnectionLevelFrame_def Let_def fail_def done_with_def unbuffered)

lemma handleHpackDecode_unbuffered [unbuffered]:
  "handleHpackDecode r block (with_buffer b w c) = apsnd (with_buffer b w) (handleHpackDecode r block c)"
  by (simp add: handleHpackDecode_def Let_def unbuffered split: prod.splits)

lemma maySendWindowUpdate_unbuffered [unbuffered]:
  "maySendWindowUpdate r (with_buffer b w c) = apsnd (with_buffer b w) (maySendWindowUpdate r c)"
proof -
  have rep: "replenish sid avail upd (with_buffer b w c) = apsnd (with_buffer b w) (replenish sid avail upd c)"
    if "\<And>i c. upd i (with_buffer b w c) = with_buffer b w (upd i c)" for sid avail upd c
    using that by (simp add: replenish_def Let_def unbuffered split: prod.splits outcome.splits)
  show ?thesis
    unfolding maySendWindowUpdate_def
    by (rule and_then_unbuffered)
      (auto simp: rep unbuffered done_with_def intro!: and_then_unbuffered)
qed

lemma find_or_open_unbuffered [unbuffered]:
  "find_or_open (with_buffer b w c) = apsnd (with_buffer b w) (find_or_open c)"
  by (cases "newHTTP2Stream (StreamId (header c)) Idle c")
    (simp add: find_or_open_def Let_def fail_def done_with_def isThisSideInitiated_def unbuffered split: option.splits)

lemma handle_on_stream_unbuffered [unbuffered]:
  "handle_on_stream body r (with_buffer b w c) = apsnd (with_buffer b w) (handle_on_stream body r c)"
proof -
  have close: "mayHandleClose r (with_buffer b w c) = with_buffer b w (mayHandleClose r c)" for c
    by (simp add: mayHandleClose_def Let_def isThisSideInitiated_def unbuffered split: H2StreamState.splits)
  have cont: "handle_continuation r block (with_buffer b w c) = apsnd (with_buffer b w) (handle_continuation r block c)" for block
    by (cases "handleHpackDecode r (headerBuffer c @ block)
          (c\<lparr> headerBuffer := headerBuffer c @ block, continuationStreamID := 0 \<rparr>)")
      (simp add: handle_continuation_def Let_def fail_def done_with_def unbuffered split: outcome.splits)
  have rst: "handle_rst r cd (with_buffer b w c) = apsnd (with_buffer b w) (handle_rst r cd c)" for cd
    by (simp add: handle_rst_def Let_def done_with_def isThisSideInitiated_def unbuffered)
  have hs: "handle_headers r block (with_buffer b w c) = apsnd (with_buffer b w) (handle_headers r block c)" for block
    by (simp add: handle_headers_def Let_def done_with_def unbuffered close)
  have dt: "handle_data r bs (with_buffer b w c) = apsnd (with_buffer b w) (handle_data r bs c)" for bs
    by (simp add: handle_data_def Let_def fail_def unbuffered close split: option.splits)
  have pp: "handle_push_promise p (with_buffer b w c) = apsnd (with_buffer b w) (handle_push_promise p c)" for p
    by (cases "newHTTP2Stream (number31 (promised_id p)) ReservedRemote (c\<lparr> maxReceivedStreamID := number31 (promised_id p) \<rparr>)")
      (simp add: handle_push_promise_def Let_def fail_def done_with_def unbuffered)
  show ?thesis
    by (cases body) (simp_all add: handle_on_stream_def fail_def done_with_def cont rst hs dt pp unbuffered)
qed

theorem handleBody_unbuffered:
  "handleBody body (with_buffer b w c) = apsnd (with_buffer b w) (handleBody body c)"
  unfolding handleBody_def handleStreamLevelFrame_def
  by (auto simp: unbuffered fail_def done_with_def continuation_check_def split: option.splits
      intro!: and_then_unbuffered)

section \<open>The handlers and the parse state\<close>

named_theorems keeps_state \<open>an operation leaves the parse state alone\<close>

lemma upd_stream_state [keeps_state]: "state (upd_stream r f c) = state c"
  by (simp add: upd_stream_def)

lemma notify_state [keeps_state]:
  "state (notifyRead r c) = state c" "state (notifyWindowUpdate r c) = state c" "state (notifyWritable c) = state c"
  by (simp_all add: notifyRead_def notifyWindowUpdate_def notifyWritable_def keeps_state)

lemma setState_state [keeps_state]: "state (setState r s c) = state c"
  by (simp add: setState_def Let_def keeps_state)

lemma fold_state: "(\<And>x c. state (f x c) = state c) \<Longrightarrow> state (fold f xs c) = state c"
  by (induction xs arbitrary: c) simp_all

lemma folds_state [keeps_state]:
  "state (close_all c) = state c" "state (update_stream_windows d c) = state c"
  "state (fold (\<lambda>(sid, r). notifyWindowUpdate r) xs c) = state c"
  unfolding close_all_def update_stream_windows_def by (rule fold_state, simp add: case_prod_unfold keeps_state)+

lemma newHTTP2Stream_state [keeps_state]: "state (snd (newHTTP2Stream sid s c)) = state c"
  by (simp add: newHTTP2Stream_def Let_def)

lemma and_then_state:
  assumes "state (snd m) = s" "\<And>a c. state c = s \<Longrightarrow> state (snd (f a c)) = s"
  shows "state (snd (and_then m f)) = s"
  using assms by (cases m; cases "fst m") auto

lemma writes_state [keeps_state]:
  "state (snd (must_append app c)) = state c" "state (write_raw bs c) = state c"
  "state (snd (writeWindowUpdate sid n c)) = state c"
  "state (set_header_flags f c) = state c" "state (snd (must_append_header c)) = state c"
proof -
  show m: "state (snd (must_append app c)) = state c" for app c by (simp add: must_append_def split: outcome.splits)
  show "state (write_raw bs c) = state c" "state (set_header_flags f c) = state c"
    by (simp_all add: write_raw_def set_header_flags_def)
  show "state (snd (writeWindowUpdate sid n c)) = state c" "state (snd (must_append_header c)) = state c"
    by (simp_all add: writeWindowUpdate_def must_append_header_def m write_raw_def split: outcome.splits prod.splits)
qed

lemma handle_settings_state [keeps_state]: "state (snd (handle_settings ss c)) = state c"
  by (simp add: handle_settings_def Let_def fail_def done_with_def keeps_state split: prod.splits)

lemma handleHpackDecode_state [keeps_state]: "state (snd (handleHpackDecode r block c)) = state c"
  by (simp add: handleHpackDecode_def Let_def keeps_state split: prod.splits)

lemma replenish_state [keeps_state]:
  "(\<And>i c. state (upd i c) = state c) \<Longrightarrow> state (snd (replenish sid avail upd c)) = state c"
  using writes_state(3) [of sid "word_of_int (uint (InitialWindowSize (localSettings c)) - avail)" c]
  by (auto simp: replenish_def Let_def split: prod.splits outcome.splits)

lemma maySendWindowUpdate_state [keeps_state]: "state (snd (maySendWindowUpdate r c)) = state c"
  unfolding maySendWindowUpdate_def
  by (intro and_then_state) (auto simp: keeps_state done_with_def intro!: and_then_state)

lemma find_or_open_state [keeps_state]: "state (snd (find_or_open c)) = state c"
  using newHTTP2Stream_state [of "StreamId (header c)" Idle c]
  by (cases "newHTTP2Stream (StreamId (header c)) Idle c")
    (auto simp: find_or_open_def Let_def fail_def done_with_def keeps_state split: option.splits)

lemma handle_on_stream_state [keeps_state]: "state (snd (handle_on_stream body r c)) = state c"
proof -
  have close: "state (mayHandleClose r c) = state c" for c
    by (simp add: mayHandleClose_def Let_def keeps_state split: H2StreamState.splits)
  have cont: "state (snd (handle_continuation r block c)) = state c" for block
    using handleHpackDecode_state [of r "headerBuffer c @ block" "c\<lparr> headerBuffer := headerBuffer c @ block, continuationStreamID := 0 \<rparr>"]
    by (cases "handleHpackDecode r (headerBuffer c @ block) (c\<lparr> headerBuffer := headerBuffer c @ block, continuationStreamID := 0 \<rparr>)")
      (auto simp: handle_continuation_def Let_def fail_def done_with_def keeps_state split: outcome.splits)
  have rst: "state (snd (handle_rst r cd c)) = state c" for cd
    by (simp add: handle_rst_def Let_def done_with_def keeps_state)
  have hs: "state (snd (handle_headers r block c)) = state c" for block
    by (simp add: handle_headers_def Let_def done_with_def keeps_state close)
  have dt: "state (snd (handle_data r bs c)) = state c" for bs
    by (simp add: handle_data_def Let_def fail_def keeps_state close split: option.splits)
  have pp: "state (snd (handle_push_promise p c)) = state c" for p
    using newHTTP2Stream_state [of "number31 (promised_id p)" ReservedRemote "c\<lparr> maxReceivedStreamID := number31 (promised_id p) \<rparr>"]
    by (cases "newHTTP2Stream (number31 (promised_id p)) ReservedRemote (c\<lparr> maxReceivedStreamID := number31 (promised_id p) \<rparr>)")
      (auto simp: handle_push_promise_def Let_def fail_def done_with_def keeps_state)
  show ?thesis
    by (cases body) (simp_all add: handle_on_stream_def fail_def done_with_def cont rst hs dt pp keeps_state)
qed

text \<open>A frame changes the parse state only to \<open>GoneAway\<close>.\<close>

theorem handleBody_state: "state (snd (handleBody body c)) \<in> {state c, GoneAway}"
proof -
  have "state (snd (handleConnectionLevelFrame body c)) \<in> {state c, GoneAway}"
    by (cases body) (auto simp: handleConnectionLevelFrame_def Let_def fail_def done_with_def keeps_state intro!: and_then_state)
  moreover have "state (snd (handleStreamLevelFrame body c)) = state c"
    unfolding handleStreamLevelFrame_def
    by (intro and_then_state)
      (auto simp: keeps_state fail_def done_with_def continuation_check_def split: option.splits intro!: and_then_state)
  ultimately show ?thesis by (simp add: handleBody_def)
qed

section \<open>The loop\<close>

text \<open>
  A slice is nil (\<open>None\<close>) or not, which the callers of the buffer tell apart: \<open>nil[:0]\<close> is nil. The
  result is the bytes asked for, with what is left of the buffer and of the input.
\<close>

definition slice_bytes :: "u8 list option \<Rightarrow> u8 list" where
  "slice_bytes p = (case p of Some b \<Rightarrow> b | None \<Rightarrow> [])"

definition TryGetRequestedSizeBuffer ::
    "u8 list \<Rightarrow> u8 list option \<Rightarrow> nat \<Rightarrow> u8 list option \<times> u8 list \<times> u8 list option" where
  "TryGetRequestedSizeBuffer buffer p n =
     (if length buffer = 0 then
        (if n > length (slice_bytes p) then (None, buffer @ slice_bytes p, None)
         else (map_option (take n) p, buffer, map_option (drop n) p))
      else
        let buffer = buffer @ slice_bytes p in
        if length buffer < n then (None, buffer, None)
        else (Some (take n buffer), drop n buffer, None))"

definition pending :: "Conn \<Rightarrow> u8 list option \<Rightarrow> nat" where
  "pending c p = 2 * (length (readBuffer c) + length (slice_bytes p)) + (if state c = HeaderRead then 1 else 0)"

lemma TryGet_length:
  assumes "TryGetRequestedSizeBuffer buffer p n = (Some b, buffer', p')"
  shows "length buffer' + length (slice_bytes p') + n = length buffer + length (slice_bytes p)" "length b = n"
  using assms by (auto simp: TryGetRequestedSizeBuffer_def slice_bytes_def Let_def split: if_splits option.splits)

lemma handleBody_readBuffer: "readBuffer (snd (handleBody body c)) = readBuffer c"
proof -
  have "handleBody body c = apsnd (with_buffer (readBuffer c) (writeCh c)) (handleBody body c)"
    using handleBody_unbuffered [of body "readBuffer c" "writeCh c" c] by simp
  then have "readBuffer (snd (handleBody body c)) = readBuffer (snd (apsnd (with_buffer (readBuffer c) (writeCh c)) (handleBody body c)))"
    by (rule arg_cong)
  then show ?thesis by simp
qed

lemma handleBody_keeps:
  assumes "handleBody body c = (res, c')"
  shows "readBuffer c' = readBuffer c \<and> (state c' = state c \<or> state c' = GoneAway)"
  using handleBody_readBuffer [of body c] handleBody_state [of body c] assms by auto

lemma length_CONNECTION_PREFACE [simp]: "length CONNECTION_PREFACE = 24"
  by (simp add: CONNECTION_PREFACE_def bytes_def)

text \<open>
  The cases of the source fall through to the next one after they have set the state, which is what
  another round of the loop does.
\<close>

function conn_decode_loop :: "Conn \<Rightarrow> u8 list option \<Rightarrow> (conn_error, unit) outcome \<times> Conn" where
  "conn_decode_loop c p =
     (case state c of
        WaitPreface \<Rightarrow>
          (case TryGetRequestedSizeBuffer (readBuffer c) p (length CONNECTION_PREFACE) of
             (None, b, p) \<Rightarrow> (Ok (), c\<lparr> readBuffer := b \<rparr>)
           | (Some buffer, b, p) \<Rightarrow>
               let c = c\<lparr> readBuffer := b \<rparr> in
               if buffer \<noteq> CONNECTION_PREFACE then (Err InvalidPreface, c)
               else conn_decode_loop (c\<lparr> state := WaitHeader \<rparr>) p)
      | WaitHeader \<Rightarrow>
          (case TryGetRequestedSizeBuffer (readBuffer c) p 9 of
             (None, b, p) \<Rightarrow> (Ok (), c\<lparr> readBuffer := b \<rparr>)
           | (Some buffer, b, p) \<Rightarrow>
               let c = c\<lparr> readBuffer := b \<rparr> in
               case FrameHeader_DecodeExact (header c) buffer of
                 Panic \<Rightarrow> (Panic, c)
               | Err e \<Rightarrow> (Err (FrameErr e), c)
               | Ok h \<Rightarrow> conn_decode_loop (c\<lparr> header := h, state := HeaderRead \<rparr>) p)
      | HeaderRead \<Rightarrow>
          (case TryGetRequestedSizeBuffer (readBuffer c) p (unat (Len (header c))) of
             (None, b, p) \<Rightarrow> (Ok (), c\<lparr> readBuffer := b \<rparr>)
           | (Some buffer, b, p) \<Rightarrow>
               let c = c\<lparr> readBuffer := b \<rparr> in
               case FrameBody_DecodeExact (header c) buffer of
                 Panic \<Rightarrow> (Panic, c)
               | Err e \<Rightarrow> (Err (FrameErr e), c)
               | Ok body \<Rightarrow>
                   (case handleBody body c of
                      (Ok _, c) \<Rightarrow> conn_decode_loop (if state c = HeaderRead then c\<lparr> state := WaitHeader \<rparr> else c) p
                    | (Err e, c) \<Rightarrow> (Err e, c)
                    | (Panic, c) \<Rightarrow> (Panic, c)))
      | GoneAway \<Rightarrow>
          if length (readBuffer c) \<noteq> 0 \<or> length (slice_bytes p) \<noteq> 0 then (Err DataAfterGoaway, c) else (Ok (), c))"
  by pat_completeness auto

termination
  by (relation "measure (\<lambda>(c, p). pending c p)")
    (auto simp: pending_def dest!: TryGet_length(1) [OF sym] handleBody_keeps [OF sym])

declare conn_decode_loop.simps [simp del]

definition Decode :: "u8 list option \<Rightarrow> unit conn_action" where
  "Decode p c =
     (let (res, c) = conn_decode_loop c p in
      case res of
        Err e \<Rightarrow> (Err e, c\<lparr> state := GoneAway \<rparr>)
      | _ \<Rightarrow> (res, if length (writeBuffer c) > 0 then notifyWritable c else c))"

end
