(* ===== verification/Http2_Conn_Laws.thy ===== *)
theory Http2_Conn_Laws
  imports Http2_Decode Http2_Frame_Laws
begin

text \<open>
  What holds of a connection whatever its peer sends and its user does: the routing table names live
  streams under their own number, and a stream only ever moves forward through the states of
  RFC 9113. A property of the connection that the handlers keep is kept by \<open>Decode\<close>: that is proved
  once, in the locale \<open>kept_by_frames\<close>, and the two properties are its interpretations.
\<close>

section \<open>Properties that the frame handlers keep\<close>

locale kept_by_frames =
  fixes I :: "Conn \<Rightarrow> bool"
  assumes kept_input: "I c \<Longrightarrow> I (c\<lparr> readBuffer := b \<rparr>)" "I c \<Longrightarrow> I (c\<lparr> state := s \<rparr>)"
      "I c \<Longrightarrow> I (c\<lparr> header := h \<rparr>)" "I c \<Longrightarrow> I (c\<lparr> writeCh := w \<rparr>)"
    and kept_body: "\<lbrakk> I c; body_ok (header c) body; handleBody body c = (r, c'); r \<noteq> Panic \<rbrakk> \<Longrightarrow> I c'"
begin

lemma decode_loop_keeps: "\<lbrakk> I c; conn_decode_loop c p = (r, c'); r \<noteq> Panic \<rbrakk> \<Longrightarrow> I c'"
proof (induction c p arbitrary: r c' rule: conn_decode_loop.induct)
  case (1 c p)
  note eq = 1(5) [unfolded conn_decode_loop.simps [of c p]]
  show ?case
  proof (cases "state c")
    case WaitPreface
    show ?thesis
    proof (cases "TryGetRequestedSizeBuffer (readBuffer c) p (length CONNECTION_PREFACE)")
      case (fields o1 b p1)
      show ?thesis
      proof (cases o1)
        case None
        with eq WaitPreface fields kept_input(1) [OF 1(4)] show ?thesis by auto
      next
        case (Some buffer)
        have "I (c\<lparr> readBuffer := b, state := WaitHeader \<rparr>)" by (intro kept_input 1(4))
        with 1(3) [OF WaitPreface fields [symmetric] Some refl refl] eq WaitPreface fields Some 1(6) kept_input(1) [OF 1(4), of b]
        show ?thesis by (auto simp: Let_def split: if_splits)
      qed
    qed
  next
    case WaitHeader
    show ?thesis
    proof (cases "TryGetRequestedSizeBuffer (readBuffer c) p 9")
      case (fields o1 b p1)
      show ?thesis
      proof (cases o1)
        case None
        with eq WaitHeader fields kept_input(1) [OF 1(4)] show ?thesis by auto
      next
        case (Some buffer)
        have "I (c\<lparr> readBuffer := b, header := h, state := HeaderRead \<rparr>)" for h by (intro kept_input 1(4))
        with 1(1) [OF WaitHeader fields [symmetric] Some refl refl] eq WaitHeader fields Some 1(6) kept_input(1) [OF 1(4), of b]
        show ?thesis by (auto simp: Let_def split: outcome.splits)
      qed
    qed
  next
    case HeaderRead
    show ?thesis
    proof (cases "TryGetRequestedSizeBuffer (readBuffer c) p (unat (Len (header c)))")
      case (fields o1 b p1)
      let ?c = "c\<lparr> readBuffer := b \<rparr>"
      have Ib: "I ?c" by (intro kept_input 1(4))
      show ?thesis
      proof (cases o1)
        case None
        with eq HeaderRead fields Ib show ?thesis by auto
      next
        case (Some buffer)
        show ?thesis
        proof (cases "FrameBody_DecodeExact (header c) buffer")
          case (Ok body)
          have ok: "body_ok (header ?c) body"
            using Ok FrameBody_length by (auto simp: FrameBody_DecodeExact_def decode_exact_Ok_iff)
          obtain r1 c1 where h: "handleBody body ?c = (r1, c1)" by (cases "handleBody body ?c")
          have dx: "FrameBody_DecodeExact (header ?c) buffer = Ok body" using Ok by simp
          show ?thesis
          proof (cases r1)
            case (Ok u)
            have "I c1" using kept_body [OF Ib ok h] Ok by simp
            then have "I (if state c1 = HeaderRead then c1\<lparr> state := WaitHeader \<rparr> else c1)" using kept_input(2) by simp
            with 1(2) [OF HeaderRead fields [symmetric] Some refl refl dx h [symmetric] Ok] eq HeaderRead fields Some h Ok dx 1(6)
            show ?thesis by (simp add: Let_def)
          next
            case (Err e)
            with eq HeaderRead fields Some h dx kept_body [OF Ib ok h] show ?thesis by (simp add: Let_def)
          next
            case Panic
            with eq HeaderRead fields Some h dx 1(6) show ?thesis by (simp add: Let_def)
          qed
        qed (use eq HeaderRead fields Some Ib 1(6) in \<open>auto simp: Let_def\<close>)
      qed
    qed
  next
    case GoneAway
    with eq 1(4) show ?thesis by (auto split: if_splits)
  qed
qed

lemma Decode_keeps:
  assumes "I c" "Decode p c = (r, c')" "r \<noteq> Panic"
  shows "I c'"
proof -
  obtain r1 c1 where l: "conn_decode_loop c p = (r1, c1)" by (cases "conn_decode_loop c p")
  with assms(2,3) have "r1 \<noteq> Panic" by (auto simp: Decode_def split: outcome.splits)
  from decode_loop_keeps [OF assms(1) l this] assms(2) l show ?thesis
    by (auto simp: Decode_def notifyWritable_def split: outcome.splits intro: kept_input)
qed

end

section \<open>The life of a stream\<close>

text \<open>The edges of the state diagram of RFC 9113, section 5.1, that the code takes.\<close>

inductive lifecycle :: "H2StreamState \<Rightarrow> H2StreamState \<Rightarrow> bool" where
  headers: "lifecycle Idle Open"
| local_end: "lifecycle Open HalfClosedLocal"
| remote_end: "lifecycle Open HalfClosedRemote"
| ended: "lifecycle s Close"

declare lifecycle.intros [intro]

inductive_cases from_Close [elim!]: "lifecycle Close s"
inductive_cases to_Idle [elim!]: "lifecycle s Idle"
inductive_cases to_Open [elim!]: "lifecycle s Open"

code_pred lifecycle .

text \<open>No stream object is lost or renumbered, and each goes forward only.\<close>

definition forward :: "H2Stream list \<Rightarrow> H2Stream list \<Rightarrow> bool" where
  "forward h h' \<longleftrightarrow> length h \<le> length h' \<and>
     (\<forall>r < length h. streamID (h' ! r) = streamID (h ! r) \<and> lifecycle\<^sup>*\<^sup>* (st (h ! r)) (st (h' ! r)))"

abbreviation moves :: "Conn \<Rightarrow> Conn \<Rightarrow> bool" where
  "moves c c' \<equiv> forward (heap c) (heap c')"

lemma forward_refl [simp, intro]: "forward h h"
  by (simp add: forward_def)

lemma forward_trans: "forward a b \<Longrightarrow> forward b c \<Longrightarrow> forward a c"
  unfolding forward_def by (auto intro: rtranclp_trans)

lemma heap_writes [simp]:
  "heap (write_raw bs c) = heap c" "heap (notifyWritable c) = heap c" "heap (set_header_flags f c) = heap c"
  "heap (snd (must_append app c)) = heap c" "heap (snd (must_append_header c)) = heap c"
  "heap (snd (writeWindowUpdate sid n c)) = heap c"
proof -
  show m: "heap (snd (must_append app c)) = heap c" for app c by (simp add: must_append_def split: outcome.splits)
  show "heap (write_raw bs c) = heap c" "heap (notifyWritable c) = heap c" "heap (set_header_flags f c) = heap c"
    by (simp_all add: write_raw_def notifyWritable_def set_header_flags_def)
  then show "heap (snd (must_append_header c)) = heap c" "heap (snd (writeWindowUpdate sid n c)) = heap c"
    by (simp_all add: must_append_header_def m writeWindowUpdate_def write_raw_def split: outcome.splits prod.splits)
qed

lemma moves_upd:
  assumes "moves a b" "\<And>s. streamID (f s) = streamID s" "\<And>s. st (f s) = st s"
  shows "moves a (upd_stream r f b)"
proof (rule forward_trans [OF assms(1)])
  show "moves b (upd_stream r f b)"
    using assms(2,3) by (cases "r < length (heap b)") (auto simp: forward_def upd_stream_def nth_list_update)
qed

lemma moves_upd_state:
  assumes "moves a b" "r < length (heap b) \<Longrightarrow> lifecycle\<^sup>*\<^sup>* (st (heap b ! r)) s"
  shows "moves a (upd_stream r (\<lambda>x. x\<lparr> st := s \<rparr>) b)"
proof (rule forward_trans [OF assms(1)])
  show "moves b (upd_stream r (\<lambda>x. x\<lparr> st := s \<rparr>) b)"
    using assms(2) by (cases "r < length (heap b)") (auto simp: forward_def upd_stream_def nth_list_update)
qed

lemma moves_setState:
  assumes "moves a b" "r < length (heap b) \<Longrightarrow> lifecycle\<^sup>*\<^sup>* (st (heap b ! r)) s"
  shows "moves a (setState r s b)"
proof -
  let ?b = "upd_stream r (\<lambda>x. x\<lparr> st := s \<rparr>) b"
  have m: "moves a ?b" using assms by (rule moves_upd_state)
  then have "moves a (notifyRead r ?b)" unfolding notifyRead_def by (rule moves_upd) simp_all
  then have "moves a (notifyWindowUpdate r (notifyRead r ?b))" unfolding notifyWindowUpdate_def by (rule moves_upd) simp_all
  with m show ?thesis by (auto simp: setState_def Let_def)
qed

lemma moves_close: "moves a b \<Longrightarrow> moves a (setState r Close b)"
  by (rule moves_setState) auto

lemma moves_fold:
  assumes "moves a b" "\<And>x b. moves a b \<Longrightarrow> moves a (f x b)"
  shows "moves a (fold f xs b)"
  using assms by (induction xs arbitrary: b) auto

lemma moves_new:
  assumes "moves a b"
  shows "moves a (snd (newHTTP2Stream sid s b))"
proof (rule forward_trans [OF assms])
  show "moves b (snd (newHTTP2Stream sid s b))" by (auto simp: forward_def newHTTP2Stream_def Let_def nth_append)
qed

lemma moves_and_then:
  assumes "moves a (snd m)" "\<And>x b. moves a b \<Longrightarrow> moves a (snd (f x b))"
  shows "moves a (snd (and_then m f))"
  using assms by (cases m; cases "fst m") auto

lemma moves_handle_settings: "moves a b \<Longrightarrow> moves a (snd (handle_settings ss b))"
proof -
  assume m: "moves a b"
  have "moves a (update_stream_windows d c)" if "moves a c" for d c
    unfolding update_stream_windows_def by (rule moves_fold [OF that]) (auto intro: moves_upd)
  with m show ?thesis
    unfolding handle_settings_def Let_def
    by (auto simp: fail_def done_with_def split: prod.splits)
qed

lemma moves_handleHpackDecode: "moves a b \<Longrightarrow> moves a (snd (handleHpackDecode r block b))"
  unfolding handleHpackDecode_def Let_def
  by (auto split: prod.splits intro!: moves_upd)

lemma moves_replenish:
  assumes "moves a b" "\<And>i c. moves a c \<Longrightarrow> moves a (upd i c)"
  shows "moves a (snd (replenish sid avail upd b))"
proof -
  let ?w = "writeWindowUpdate sid (word_of_int (uint (InitialWindowSize (localSettings b)) - avail)) b"
  have "moves a (snd ?w)" using assms(1) by simp
  then show ?thesis using assms
    by (cases ?w; cases "fst ?w") (auto simp: replenish_def Let_def)
qed

lemma moves_maySendWindowUpdate:
  assumes "moves a b"
  shows "moves a (snd (maySendWindowUpdate r b))"
proof -
  let ?upd = "\<lambda>increment c. c\<lparr> c_localWindow := window_Update increment (c_localWindow c) \<rparr>"
  have conn: "moves a (snd (replenish 0 w ?upd c))" if "moves a c" for w c
    by (rule moves_replenish [OF that]) (auto)
  have "moves a (snd (if \<not> cont then done_with () c
      else and_then (replenish 0 (c_localWindow c) ?upd c) (\<lambda>_. done_with ())))" if "moves a c" for c cont
    using that by (auto simp: done_with_def intro!: moves_and_then conn)
  with assms show ?thesis
    unfolding maySendWindowUpdate_def by (intro moves_and_then moves_replenish) (auto intro: moves_upd)
qed

lemma moves_mayHandleClose:
  assumes "moves a b"
  shows "moves a (mayHandleClose r b)"
proof -
  have c: "moves a (setState r Close b)" by (rule moves_close [OF assms])
  have o: "moves a (setState r HalfClosedRemote b)" if "st (heap b ! r) = Open"
    by (rule moves_setState [OF assms]) (auto simp: that)
  show ?thesis using assms c o
    by (auto simp: mayHandleClose_def Let_def split: H2StreamState.splits)
qed

lemma moves_close_all: "moves a b \<Longrightarrow> moves a (close_all b)"
  unfolding close_all_def by (rule moves_fold) (auto intro: moves_close)

lemma moves_handleConnectionLevelFrame: "moves a b \<Longrightarrow> moves a (snd (handleConnectionLevelFrame body b))"
proof -
  assume m: "moves a b"
  have wake: "moves a (fold (\<lambda>(sid, r). notifyWindowUpdate r) xs c)" if "moves a c" for xs c
    by (rule moves_fold [OF that]) (auto simp: notifyWindowUpdate_def intro: moves_upd)
  with m show ?thesis
    by (cases body)
      (auto simp: handleConnectionLevelFrame_def Let_def fail_def done_with_def
        intro!: moves_and_then moves_handle_settings moves_close_all wake)
qed

lemma moves_find_or_open: "moves a b \<Longrightarrow> moves a (snd (find_or_open b))"
proof -
  assume m: "moves a b"
  let ?n = "newHTTP2Stream (StreamId (header b)) Idle b"
  from moves_new [OF m] have n: "moves a (snd ?n)" .
  have "moves a (setState r Close ((snd ?n)\<lparr> maxReceivedStreamID := i \<rparr>))" for r i
    by (rule moves_close) (simp add: n)
  with m n show ?thesis
    by (cases ?n) (auto simp: find_or_open_def Let_def fail_def done_with_def split: option.splits)
qed

lemma moves_handle_continuation:
  assumes "moves a b"
  shows "moves a (snd (handle_continuation r block b))"
proof -
  let ?h = "handleHpackDecode r (headerBuffer b @ block) (b\<lparr> headerBuffer := headerBuffer b @ block, continuationStreamID := 0 \<rparr>)"
  have "moves a (snd ?h)" by (rule moves_handleHpackDecode) (simp add: assms)
  with assms show ?thesis
    by (cases ?h) (auto simp: handle_continuation_def Let_def fail_def done_with_def split: outcome.splits)
qed

lemma moves_handle_rst: "moves a b \<Longrightarrow> moves a (snd (handle_rst r cd b))"
  unfolding handle_rst_def Let_def done_with_def by (auto intro!: moves_upd moves_close)

lemma moves_handle_headers:
  assumes "moves a b"
  shows "moves a (snd (handle_headers r block b))"
proof -
  let ?b = "if st (heap b ! r) = Idle then setState r Open b else b"
  have "moves a (setState r Open b)" if "st (heap b ! r) = Idle"
    by (rule moves_setState [OF assms]) (auto simp: that)
  with assms have "moves a (mayHandleClose r ?b)" by (intro moves_mayHandleClose) auto
  then show ?thesis
    by (auto simp: handle_headers_def Let_def done_with_def intro: moves_handleHpackDecode)
qed

lemma moves_handle_data:
  assumes "moves a b"
  shows "moves a (snd (handle_data r bs b))"
proof -
  have "moves a (mayHandleClose r b)" by (rule moves_mayHandleClose [OF assms])
  then show ?thesis
    by (auto simp: handle_data_def Let_def fail_def notifyRead_def split: option.splits
        intro!: moves_maySendWindowUpdate moves_upd)
qed

lemma moves_handle_push_promise:
  assumes "moves a b"
  shows "moves a (snd (handle_push_promise pp b))"
proof -
  let ?n = "newHTTP2Stream (number31 (promised_id pp)) ReservedRemote (b\<lparr> maxReceivedStreamID := number31 (promised_id pp) \<rparr>)"
  have "moves a (snd ?n)" by (rule moves_new) (simp add: assms)
  with assms show ?thesis
    by (cases ?n)
      (auto simp: handle_push_promise_def Let_def fail_def done_with_def intro!: moves_handleHpackDecode)
qed

lemma moves_handleBody:
  assumes "moves a b"
  shows "moves a (snd (handleBody body b))"
proof -
  have on: "moves a (snd (handle_on_stream body r c))" if "moves a c" for r c
    using that by (cases body)
      (auto simp: handle_on_stream_def fail_def done_with_def notifyWindowUpdate_def
        intro!: moves_handle_continuation moves_handle_rst moves_handle_headers moves_handle_data
          moves_handle_push_promise moves_upd)
  have "moves a (snd (handleStreamLevelFrame body b))"
    unfolding handleStreamLevelFrame_def using assms
    by (auto simp: done_with_def fail_def continuation_check_def split: option.splits
        intro!: moves_and_then moves_find_or_open on)
  with assms show ?thesis by (simp add: handleBody_def moves_handleConnectionLevelFrame)
qed

text \<open>Hence \<open>Decode\<close> moves every stream forward.\<close>

interpretation life: kept_by_frames "moves a" for a
proof unfold_locales
  fix c c' body r
  assume "moves a c" "handleBody body c = (r, c')"
  then show "moves a c'" using moves_handleBody [of a c body] by simp
qed simp_all

lemma moves_Decode: "Decode p c = (r, c') \<Longrightarrow> r \<noteq> Panic \<Longrightarrow> moves c c'"
  by (rule life.Decode_keeps) auto

section \<open>The routing table\<close>

text \<open>
  Every entry names a stream object under that object's number; a stream that is closed has no entry,
  unless the end of its header block is still to come (number 0, the connection itself, is never
  pruned); the accept queue names stream objects; the
  peer's frame size is one that the protocol allows.
\<close>

definition entry_ok :: "Conn \<Rightarrow> u32 \<times> nat \<Rightarrow> bool" where
  "entry_ok c e \<longleftrightarrow> snd e < length (heap c) \<and> streamID (heap c ! snd e) = fst e"

definition entry_live :: "Conn \<Rightarrow> u32 \<times> nat \<Rightarrow> bool" where
  "entry_live c e \<longleftrightarrow> (st (heap c ! snd e) = Close \<longrightarrow> fst e = 0 \<or> continuationStreamID c = fst e)"

definition conn_ok :: "Conn \<Rightarrow> bool" where
  "conn_ok c \<longleftrightarrow> distinct (map fst (streams c)) \<and> list_all (entry_ok c) (streams c) \<and>
     list_all (entry_live c) (streams c) \<and> list_all (\<lambda>r. r < length (heap c)) (acceptQueue c) \<and>
     AllowedMaxFrameSize (MaxFrameSize (peerSettings c))"

text \<open>The parts of the connection the invariant looks at.\<close>

definition routing :: "Conn \<Rightarrow> (u32 \<times> nat) list \<times> H2Stream list \<times> u32 \<times> nat list \<times> u32" where
  "routing c = (streams c, heap c, continuationStreamID c, acceptQueue c, MaxFrameSize (peerSettings c))"

lemma conn_ok_routing: "routing c' = routing c \<Longrightarrow> conn_ok c' = conn_ok c"
proof -
  assume "routing c' = routing c"
  then have same: "streams c' = streams c" "heap c' = heap c" "continuationStreamID c' = continuationStreamID c"
    "acceptQueue c' = acceptQueue c" "MaxFrameSize (peerSettings c') = MaxFrameSize (peerSettings c)"
    by (simp_all add: routing_def)
  then have "entry_ok c' = entry_ok c" "entry_live c' = entry_live c"
    by (simp_all add: fun_eq_iff entry_ok_def entry_live_def)
  with same show ?thesis by (simp add: conn_ok_def)
qed

lemma routing_writes [simp]:
  "routing (write_raw bs c) = routing c" "routing (notifyWritable c) = routing c" "routing (set_header_flags f c) = routing c"
  "routing (snd (must_append app c)) = routing c" "routing (snd (must_append_header c)) = routing c"
  "routing (snd (writeWindowUpdate sid n c)) = routing c"
proof -
  show m: "routing (snd (must_append app c)) = routing c" for app c
    by (simp add: must_append_def routing_def split: outcome.splits)
  have w: "routing (write_raw bs c) = routing c" for bs c by (simp add: write_raw_def routing_def)
  then show "routing (write_raw bs c) = routing c" "routing (notifyWritable c) = routing c" "routing (set_header_flags f c) = routing c"
    by (simp_all add: notifyWritable_def set_header_flags_def routing_def)
  show "routing (snd (must_append_header c)) = routing c" "routing (snd (writeWindowUpdate sid n c)) = routing c"
    by (simp_all add: must_append_header_def m w writeWindowUpdate_def split: outcome.splits prod.splits)
qed

lemma routing_fields [simp]:
  "routing (c\<lparr> readBuffer := b \<rparr>) = routing c" "routing (c\<lparr> state := s \<rparr>) = routing c" "routing (c\<lparr> header := h \<rparr>) = routing c"
  "routing (c\<lparr> writeCh := w \<rparr>) = routing c" "routing (c\<lparr> writeBuffer := b \<rparr>) = routing c"
  "routing (c\<lparr> c_localWindow := i \<rparr>) = routing c" "routing (c\<lparr> c_peerWindow := i \<rparr>) = routing c"
  "routing (c\<lparr> localSettings := ss \<rparr>) = routing c" "routing (c\<lparr> waitingSettingsAck := w \<rparr>) = routing c"
  "routing (c\<lparr> headerBuffer := b \<rparr>) = routing c" "routing (c\<lparr> maxReceivedStreamID := u \<rparr>) = routing c"
  "routing (c\<lparr> activeStreams := i \<rparr>) = routing c" "routing (c\<lparr> decHpack := t \<rparr>) = routing c"
  "routing (c\<lparr> encHpack := k \<rparr>) = routing c" "routing (c\<lparr> nextStreamID := u \<rparr>) = routing c"
  "routing (c\<lparr> updatingSettings := ss \<rparr>) = routing c" "routing (c\<lparr> acceptCh := w \<rparr>) = routing c"
  by (simp_all add: routing_def)

lemma ok_fields [simp]:
  "conn_ok (c\<lparr> readBuffer := b \<rparr>) = conn_ok c" "conn_ok (c\<lparr> state := s \<rparr>) = conn_ok c" "conn_ok (c\<lparr> header := h \<rparr>) = conn_ok c"
  "conn_ok (c\<lparr> writeCh := w \<rparr>) = conn_ok c" "conn_ok (c\<lparr> writeBuffer := b \<rparr>) = conn_ok c" "conn_ok (c\<lparr> c_localWindow := i \<rparr>) = conn_ok c"
  "conn_ok (c\<lparr> c_peerWindow := i \<rparr>) = conn_ok c" "conn_ok (c\<lparr> localSettings := ss \<rparr>) = conn_ok c" "conn_ok (c\<lparr> waitingSettingsAck := w \<rparr>) = conn_ok c"
  "conn_ok (c\<lparr> headerBuffer := b \<rparr>) = conn_ok c" "conn_ok (c\<lparr> maxReceivedStreamID := u \<rparr>) = conn_ok c" "conn_ok (c\<lparr> activeStreams := i \<rparr>) = conn_ok c"
  "conn_ok (c\<lparr> decHpack := t \<rparr>) = conn_ok c" "conn_ok (c\<lparr> encHpack := k \<rparr>) = conn_ok c" "conn_ok (c\<lparr> nextStreamID := u \<rparr>) = conn_ok c"
  "conn_ok (c\<lparr> updatingSettings := ss \<rparr>) = conn_ok c" "conn_ok (c\<lparr> acceptCh := w \<rparr>) = conn_ok c"
  by (rule conn_ok_routing, simp)+

lemma ok_routing: "conn_ok c \<Longrightarrow> routing c' = routing c \<Longrightarrow> conn_ok c'"
  using conn_ok_routing by blast

lemma ok_writes [simp]:
  "conn_ok (write_raw bs c) = conn_ok c" "conn_ok (notifyWritable c) = conn_ok c" "conn_ok (set_header_flags f c) = conn_ok c"
  "conn_ok (snd (must_append app c)) = conn_ok c" "conn_ok (snd (must_append_header c)) = conn_ok c"
  "conn_ok (snd (writeWindowUpdate sid n c)) = conn_ok c"
  by (rule conn_ok_routing, simp)+

lemma nth_update_keeps:
  assumes "g y = g (xs ! r)"
  shows "g (xs[r := y] ! i) = g (xs ! i)"
proof (cases "r < length xs")
  case True
  with assms show ?thesis by (cases "i = r") simp_all
next
  case False
  then show ?thesis by (simp add: list_update_beyond)
qed

lemma ok_upd:
  assumes "conn_ok c" "\<And>s. streamID (f s) = streamID s" "\<And>s. st (f s) = st s"
  shows "conn_ok (upd_stream r f c)"
proof -
  have h: "streamID ((heap c)[r := f (heap c ! r)] ! i) = streamID (heap c ! i)"
    "st ((heap c)[r := f (heap c ! r)] ! i) = st (heap c ! i)" for i
    by (rule nth_update_keeps, rule assms)+
  then have "entry_ok (upd_stream r f c) = entry_ok c" "entry_live (upd_stream r f c) = entry_live c"
    by (simp_all add: fun_eq_iff entry_ok_def entry_live_def upd_stream_def)
  with assms(1) show ?thesis by (simp add: conn_ok_def upd_stream_def)
qed

lemma ok_fold:
  assumes "conn_ok c" "\<And>x c. conn_ok c \<Longrightarrow> conn_ok (f x c)"
  shows "conn_ok (fold f xs c)"
  using assms by (induction xs arbitrary: c) auto

lemma ok_setState:
  assumes "conn_ok c"
  shows "conn_ok (setState r s c)"
proof -
  let ?c = "upd_stream r (\<lambda>x. x\<lparr> st := s \<rparr>) c"
  let ?c1 = "notifyWindowUpdate r (notifyRead r ?c)"
  have sid: "streamID ((heap c)[r := (heap c ! r)\<lparr> st := s \<rparr>] ! i) = streamID (heap c ! i)" for i s
    by (rule nth_update_keeps) simp
  show ?thesis
  proof (cases "s = Close")
    case False
    have "list_all (entry_live ?c) (streams c)"
      using assms False by (cases "r < length (heap c)")
        (auto simp: conn_ok_def list_all_iff entry_live_def upd_stream_def nth_list_update list_update_beyond)
    moreover have "entry_ok ?c = entry_ok c" by (simp add: fun_eq_iff entry_ok_def upd_stream_def sid)
    ultimately show ?thesis using assms False by (simp add: setState_def Let_def conn_ok_def upd_stream_def)
  next
    case True
    have heap1: "heap ?c1 = (heap c)[r := (heap c ! r)\<lparr> st := Close, readCh := True, windowUpdateCh := True \<rparr>]"
      by (cases "r < length (heap c)") (simp_all add: True notifyWindowUpdate_def notifyRead_def upd_stream_def list_update_beyond)
    have same: "streams ?c1 = streams c" "continuationStreamID ?c1 = continuationStreamID c"
        "acceptQueue ?c1 = acceptQueue c" "peerSettings ?c1 = peerSettings c"
      by (simp_all add: notifyWindowUpdate_def notifyRead_def upd_stream_def)
    have sid1: "streamID (heap ?c1 ! i) = streamID (heap c ! i)" for i
      unfolding heap1 by (rule nth_update_keeps) simp
    have ok1: "entry_ok ?c1 = entry_ok c" by (simp add: fun_eq_iff entry_ok_def heap1 sid1 [unfolded heap1])
    have st1: "i \<noteq> r \<Longrightarrow> st (heap ?c1 ! i) = st (heap c ! i)" for i by (simp add: heap1)
    have len1: "length (heap ?c1) = length (heap c)" by (simp add: heap1)
    let ?id = "streamID (heap ?c1 ! r)"
    have live: "list_all (entry_live ?c1) (filter (\<lambda>e. fst e \<noteq> ?id \<or> continuationStreamID c = ?id) (streams c))"
      unfolding list_all_iff
    proof
      fix e assume e: "e \<in> set (filter (\<lambda>e. fst e \<noteq> ?id \<or> continuationStreamID c = ?id) (streams c))"
      then have orig: "entry_ok c e" "entry_live c e" using assms by (auto simp: conn_ok_def list_all_iff)
      show "entry_live ?c1 e"
      proof (cases "snd e = r")
        case True
        then have "fst e = ?id" using orig(1) sid1 by (simp add: entry_ok_def)
        with e same show ?thesis by (simp add: entry_live_def)
      next
        case False
        with orig(2) st1 same show ?thesis by (simp add: entry_live_def)
      qed
    qed
    have del: "AList.delete ?id (streams c) = filter (\<lambda>e. fst e \<noteq> ?id) (streams c)" by (auto simp: AList.delete_eq case_prod_unfold intro: filter_cong)
    have dist: "distinct (map fst (filter P (streams c)))" for P
      using assms by (simp add: conn_ok_def distinct_map_filter)
    show ?thesis
    proof (cases "continuationStreamID c = ?id")
      case True
      with live assms len1 ok1 have "conn_ok ?c1" by (simp add: conn_ok_def same)
      then show ?thesis using True same \<open>s = Close\<close> by (simp add: setState_def Let_def)
    next
      case False
      have eq: "setState r s c = ?c1\<lparr> streams := AList.delete ?id (streams c) \<rparr>"
        using False same \<open>s = Close\<close> by (simp add: setState_def Let_def)
      have "list_all (entry_ok c) (filter P (streams c))" for P
        using assms by (auto simp: list_all_iff conn_ok_def)
      moreover have "entry_ok (setState r s c) = entry_ok c" "entry_live (setState r s c) = entry_live ?c1"
        unfolding eq ok1 [symmetric] by (simp_all add: fun_eq_iff entry_ok_def entry_live_def)
      ultimately show ?thesis using live dist assms False
        by (simp add: conn_ok_def) (simp add: eq same len1 del conn_ok_def)
    qed
  qed
qed

lemma set_AList_update: "set (AList.update k v xs) \<subseteq> insert (k, v) (set xs)"
  by (induction xs) auto

lemma AList_update_key: "distinct (map fst xs) \<Longrightarrow> (k, v') \<in> set (AList.update k v xs) \<Longrightarrow> v' = v"
  by (induction xs) (auto split: if_splits simp: rev_image_eqI)

lemma ok_new:
  assumes "conn_ok c" "s \<noteq> Close"
  shows "conn_ok (snd (newHTTP2Stream sid s c))"
proof -
  let ?c = "snd (newHTTP2Stream sid s c)" and ?r = "length (heap c)"
  have f: "streams ?c = AList.update sid ?r (streams c)" "\<exists>x. heap ?c = heap c @ [x] \<and> streamID x = sid \<and> st x = s"
    "continuationStreamID ?c = continuationStreamID c" "peerSettings ?c = peerSettings c"
    "set (acceptQueue ?c) \<subseteq> insert ?r (set (acceptQueue c))"
    by (auto simp: newHTTP2Stream_def Let_def)
  then obtain x where x: "heap ?c = heap c @ [x]" "streamID x = sid" "st x = s" by blast
  have "entry_ok ?c e \<and> entry_live ?c e" if "e \<in> set (streams ?c)" for e
  proof -
    from that set_AList_update [of sid ?r "streams c"] f(1) consider "e = (sid, ?r)" | "e \<in> set (streams c)" by auto
    then show ?thesis
    proof cases
      case 1
      then show ?thesis using x assms(2) by (simp add: entry_ok_def entry_live_def)
    next
      case 2
      then have "entry_ok c e" "entry_live c e" using assms(1) by (auto simp: conn_ok_def list_all_iff)
      then show ?thesis using x f(3) by (simp add: entry_ok_def entry_live_def nth_append)
    qed
  qed
  moreover have "distinct (map fst (streams ?c))"
    using assms(1) by (simp add: f conn_ok_def distinct_update)
  moreover have "r < length (heap ?c)" if "r \<in> set (acceptQueue ?c)" for r
    using that f(5) assms(1) x(1) by (fastforce simp: conn_ok_def list_all_iff)
  ultimately show ?thesis using assms(1) f(4) by (simp add: conn_ok_def list_all_iff)
qed

text \<open>What \<open>find_or_open\<close> finds.\<close>

lemma ok_find_or_open:
  assumes "conn_ok c"
  shows "conn_ok (snd (find_or_open c)) \<and> header (snd (find_or_open c)) = header c \<and>
    continuationStreamID (snd (find_or_open c)) = continuationStreamID c \<and>
    (\<forall>r. fst (find_or_open c) = Ok (Some r) \<longrightarrow>
      streamID (heap (snd (find_or_open c)) ! r) = StreamId (header c) \<and>
      (\<forall>r'. (StreamId (header c), r') \<in> set (streams (snd (find_or_open c))) \<longrightarrow> r' = r))"
proof (cases "map_of (streams c) (StreamId (header c))")
  case (Some r)
  then have "(StreamId (header c), r) \<in> set (streams c)" by (rule map_of_SomeD)
  moreover from this have "entry_ok c (StreamId (header c), r)" using assms by (auto simp: conn_ok_def list_all_iff)
  moreover have "distinct (map fst (streams c))" using assms by (simp add: conn_ok_def)
  ultimately show ?thesis using Some assms
    by (auto simp: find_or_open_def Let_def done_with_def entry_ok_def dest: eq_key_imp_eq_value)
next
  case None
  let ?sid = "StreamId (header c)" and ?r = "length (heap c)"
  show ?thesis
  proof (cases "isThisSideInitiated ?sid c")
    case True
    with None assms show ?thesis by (auto simp: find_or_open_def Let_def done_with_def fail_def)
  next
    case False
    obtain c1 where n: "newHTTP2Stream ?sid Idle c = (?r, c1)"
      by (simp add: newHTTP2Stream_def Let_def split: if_splits)
    have ok1: "conn_ok c1" using ok_new [OF assms, of Idle ?sid] n by simp
    have f1: "streamID (heap c1 ! ?r) = ?sid" "streams c1 = AList.update ?sid ?r (streams c)"
      "header c1 = header c" "continuationStreamID c1 = continuationStreamID c"
      using n by (auto simp: newHTTP2Stream_def Let_def split: if_splits)
    define c2 where "c2 = c1\<lparr> maxReceivedStreamID := max (maxReceivedStreamID c1) (streamID (heap c1 ! ?r)) \<rparr>"
    have ok2: "conn_ok c2" unfolding c2_def by (rule ok_routing [OF ok1]) simp
    have f2: "streamID (heap c2 ! ?r) = ?sid" "header c2 = header c" "continuationStreamID c2 = continuationStreamID c"
      "\<And>r'. (?sid, r') \<in> set (streams c2) \<Longrightarrow> r' = ?r"
      using f1 AList_update_key [of "streams c" ?sid _ ?r] assms by (auto simp: c2_def conn_ok_def)
    have "streamID (heap (setState ?r Close c2) ! ?r) = streamID (heap c2 ! ?r)"
      "header (setState ?r Close c2) = header c2"
      "continuationStreamID (setState ?r Close c2) = continuationStreamID c2"
      by (auto simp: setState_def Let_def notifyRead_def notifyWindowUpdate_def upd_stream_def intro!: nth_update_keeps)
    moreover have "set (streams (setState ?r Close c2)) \<subseteq> set (streams c2)"
      by (auto simp: setState_def Let_def notifyRead_def notifyWindowUpdate_def upd_stream_def AList.delete_eq)
    ultimately show ?thesis
      using None False n ok2 f2 ok_setState [OF ok2, of ?r Close]
      by (auto simp: find_or_open_def Let_def done_with_def c2_def [symmetric])
  qed
qed

lemma ok_and_then:
  assumes "conn_ok (snd m)" "\<And>x b. conn_ok b \<Longrightarrow> conn_ok (snd (f x b))"
  shows "conn_ok (snd (and_then m f))"
  using assms by (cases m; cases "fst m") auto

lemma ok_close_all: "conn_ok b \<Longrightarrow> conn_ok (close_all b)"
  unfolding close_all_def by (rule ok_fold) (auto intro: ok_setState)

lemma apply_settings_frame_size:
  "AllowedMaxFrameSize (MaxFrameSize p) \<Longrightarrow> AllowedMaxFrameSize (MaxFrameSize (snd (apply_settings ss p)))"
  by (induction ss p rule: apply_settings.induct) auto

lemma ok_update_stream_windows: "conn_ok c \<Longrightarrow> conn_ok (update_stream_windows d c)"
  unfolding update_stream_windows_def by (rule ok_fold) (auto intro: ok_upd)

lemma ok_handle_settings:
  assumes "conn_ok b"
  shows "conn_ok (snd (handle_settings ss b))"
proof -
  obtain v s where a: "apply_settings ss (peerSettings b) = (v, s)" by (cases "apply_settings ss (peerSettings b)")
  have "AllowedMaxFrameSize (MaxFrameSize s)"
    using apply_settings_frame_size [of "peerSettings b" ss] assms a by (simp add: conn_ok_def)
  moreover have "entry_ok (b\<lparr> peerSettings := s \<rparr>) = entry_ok b" "entry_live (b\<lparr> peerSettings := s \<rparr>) = entry_live b"
    by (simp_all add: fun_eq_iff entry_ok_def entry_live_def)
  ultimately have p: "conn_ok (b\<lparr> peerSettings := s \<rparr>)" using assms by (simp add: conn_ok_def)
  have w: "conn_ok (update_stream_windows d (b\<lparr> c_localWindow := i \<rparr>))" for d i
    by (rule ok_update_stream_windows) (simp add: assms)
  show ?thesis
    unfolding handle_settings_def Let_def a
    by (auto simp: fail_def done_with_def assms p w)
qed

lemma ok_handleHpackDecode: "conn_ok b \<Longrightarrow> conn_ok (snd (handleHpackDecode r block b))"
  unfolding handleHpackDecode_def Let_def
  by (auto split: prod.splits intro!: ok_upd)

lemma ok_replenish:
  assumes "conn_ok b" "\<And>i c. conn_ok c \<Longrightarrow> conn_ok (upd i c)"
  shows "conn_ok (snd (replenish sid avail upd b))"
proof -
  let ?w = "writeWindowUpdate sid (word_of_int (uint (InitialWindowSize (localSettings b)) - avail)) b"
  have "conn_ok (snd ?w)" using assms(1) by simp
  then show ?thesis using assms by (cases ?w; cases "fst ?w") (auto simp: replenish_def Let_def)
qed

lemma ok_maySendWindowUpdate:
  assumes "conn_ok b"
  shows "conn_ok (snd (maySendWindowUpdate r b))"
proof -
  let ?upd = "\<lambda>increment c. c\<lparr> c_localWindow := window_Update increment (c_localWindow c) \<rparr>"
  have conn: "conn_ok (snd (replenish 0 w ?upd c))" if "conn_ok c" for w c
    by (rule ok_replenish [OF that]) auto
  have "conn_ok (snd (if \<not> cont then done_with () c
      else and_then (replenish 0 (c_localWindow c) ?upd c) (\<lambda>_. done_with ())))" if "conn_ok c" for c cont
    using that by (auto simp: done_with_def intro!: ok_and_then conn)
  with assms show ?thesis
    unfolding maySendWindowUpdate_def by (intro ok_and_then ok_replenish) (auto intro: ok_upd)
qed

lemma ok_mayHandleClose: "conn_ok b \<Longrightarrow> conn_ok (mayHandleClose r b)"
  unfolding mayHandleClose_def Let_def
  by (auto split: H2StreamState.splits intro: ok_setState)

lemma ok_handleConnectionLevelFrame: "conn_ok b \<Longrightarrow> conn_ok (snd (handleConnectionLevelFrame body b))"
proof -
  assume m: "conn_ok b"
  have wake: "conn_ok (fold (\<lambda>(sid, r). notifyWindowUpdate r) xs c)" if "conn_ok c" for xs c
    by (rule ok_fold [OF that]) (auto simp: notifyWindowUpdate_def intro: ok_upd)
  show ?thesis
    by (cases body)
      (auto simp: handleConnectionLevelFrame_def Let_def fail_def done_with_def m
        intro!: ok_and_then ok_handle_settings ok_close_all wake)
qed

text \<open>Other numbers do not matter to an entry while no header block is awaited, and none does afterwards.\<close>

lemma ok_await:
  assumes "conn_ok c" "continuationStreamID c = 0"
  shows "conn_ok (c\<lparr> continuationStreamID := sid \<rparr>)"
proof -
  let ?c = "c\<lparr> continuationStreamID := sid \<rparr>"
  have "entry_ok ?c = entry_ok c" by (simp add: fun_eq_iff entry_ok_def)
  moreover have "list_all (entry_live ?c) (streams c)"
    using assms by (auto simp: conn_ok_def list_all_iff entry_live_def)
  ultimately show ?thesis using assms(1) by (simp add: conn_ok_def)
qed

lemma continuation_setState [simp]: "continuationStreamID (setState r s c) = continuationStreamID c"
  by (simp add: setState_def Let_def notifyRead_def notifyWindowUpdate_def upd_stream_def)

lemma continuation_mayHandleClose [simp]: "continuationStreamID (mayHandleClose r c) = continuationStreamID c"
  by (simp add: mayHandleClose_def Let_def split: H2StreamState.splits)

lemma ok_handle_headers:
  assumes "conn_ok b" "continuationStreamID b = 0"
  shows "conn_ok (snd (handle_headers r block b))"
proof -
  let ?b = "mayHandleClose r (if st (heap b ! r) = Idle then setState r Open b else b)"
  have "conn_ok ?b" using assms(1) by (simp add: ok_mayHandleClose ok_setState)
  moreover have "continuationStreamID ?b = 0" using assms(2) by simp
  ultimately show ?thesis
    by (auto simp: handle_headers_def Let_def done_with_def intro: ok_handleHpackDecode ok_await)
qed

lemma ok_handle_data:
  assumes "conn_ok b"
  shows "conn_ok (snd (handle_data r bs b))"
proof -
  have ok: "conn_ok ((mayHandleClose r b)\<lparr> c_localWindow := w \<rparr>)" "conn_ok (mayHandleClose r b)" for w
    using ok_mayHandleClose [OF assms] by simp_all
  then show ?thesis
    by (auto simp: handle_data_def Let_def fail_def notifyRead_def split: option.splits
        intro!: ok_maySendWindowUpdate ok_upd)
qed

lemma AList_update_same: "distinct (map fst xs) \<Longrightarrow> (k, v) \<in> set xs \<Longrightarrow> AList.update k v xs = xs"
  by (induction xs) (auto simp: rev_image_eqI)

lemma AList_update_twice [simp]: "AList.update k v (AList.update k v xs) = AList.update k v xs"
  by (induction xs) auto

lemma ok_handle_push_promise:
  assumes "conn_ok b" "continuationStreamID b = 0"
  shows "conn_ok (snd (handle_push_promise pp b))"
proof -
  let ?sid = "number31 (promised_id pp)"
  let ?b = "b\<lparr> maxReceivedStreamID := ?sid \<rparr>"
  obtain r c where n: "newHTTP2Stream ?sid ReservedRemote ?b = (r, c)" by (cases "newHTTP2Stream ?sid ReservedRemote ?b")
  have c: "conn_ok c" using ok_new [of ?b ReservedRemote ?sid] assms(1) n by simp
  have f: "AList.update (streamID (heap c ! r)) r (streams c) = streams c" "continuationStreamID c = 0"
    using n assms(2) by (auto simp: newHTTP2Stream_def Let_def split: if_splits)
  then have same: "c\<lparr> streams := AList.update (streamID (heap c ! r)) r (streams c) \<rparr> = c" by simp
  show ?thesis
    using assms(1) ok_await [OF c f(2)] ok_handleHpackDecode [OF c]
    by (auto simp: handle_push_promise_def Let_def n same fail_def done_with_def)
qed

lemma ok_handle_rst: "conn_ok b \<Longrightarrow> conn_ok (snd (handle_rst r cd b))"
  unfolding handle_rst_def Let_def done_with_def
  by (auto intro: ok_upd ok_setState)

lemma ok_handle_continuation:
  assumes "conn_ok b" "streamID (heap b ! r) = continuationStreamID b"
    "\<And>r'. (continuationStreamID b, r') \<in> set (streams b) \<Longrightarrow> r' = r"
    "handle_continuation r block b = (res, c)" "res \<noteq> Panic"
  shows "conn_ok c"
proof (cases "continuationStreamID b = 0 \<or> \<not> EndHeaders (hdr_flags (header b))")
  case True
  with assms(1,4) show ?thesis
    by (auto simp: handle_continuation_def Let_def fail_def done_with_def split: if_splits)
next
  case False
  let ?b = "b\<lparr> headerBuffer := headerBuffer b @ block, continuationStreamID := 0 \<rparr>"
  obtain res1 c1 where h: "handleHpackDecode r (headerBuffer b @ block) ?b = (res1, c1)"
    by (cases "handleHpackDecode r (headerBuffer b @ block) ?b")
  let ?del = "if st (heap c1 ! r) = Close then c1\<lparr> streams := AList.delete (streamID (heap c1 ! r)) (streams c1) \<rparr> else c1"
  have c: "c = ?del"
    using assms(4,5) False h by (auto simp: handle_continuation_def Let_def split: outcome.splits)
  have f: "streams c1 = streams b" "acceptQueue c1 = acceptQueue b" "peerSettings c1 = peerSettings b"
      "continuationStreamID c1 = 0" "length (heap c1) = length (heap b)"
      "\<exists>x. heap c1 = (heap b)[r := (heap b ! r)\<lparr> receivedHeader := Some x \<rparr>]"
    using h by (auto simp: handleHpackDecode_def Let_def upd_stream_def split: prod.splits)
  then obtain x where x: "heap c1 = (heap b)[r := (heap b ! r)\<lparr> receivedHeader := Some x \<rparr>]" by blast
  have same: "streamID (heap c1 ! i) = streamID (heap b ! i)" "st (heap c1 ! i) = st (heap b ! i)" for i
    unfolding x by (rule nth_update_keeps; simp)+
  have ok: "entry_ok c e" if "e \<in> set (streams b)" for e
    using that assms(1) f(5) same by (auto simp: c conn_ok_def list_all_iff entry_ok_def)
  have sub: "set (streams c) \<subseteq> set (streams b)" by (auto simp: c f(1) AList.delete_eq)
  have live: "entry_live c e" if e: "e \<in> set (streams c)" for e
  proof -
    have o: "entry_live b e" "e \<in> set (streams b)" using e sub assms(1) by (auto simp: conn_ok_def list_all_iff)
    show ?thesis
    proof (cases "snd e = r")
      case True
      have "fst e = streamID (heap b ! r)" using ok [OF o(2)] True same by (auto simp: c entry_ok_def split: if_splits)
      with e True have "st (heap c1 ! r) \<noteq> Close" by (auto simp: c f(1) AList.delete_eq same)
      with True show ?thesis by (simp add: entry_live_def c)
    next
      case False
      with assms(3) [of "snd e"] o(2) have "fst e \<noteq> continuationStreamID b" by (metis prod.collapse)
      with o(1) show ?thesis by (auto simp: entry_live_def c same)
    qed
  qed
  have "distinct (map fst (streams c))"
    using assms(1) by (auto simp: c f(1) conn_ok_def distinct_delete)
  moreover have "acceptQueue c = acceptQueue b" "peerSettings c = peerSettings b" "length (heap c) = length (heap b)"
    using f by (auto simp: c)
  ultimately show ?thesis
    using assms(1) ok live sub by (auto simp: conn_ok_def list_all_iff)
qed

lemma ok_handle_on_stream:
  assumes "conn_ok b" "continuationStreamID b \<noteq> 0 \<Longrightarrow> body_type body = Some H2Type_CONTINUATION"
    "body_type body = Some H2Type_CONTINUATION \<Longrightarrow> continuationStreamID b \<noteq> 0 \<Longrightarrow>
       streamID (heap b ! r) = continuationStreamID b \<and> (\<forall>r'. (continuationStreamID b, r') \<in> set (streams b) \<longrightarrow> r' = r)"
    "handle_on_stream body r b = (res, c)" "res \<noteq> Panic"
  shows "conn_ok c"
proof (cases body)
  case (Continuation block)
  show ?thesis
  proof (cases "continuationStreamID b = 0")
    case True
    with assms(1,4) Continuation show ?thesis
      by (auto simp: handle_on_stream_def handle_continuation_def fail_def)
  next
    case False
    with ok_handle_continuation [of b r block res c] assms Continuation show ?thesis
      by (simp add: handle_on_stream_def)
  qed
next
  case (Headers h)
  with assms have z: "continuationStreamID b = 0" by auto
  have "conn_ok (snd (handle_on_stream body r b))"
    using Headers assms(1) ok_handle_headers [OF assms(1) z] by (simp add: handle_on_stream_def fail_def)
  with assms(4) show ?thesis by simp
next
  case (PushPromise pp)
  with assms have z: "continuationStreamID b = 0" by auto
  have "conn_ok (snd (handle_on_stream body r b))"
    using PushPromise assms(1) ok_handle_push_promise [OF assms(1) z] by (simp add: handle_on_stream_def fail_def)
  with assms(4) show ?thesis by simp
qed (use assms(1,4) ok_handle_rst [OF assms(1)] ok_handle_data [OF assms(1)] in
    \<open>auto simp: handle_on_stream_def fail_def done_with_def notifyWindowUpdate_def intro!: ok_upd
      dest!: arg_cong [of _ _ snd] split: if_splits\<close>)

lemma body_ok_type: "body_ok hdr body \<Longrightarrow> Type hdr = H2Type_CONTINUATION \<longleftrightarrow> body_type body = Some H2Type_CONTINUATION"
  by (cases body) auto

lemma ok_handleBody:
  assumes "conn_ok b" "body_ok (header b) body" "handleBody body b = (res, c)" "res \<noteq> Panic"
  shows "conn_ok c"
proof (cases "StreamId (header b) = 0")
  case True
  with assms ok_handleConnectionLevelFrame [OF assms(1), of body] show ?thesis by (simp add: handleBody_def)
next
  case False
  obtain found b1 where fo: "find_or_open b = (found, b1)" by (cases "find_or_open b")
  with ok_find_or_open [OF assms(1)] have b1: "conn_ok b1" "header b1 = header b"
    "continuationStreamID b1 = continuationStreamID b"
    "\<And>r. found = Ok (Some r) \<Longrightarrow> streamID (heap b1 ! r) = StreamId (header b) \<and>
      (\<forall>r'. (StreamId (header b), r') \<in> set (streams b1) \<longrightarrow> r' = r)" by auto
  have h: "(res, c) = and_then (found, b1) (\<lambda>stream c. case stream of None \<Rightarrow> done_with () c
      | Some r \<Rightarrow> and_then (continuation_check c) (\<lambda>_. handle_on_stream body r))"
    using assms(3) False fo by (simp add: handleBody_def handleStreamLevelFrame_def)
  show ?thesis
  proof (cases "\<exists>r. found = Ok (Some r) \<and> continuation_check b1 = (Ok (), b1)")
    case False
    then have "c = b1"
      using h by (cases found) (auto simp: done_with_def continuation_check_def fail_def split: option.splits if_splits)
    with b1(1) show ?thesis by simp
  next
    case True
    then obtain r where r: "found = Ok (Some r)" "continuation_check b1 = (Ok (), b1)" by blast
    then have "handle_on_stream body r b1 = (res, c)" using h by simp
    moreover have "continuationStreamID b1 \<noteq> 0 \<Longrightarrow>
        StreamId (header b1) = continuationStreamID b1 \<and> Type (header b1) = H2Type_CONTINUATION"
      using r(2) by (simp add: continuation_check_def fail_def split: if_splits)
    ultimately show ?thesis
      using ok_handle_on_stream [OF b1(1), of body r res c] b1 r(1) body_ok_type [OF assms(2)] assms(4) by auto
  qed
qed

text \<open>Hence \<open>Decode\<close> keeps the routing table.\<close>

interpretation routes: kept_by_frames conn_ok
  by unfold_locales (auto intro: ok_handleBody)

lemma ok_Decode: "conn_ok c \<Longrightarrow> Decode p c = (r, c') \<Longrightarrow> r \<noteq> Panic \<Longrightarrow> conn_ok c'"
  by (rule routes.Decode_keeps)

end
