(* ===== verification/Http2_Life.thy ===== *)
theory Http2_Life
  imports Http2_Conn_Laws
begin

text \<open>
  A connection in use: every call of a user and every chunk of the peer's bytes is an event, and the
  properties of \<open>Http2_Conn_Laws\<close> hold of every connection that events lead to.
\<close>

section \<open>The user's operations\<close>

lemma appendContinuation_keeps:
  "appendContinuation fuel sid p c = Some (r, c') \<Longrightarrow> heap c' = heap c \<and> routing c' = routing c"
proof (induction fuel sid p c rule: appendContinuation.induct)
  case (2 fuel sid p c)
  then show ?case by (auto simp: Let_def split: outcome.splits if_splits)
qed simp

lemma snd_done_with [simp]: "snd (done_with a c) = c"
  by (simp add: done_with_def)

lemma emit_headers_keeps: "heap (snd (emit_headers sid packed c)) = heap c \<and> routing (snd (emit_headers sid packed c)) = routing c"
proof -
  have n: "heap (snd (and_then x (\<lambda>_ c. done_with () (notifyWritable c)))) = heap (snd x)"
    "routing (snd (and_then x (\<lambda>_ c. done_with () (notifyWritable c)))) = routing (snd x)"
    for x :: "(conn_error, unit) outcome \<times> Conn"
    by (cases x; cases "fst x"; simp add: done_with_def)+
  have k: "heap (snd x) = heap d" "routing (snd x) = routing d" if "appendContinuation f i p d = Some x" for f i p d x
    using appendContinuation_keeps [of f i p d "fst x" "snd x"] that by auto
  show ?thesis
    unfolding emit_headers_def Let_def
    by (simp add: n k del: appendContinuation.simps split: outcome.split prod.split option.split)
qed

lemma writeHeader_keeps: "heap (snd (writeHeader sid hdr c)) = heap c \<and> routing (snd (writeHeader sid hdr c)) = routing c"
  using emit_headers_keeps
  by (cases "PackHeader hdr (encHpack c)") (simp add: writeHeader_def Let_def split: outcome.splits)

text \<open>What \<open>writeData\<close> does to the connection but for the output: it takes from the two windows.\<close>

lemma moves_emit_data:
  assumes "moves a c"
  shows "moves a (snd (emit_data sid r p e n c))"
proof -
  have "moves a (upd_stream r (\<lambda>s. s\<lparr> s_peerWindow := w \<rparr>) (write_raw b1 (write_raw b2 c)))" for w b1 b2
    by (rule moves_upd) (simp_all add: assms)
  with assms show ?thesis
    by (auto simp: emit_data_def Let_def fail_def done_with_def split: outcome.splits option.splits)
qed

lemma ok_emit_data:
  assumes "conn_ok c"
  shows "conn_ok (snd (emit_data sid r p e n c))"
proof -
  have "conn_ok (upd_stream r (\<lambda>s. s\<lparr> s_peerWindow := w \<rparr>) (write_raw b1 (write_raw b2 c)))" for w b1 b2
    by (rule ok_upd) (simp_all add: assms)
  with assms show ?thesis
    by (auto simp: emit_data_def Let_def fail_def done_with_def split: outcome.splits option.splits)
qed

lemma moves_writeData: "moves a c \<Longrightarrow> moves a (snd (writeData sid r p e c))"
  by (auto simp: writeData_def Let_def done_with_def intro: moves_emit_data)

lemma ok_writeData: "conn_ok c \<Longrightarrow> conn_ok (snd (writeData sid r p e c))"
  by (auto simp: writeData_def Let_def done_with_def intro: ok_emit_data)

lemma Write_round_keeps:
  "\<lbrakk> Write_round fuel r p n c = Some (res, k, c'); moves a c; conn_ok c \<rbrakk> \<Longrightarrow> moves a c' \<and> conn_ok c'"
proof (induction fuel r p n c rule: Write_round.induct)
  case (2 fuel r p n c)
  obtain o1 c1 where w: "writeData (streamID (heap c ! r)) r (drop n p) False c = (o1, c1)"
    by (cases "writeData (streamID (heap c ! r)) r (drop n p) False c")
  have k: "moves a c1" "conn_ok c1"
    using moves_writeData [of a c "streamID (heap c ! r)" r "drop n p" False]
      ok_writeData [of c "streamID (heap c ! r)" r "drop n p" False] 2(3,4) w by auto
  show ?case
  proof (cases "n < length p \<and> data_allowed r c \<and> (\<exists>m. o1 = Ok (m, blockingReasonMaxFrameSize))")
    case True
    then obtain m where "o1 = Ok (m, blockingReasonMaxFrameSize)" by blast
    with True 2 w k show ?thesis by simp
  next
    case False
    with 2(2,3,4) w k show ?thesis by (auto split: if_splits outcome.splits)
  qed
qed simp

lemma setState_open_keeps:
  assumes "moves a c" "st (heap c ! r) = Idle"
  shows "moves a (setState r Open c)"
  by (rule moves_setState [OF assms(1)]) (auto simp: assms(2))

text \<open>Everything that can happen to a connection: its peer's bytes, and the calls of its users.\<close>

datatype conn_event =
    Receive "u8 list option"
  | Create
  | Accept
  | Send_header nat "KeyValue list" AppendStringMode
  | Send_header_map http_header http_header nat http_header
  | Send_data nat "u8 list"
  | Send_all nat nat "u8 list" nat
  | Finish nat
  | Take_data nat
  | Read_data nat nat
  | Take_output
  | Reset u32 u32
  | Say_goodbye u32 u32 "u8 list"
  | Change_settings "Setting list"
  | Give_up

inductive conn_step :: "Conn \<Rightarrow> conn_event \<Rightarrow> Conn \<Rightarrow> bool" where
  "\<lbrakk> Decode p c = (res, c'); res \<noteq> Panic \<rbrakk> \<Longrightarrow> conn_step c (Receive p) c'"
| "CreateStream c = (r, c') \<Longrightarrow> conn_step c Create c'"
| "AcceptStream c = (res, c') \<Longrightarrow> conn_step c Accept c'"
| "\<lbrakk> WriteHeaderOrdered r hdr mode c = (res, c'); res \<noteq> Panic \<rbrakk> \<Longrightarrow> conn_step c (Send_header r hdr mode) c'"
| "\<lbrakk> WriteHeader o1 o2 r hdr c = (res, c'); res \<noteq> Panic \<rbrakk> \<Longrightarrow> conn_step c (Send_header_map o1 o2 r hdr) c'"
| "\<lbrakk> WriteNonBlocking r p c = (res, c'); res \<noteq> Panic \<rbrakk> \<Longrightarrow> conn_step c (Send_data r p) c'"
| "\<lbrakk> Write_round fuel r p n c = Some (res, m, c'); res \<noteq> Panic \<rbrakk> \<Longrightarrow> conn_step c (Send_all fuel r p n) c'"
| "\<lbrakk> Close_stream r c = (res, c'); res \<noteq> Panic \<rbrakk> \<Longrightarrow> conn_step c (Finish r) c'"
| "TakePeerData r c = (d, c') \<Longrightarrow> conn_step c (Take_data r) c'"
| "Read r k c = (d, c') \<Longrightarrow> conn_step c (Read_data r k) c'"
| "EncodeNonBlock c = (res, c') \<Longrightarrow> conn_step c Take_output c'"
| "\<lbrakk> writeRstStream sid cd c = (res, c'); res \<noteq> Panic \<rbrakk> \<Longrightarrow> conn_step c (Reset sid cd) c'"
| "\<lbrakk> writeGoAway l cd dbg c = (res, c'); res \<noteq> Panic \<rbrakk> \<Longrightarrow> conn_step c (Say_goodbye l cd dbg) c'"
| "\<lbrakk> updateSettings ss c = (res, c'); res \<noteq> Panic \<rbrakk> \<Longrightarrow> conn_step c (Change_settings ss) c'"
| "conn_step c Give_up (Abort c)"

inductive_cases conn_stepE: "conn_step c e c'"

lemma writes_keep:
  "heap (snd (writeRstStream sid cd c)) = heap c \<and> routing (snd (writeRstStream sid cd c)) = routing c"
  "heap (snd (writeGoAway l cd dbg c)) = heap c \<and> routing (snd (writeGoAway l cd dbg c)) = routing c"
  "heap (snd (updateSettings ss c)) = heap c \<and> routing (snd (updateSettings ss c)) = routing c"
proof -
  have and_then_keeps: "heap (snd (and_then m (\<lambda>_ c. (Ok (), notifyWritable c)))) = heap (snd m) \<and>
      routing (snd (and_then m (\<lambda>_ c. (Ok (), notifyWritable c)))) = routing (snd m)" for m :: "(conn_error, unit) outcome \<times> Conn"
    by (cases m; cases "fst m") (auto simp: done_with_def)
  show "heap (snd (writeRstStream sid cd c)) = heap c \<and> routing (snd (writeRstStream sid cd c)) = routing c"
    "heap (snd (writeGoAway l cd dbg c)) = heap c \<and> routing (snd (writeGoAway l cd dbg c)) = routing c"
    "heap (snd (updateSettings ss c)) = heap c \<and> routing (snd (updateSettings ss c)) = routing c"
    by (auto simp: writeRstStream_def writeGoAway_def updateSettings_def Let_def fail_def done_with_def and_then_keeps
        split: outcome.splits prod.splits)
qed

lemma and_then_cases:
  assumes "and_then m f = (res, c')" "res \<noteq> Panic"
  obtains e where "m = (Err e, c')" "res = Err e" | a c where "m = (Ok a, c)" "f a c = (res, c')"
  using assms by (cases m; cases "fst m") auto

lemma open_idle_keeps:
  "moves a c \<Longrightarrow> moves a (snd (open_idle r c))" "conn_ok c \<Longrightarrow> conn_ok (snd (open_idle r c))"
  by (simp_all add: open_idle_def done_with_def setState_open_keeps ok_setState)

lemma send_header_keeps:
  assumes "and_then (writeHeader sid hdr c) (\<lambda>_. open_idle r) = (res, c')" "res \<noteq> Panic" "moves a c" "conn_ok c"
  shows "moves a c' \<and> conn_ok c'"
  using assms(1,2)
proof (rule and_then_cases)
  fix e assume "writeHeader sid hdr c = (Err e, c')"
  with writeHeader_keeps [of sid hdr c] assms(3,4) show ?thesis by (auto intro: ok_routing)
next
  fix u c1 assume w: "writeHeader sid hdr c = (Ok u, c1)" "open_idle r c1 = (res, c')"
  with writeHeader_keeps [of sid hdr c] assms(3,4) have "moves a c1" "conn_ok c1" by (auto intro: ok_routing)
  with open_idle_keeps(1) [of a c1 r] open_idle_keeps(2) [of c1 r] w(2) show ?thesis by auto
qed

lemma close_stream_keeps:
  assumes "Close_stream r c = (res, c')" "res \<noteq> Panic" "moves a c" "conn_ok c"
  shows "moves a c' \<and> conn_ok c'"
proof (cases "data_allowed r c")
  case False
  with assms show ?thesis by (auto simp: Close_stream_def done_with_def)
next
  case True
  let ?w = "writeData (streamID (heap c ! r)) r [] True c"
  have k: "moves a (snd ?w)" "conn_ok (snd ?w)" using assms(3,4) by (auto intro: moves_writeData ok_writeData)
  have m: "moves a (setState r s c1)" if "moves a c1" "st (heap c1 ! r) = Open" "s = HalfClosedLocal" for s c1
    by (rule moves_setState [OF that(1)]) (auto simp: that)
  from assms(1) True have
    "and_then ?w (\<lambda>_ c. case st (heap c ! r) of Open \<Rightarrow> done_with () (setState r HalfClosedLocal c)
       | HalfClosedRemote \<Rightarrow> done_with () (setState r Close c) | _ \<Rightarrow> done_with () c) = (res, c')"
    by (simp add: Close_stream_def)
  then show ?thesis using assms(2)
    by (rule and_then_cases)
      (use k in \<open>auto simp: done_with_def split: H2StreamState.splits intro: m moves_close ok_setState\<close>)
qed

lemma conn_step_keeps:
  assumes "conn_step c e c'" "conn_ok c"
  shows "moves c c' \<and> conn_ok c'"
  using assms(1)
proof cases
  case (1 p res)
  with assms(2) moves_Decode ok_Decode show ?thesis by blast
next
  case (2 r)
  have c1: "conn_ok (c\<lparr> activeStreams := activeStreams c + 1, nextStreamID := nextStreamID c + 2 \<rparr>)"
    using assms(2) by simp
  have m: "moves c (snd (newHTTP2Stream (nextStreamID c) Idle (c\<lparr> activeStreams := activeStreams c + 1, nextStreamID := nextStreamID c + 2 \<rparr>)))"
    by (rule moves_new) simp
  show ?thesis using 2 m ok_new [OF c1, of Idle "nextStreamID c"] assms(2)
    by (auto simp: CreateStream_def Let_def split: if_splits prod.splits)
next
  case (3 res)
  then have "moves c c' \<and> (c' = c \<or> (\<exists>r rs. acceptQueue c = r # rs \<and> c' = c\<lparr> acceptQueue := rs \<rparr>))"
    by (auto simp: AcceptStream_def fail_def done_with_def split: if_splits list.splits)
  moreover have "conn_ok (c\<lparr> acceptQueue := rs \<rparr>)" if "acceptQueue c = r # rs" for r rs
  proof -
    have "entry_ok (c\<lparr> acceptQueue := rs \<rparr>) = entry_ok c" "entry_live (c\<lparr> acceptQueue := rs \<rparr>) = entry_live c"
      by (simp_all add: fun_eq_iff entry_ok_def entry_live_def)
    with assms(2) that show ?thesis by (simp add: conn_ok_def)
  qed
  ultimately show ?thesis using assms(2) by auto
next
  case (4 r hdr mode res)
  then show ?thesis using send_header_keeps [of _ _ c r res c' c] assms(2)
    by (auto simp: WriteHeaderOrdered_def fail_def split: if_splits)
next
  case (5 o1 o2 r hdr res)
  have u: "moves c (upd_stream r (\<lambda>s. s\<lparr> sentHeader := hdr \<rparr>) c)" "conn_ok (upd_stream r (\<lambda>s. s\<lparr> sentHeader := hdr \<rparr>) c)"
    using assms(2) by (auto intro: moves_upd ok_upd)
  from 5 send_header_keeps [OF _ _ u] assms(2) show ?thesis
    by (auto simp: WriteHeader_def Let_def fail_def split: if_splits)
next
  case (6 r p res)
  show ?thesis
  proof (cases "data_allowed r c")
    case False
    with 6 assms(2) show ?thesis by (auto simp: WriteNonBlocking_def fail_def)
  next
    case True
    have k: "moves c (snd (writeData (streamID (heap c ! r)) r p False c))"
      "conn_ok (snd (writeData (streamID (heap c ! r)) r p False c))"
      using assms(2) by (auto intro: moves_writeData ok_writeData)
    from 6 True have "and_then (writeData (streamID (heap c ! r)) r p False c) (\<lambda>(n, _). done_with n) = (res, c')"
      by (simp add: WriteNonBlocking_def)
    then show ?thesis using 6(3)
      by (rule and_then_cases) (use k in \<open>auto simp: done_with_def\<close>)
  qed
next
  case (7 fuel r p n res m)
  from Write_round_keeps [OF 7(2) forward_refl assms(2)] show ?thesis by simp
next
  case (8 r res)
  with close_stream_keeps [of r c res c' c] assms(2) show ?thesis by simp
next
  case (9 r d)
  with assms(2) show ?thesis by (auto simp: TakePeerData_def split: if_splits intro: moves_upd ok_upd)
next
  case (10 r k d)
  with assms(2) show ?thesis by (auto simp: Read_def Let_def split: if_splits intro!: moves_upd ok_upd)
next
  case (11 res)
  with assms(2) show ?thesis by (auto simp: EncodeNonBlock_def fail_def done_with_def split: if_splits)
next
  case (12 sid cd res)
  with writes_keep(1) [of sid cd c] assms(2) show ?thesis by (auto intro: ok_routing)
next
  case (13 l cd dbg res)
  with writes_keep(2) [of l cd dbg c] assms(2) show ?thesis by (auto intro: ok_routing)
next
  case (14 ss res)
  with writes_keep(3) [of ss c] assms(2) show ?thesis by (auto intro: ok_routing)
next
  case 15
  have "moves c (close_all (c\<lparr> state := GoneAway \<rparr>))" "conn_ok (close_all (c\<lparr> state := GoneAway \<rparr>))"
    using assms(2) by (auto intro: moves_close_all ok_close_all)
  with 15 show ?thesis by (simp add: Abort_def Let_def)
qed

section \<open>Runs\<close>

inductive conn_run :: "Conn \<Rightarrow> conn_event list \<Rightarrow> Conn \<Rightarrow> bool" where
  run_Nil: "conn_run c [] c"
| run_Cons: "conn_step c e c1 \<Longrightarrow> conn_run c1 es c' \<Longrightarrow> conn_run c (e # es) c'"

inductive_cases run_NilE [elim!]: "conn_run c [] c'"
inductive_cases run_ConsE [elim!]: "conn_run c (e # es) c'"

lemma conn_run_keeps: "conn_run c es c' \<Longrightarrow> conn_ok c \<Longrightarrow> moves c c' \<and> conn_ok c'"
proof (induction rule: conn_run.induct)
  case (run_Cons c e c1 es c')
  from conn_step_keeps [OF run_Cons(1,4)] have "moves c c1" "conn_ok c1" by auto
  with run_Cons.IH show ?case by (auto intro: forward_trans)
qed simp

definition started :: "bool \<Rightarrow> Conn" where
  "started client = snd (Start_conn (NewHTTP2Conn client))"

lemma started_ok: "conn_ok (started client)"
proof -
  have "conn_ok (started True)" "conn_ok (started False)" by code_simp+
  then show ?thesis by (cases client) simp_all
qed

text \<open>
  C15. Whatever the peer sends and the users do, the routing table of a connection has one entry for a
  number, which names a stream object of that number, and no entry for a closed stream (but for one
  whose header block is still coming in); the accept queue names stream objects.
\<close>

theorem routing_table_invariant:
  assumes "conn_run (started client) es c"
  shows "conn_ok c"
  using conn_run_keeps [OF assms started_ok] by blast

text \<open>
  C16. A stream object keeps its number, and its state moves along the edges of the state diagram of RFC
  9113 only, in particular never out of \<open>Close\<close>.
\<close>

theorem streams_move_forward:
  assumes "conn_run (started client) es c" "conn_run c es' c'" "r < length (heap c)"
  shows "r < length (heap c') \<and> streamID (heap c' ! r) = streamID (heap c ! r) \<and>
    lifecycle\<^sup>*\<^sup>* (st (heap c ! r)) (st (heap c' ! r)) \<and>
    (st (heap c ! r) = Close \<longrightarrow> st (heap c' ! r) = Close)"
proof -
  have "conn_ok c" using conn_run_keeps [OF assms(1) started_ok] by blast
  with conn_run_keeps [OF assms(2)] have m: "moves c c'" by blast
  have "s = Close" if "lifecycle\<^sup>*\<^sup>* Close s" for s
    using that by (induction rule: rtranclp_induct) auto
  with m assms(3) show ?thesis by (auto simp: forward_def)
qed

text \<open>A client that has answered a PING and opened a stream.\<close>

definition ping_run :: "conn_event list" where
  "ping_run = [Receive (Some [0, 0, 8, 6, 0]), Receive (Some [0, 0, 0, 0, 1, 2, 3, 4, 5, 6, 7, 8]), Create]"

definition after_ping :: Conn where
  "after_ping = snd (CreateStream (snd (Decode (Some [0, 0, 0, 0, 1, 2, 3, 4, 5, 6, 7, 8])
     (snd (Decode (Some [0, 0, 8, 6, 0]) (started True))))))"

lemma ping_run_steps: "conn_run (started True) ping_run after_ping"
proof -
  let ?c1 = "snd (Decode (Some [0, 0, 8, 6, 0]) (started True))"
  let ?c2 = "snd (Decode (Some [0, 0, 0, 0, 1, 2, 3, 4, 5, 6, 7, 8]) ?c1)"
  have ok: "fst (Decode (Some [0, 0, 8, 6, 0]) (started True)) = Ok ()"
    "fst (Decode (Some [0, 0, 0, 0, 1, 2, 3, 4, 5, 6, 7, 8]) ?c1) = Ok ()" by code_simp+
  have "conn_step (started True) (Receive (Some [0, 0, 8, 6, 0])) ?c1"
    by (rule conn_step.intros(1) [of _ _ "Ok ()"]) (use ok(1) in \<open>simp_all add: prod_eq_iff\<close>)
  moreover have "conn_step ?c1 (Receive (Some [0, 0, 0, 0, 1, 2, 3, 4, 5, 6, 7, 8])) ?c2"
    by (rule conn_step.intros(1) [of _ _ "Ok ()"]) (use ok(2) in \<open>simp_all add: prod_eq_iff\<close>)
  moreover have "conn_step ?c2 Create after_ping"
    by (rule conn_step.intros(2) [of _ "fst (CreateStream ?c2)"]) (simp add: after_ping_def)
  ultimately show ?thesis unfolding ping_run_def by (blast intro: conn_run.intros)
qed

lemma after_ping_ok: "conn_ok after_ping"
  using conn_run_keeps [OF ping_run_steps started_ok] by blast

theorem routing_table_invariant_witness: "conn_ok after_ping"
  by (rule routing_table_invariant [OF ping_run_steps])

theorem streams_move_forward_witness:
  "0 < length (heap (Abort after_ping)) \<and> streamID (heap (Abort after_ping) ! 0) = streamID (heap after_ping ! 0) \<and>
   lifecycle\<^sup>*\<^sup>* (st (heap after_ping ! 0)) (st (heap (Abort after_ping) ! 0))"
proof -
  have "conn_run after_ping [Give_up] (Abort after_ping)" by (blast intro: conn_run.intros conn_step.intros)
  moreover have "0 < length (heap after_ping)" by code_simp
  ultimately show ?thesis using streams_move_forward [OF ping_run_steps, of "[Give_up]" "Abort after_ping" 0] by simp
qed

section \<open>Waiting readers and writers\<close>

text \<open>
  \<open>Write\<close> from one wait to the next ends: with as much fuel as there are bytes left, and one, it is done,
  fails or waits for a window.
\<close>

lemma emit_data_result:
  assumes "emit_data sid r p e n c = (Ok (m, reason), c')"
  shows "m = n" "reason = blockingReasonMaxFrameSize"
  using assms by (auto simp: emit_data_def Let_def fail_def done_with_def split: outcome.splits option.splits)

lemma writeData_progress:
  assumes "writeData sid r p False c = (Ok (m, blockingReasonMaxFrameSize), c')" "p \<noteq> []" "0 < maxFrameSize c"
  shows "0 < m"
proof (rule ccontr)
  assume "\<not> 0 < m"
  let ?sw = "s_peerWindow (heap c ! r)" and ?cw = "c_peerWindow c"
  let ?min = "min (int (length p)) (min (maxFrameSize c) (min ?sw ?cw))"
  show False
  proof (cases "?min \<le> 0")
    case True
    then have "?min = ?sw \<or> ?min = ?cw" using assms(2,3) by (auto simp: min_def split: if_splits)
    with True assms(1) show False by (auto simp: writeData_def Let_def done_with_def split: if_splits)
  next
    case False
    then have "emit_data sid r p False (nat ?min) c = (Ok (m, blockingReasonMaxFrameSize), c')"
      using assms(1) by (simp add: writeData_def Let_def)
    with emit_data_result(1) False \<open>\<not> 0 < m\<close> show False by fastforce
  qed
qed

lemma frame_size_positive: "conn_ok c \<Longrightarrow> 0 < maxFrameSize c \<and> maxFrameSize c < 2 ^ 24"
proof -
  assume "conn_ok c"
  then have "AllowedMaxFrameSize (MaxFrameSize (peerSettings c))" by (simp add: conn_ok_def)
  then have "uint (16384 :: u32) \<le> uint (MaxFrameSize (peerSettings c))" "uint (MaxFrameSize (peerSettings c)) \<le> uint (16777215 :: u32)"
    unfolding AllowedMaxFrameSize_def word_le_def by blast+
  then show ?thesis by (simp add: maxFrameSize_def)
qed

text \<open>
  C20. \<open>Write\<close> does not spin while it holds the connection's lock: on a connection that fulfils the
  invariant it ends after at most one frame per byte, by being done, by an error, or by giving the
  lock back to wait for a window.
\<close>

theorem Write_ends:
  assumes "conn_ok c" "length p - n < fuel"
  shows "\<exists>res k c'. Write_round fuel r p n c = Some (res, k, c')"
  using assms
proof (induction fuel r p n c rule: Write_round.induct)
  case (2 fuel r p n c)
  obtain o1 c1 where w: "writeData (streamID (heap c ! r)) r (drop n p) False c = (o1, c1)"
    by (cases "writeData (streamID (heap c ! r)) r (drop n p) False c")
  show ?case
  proof (cases "n < length p \<and> data_allowed r c \<and> (\<exists>m. o1 = Ok (m, blockingReasonMaxFrameSize))")
    case True
    then obtain m where m: "o1 = Ok (m, blockingReasonMaxFrameSize)" by blast
    have "0 < m" using writeData_progress [of _ r "drop n p" c m c1] w m True frame_size_positive [OF 2(2)] by simp
    moreover have "conn_ok c1" using ok_writeData [OF 2(2), of "streamID (heap c ! r)" r "drop n p" False] w by simp
    ultimately have "\<exists>res k c'. Write_round fuel r p (n + m) c1 = Some (res, k, c')"
      using 2(1) w m True 2(3) by auto
    with True w m show ?thesis by simp
  next
    case False
    with w show ?thesis by (auto split: outcome.splits)
  qed
qed simp

theorem Write_ends_witness: "\<exists>res k c'. Write_round 4 0 [1, 2, 3] 0 after_ping = Some (res, k, c')"
  by (rule Write_ends) (rule after_ping_ok, simp)

end
