(* ===== verification/Http2_Decode_Laws.thy ===== *)
theory Http2_Decode_Laws
  imports Http2_Decode Http2_Frame_Laws
begin

text \<open>
  \<open>Decode\<close> implements a parser of one byte stream: \<open>frames\<close> below reads the bytes that are there,
  without a buffer and without calls. What the connection does with the bytes is what \<open>frames\<close> does
  with them, however they are cut into calls - but for a frame without payload whose header came in
  several calls, which waits for the next byte.
\<close>

section \<open>The byte stream\<close>

text \<open>The result, the connection, and the bytes that do not make up the next item yet.\<close>

function frames :: "Conn \<Rightarrow> u8 list \<Rightarrow> (conn_error, unit) outcome \<times> Conn \<times> u8 list" where
  "frames c bs =
     (case state c of
        WaitPreface \<Rightarrow>
          if length bs < 24 then (Ok (), c, bs)
          else if take 24 bs \<noteq> CONNECTION_PREFACE then (Err InvalidPreface, c, drop 24 bs)
          else frames (c\<lparr> state := WaitHeader \<rparr>) (drop 24 bs)
      | WaitHeader \<Rightarrow>
          if length bs < 9 then (Ok (), c, bs)
          else
            (case FrameHeader_DecodeExact (header c) (take 9 bs) of
               Panic \<Rightarrow> (Panic, c, drop 9 bs)
             | Err e \<Rightarrow> (Err (FrameErr e), c, drop 9 bs)
             | Ok h \<Rightarrow> frames (c\<lparr> header := h, state := HeaderRead \<rparr>) (drop 9 bs))
      | HeaderRead \<Rightarrow>
          let n = unat (Len (header c)) in
          if length bs < n then (Ok (), c, bs)
          else
            (case FrameBody_DecodeExact (header c) (take n bs) of
               Panic \<Rightarrow> (Panic, c, drop n bs)
             | Err e \<Rightarrow> (Err (FrameErr e), c, drop n bs)
             | Ok body \<Rightarrow>
                 (case handleBody body c of
                    (Ok _, c) \<Rightarrow> frames (if state c = HeaderRead then c\<lparr> state := WaitHeader \<rparr> else c) (drop n bs)
                  | (Err e, c) \<Rightarrow> (Err e, c, drop n bs)
                  | (Panic, c) \<Rightarrow> (Panic, c, drop n bs)))
      | GoneAway \<Rightarrow> if bs \<noteq> [] then (Err DataAfterGoaway, c, bs) else (Ok (), c, []))"
  by pat_completeness auto

termination
  by (relation "measure (\<lambda>(c, bs). 2 * length bs + (if state c = HeaderRead then 1 else 0))")
    (auto dest!: handleBody_keeps [OF sym])

declare frames.simps [simp del]

text \<open>What is left is read with the bytes that follow.\<close>

lemma frames_resume:
  "frames c bs = (Ok (), c', left) \<Longrightarrow> frames c (bs @ rest) = frames c' (left @ rest)"
proof (induction c bs rule: frames.induct)
  case (1 c bs)
  note eq = 1(4) [unfolded frames.simps [of c bs]] and unf = frames.simps [of c "bs @ rest"]
  show ?case
  proof (cases "state c")
    case WaitPreface
    show ?thesis
    proof (cases "length bs < 24")
      case True
      with eq WaitPreface show ?thesis by simp
    next
      case False
      with eq WaitPreface have "take 24 bs = CONNECTION_PREFACE"
        "frames (c\<lparr> state := WaitHeader \<rparr>) (drop 24 bs) = (Ok (), c', left)" by (auto split: if_splits)
      with 1(3) [OF WaitPreface] False WaitPreface show ?thesis unfolding unf by simp
    qed
  next
    case WaitHeader
    show ?thesis
    proof (cases "length bs < 9")
      case True
      with eq WaitHeader show ?thesis by simp
    next
      case False
      with eq WaitHeader obtain h where h: "FrameHeader_DecodeExact (header c) (take 9 bs) = Ok h"
        "frames (c\<lparr> header := h, state := HeaderRead \<rparr>) (drop 9 bs) = (Ok (), c', left)" by (auto split: outcome.splits)
      with 1(1) [OF WaitHeader False h] False WaitHeader show ?thesis unfolding unf by simp
    qed
  next
    case HeaderRead
    let ?n = "unat (Len (header c))"
    show ?thesis
    proof (cases "length bs < ?n")
      case True
      with eq HeaderRead show ?thesis by simp
    next
      case False
      with eq HeaderRead obtain body c1 where b: "FrameBody_DecodeExact (header c) (take ?n bs) = Ok body"
        "handleBody body c = (Ok (), c1)"
        "frames (if state c1 = HeaderRead then c1\<lparr> state := WaitHeader \<rparr> else c1) (drop ?n bs) = (Ok (), c', left)"
        by (auto simp: Let_def split: outcome.splits prod.splits)
      with 1(2) [OF HeaderRead refl False b(1) b(2) [symmetric] refl] False HeaderRead show ?thesis
        unfolding unf by simp
    qed
  next
    case GoneAway
    with eq show ?thesis by (simp split: if_splits)
  qed
qed

text \<open>The parser does not look at the buffer and the write signal.\<close>

definition on_conn :: "(Conn \<Rightarrow> Conn) \<Rightarrow> 'r \<times> Conn \<times> 'l \<Rightarrow> 'r \<times> Conn \<times> 'l" where
  "on_conn f x = (fst x, f (fst (snd x)), snd (snd x))"

lemma on_conn_simps [simp]: "on_conn f (r, c, l) = (r, f c, l)"
  by (simp add: on_conn_def)

lemma frames_unbuffered: "frames (with_buffer b w c) bs = on_conn (with_buffer b w) (frames c bs)"
proof (induction c bs rule: frames.induct)
  case (1 c bs)
  note unf = frames.simps [of "with_buffer b w c" bs] frames.simps [of c bs]
  show ?case
  proof (cases "state c")
    case WaitPreface
    with 1(3) [OF WaitPreface] show ?thesis unfolding unf by (simp add: unbuffered)
  next
    case WaitHeader
    with 1(1) [OF WaitHeader] show ?thesis unfolding unf by (simp add: unbuffered split: outcome.splits)
  next
    case HeaderRead
    let ?n = "unat (Len (header c))"
    show ?thesis
    proof (cases "length bs < ?n")
      case True
      with HeaderRead show ?thesis unfolding unf by simp
    next
      case False
      show ?thesis
      proof (cases "FrameBody_DecodeExact (header c) (take ?n bs)")
        case (Ok body)
        obtain r c1 where h: "handleBody body c = (r, c1)" by (cases "handleBody body c")
        with handleBody_unbuffered [of body b w c] have h': "handleBody body (with_buffer b w c) = (r, with_buffer b w c1)" by simp
        show ?thesis
        proof (cases r)
          case (Ok u)
          with 1(2) [OF HeaderRead refl False \<open>FrameBody_DecodeExact _ _ = _\<close> h [symmetric] Ok] h h' False HeaderRead
            \<open>FrameBody_DecodeExact _ _ = _\<close>
          show ?thesis unfolding unf by (simp add: Let_def unbuffered split: if_splits)
        qed (use h h' False HeaderRead \<open>FrameBody_DecodeExact _ _ = _\<close> in \<open>simp_all add: unf Let_def\<close>)
      qed (use False HeaderRead in \<open>simp_all add: unf Let_def\<close>)
    qed
  next
    case GoneAway
    then show ?thesis unfolding unf by simp
  qed
qed

section \<open>The loop reads the stream\<close>

abbreviation detached :: "Conn \<Rightarrow> Conn" where
  "detached c \<equiv> with_buffer [] False c"

text \<open>
  Nothing is buffered and a header without payload has been read: the loop got a nil slice for the
  empty payload, which it takes for missing input.
\<close>

definition stalled :: "Conn \<Rightarrow> bool" where
  "stalled c \<longleftrightarrow> state c = HeaderRead \<and> Len (header c) = 0 \<and> readBuffer c = []"

lemma TryGet_None:
  assumes "TryGetRequestedSizeBuffer buffer p n = (None, b, p')"
  shows "b = buffer @ slice_bytes p" "length b < n \<or> n = 0 \<and> b = []"
  using assms by (auto simp: TryGetRequestedSizeBuffer_def slice_bytes_def Let_def split: if_splits option.splits)

lemma TryGet_Some:
  assumes "TryGetRequestedSizeBuffer buffer p n = (Some bs, b, p')"
  shows "bs = take n (buffer @ slice_bytes p)"
    "frames d (drop n buffer @ drop (n - length buffer) (slice_bytes p) @ rest) = frames d (b @ slice_bytes p' @ rest)"
    "\<not> length (buffer @ slice_bytes p) < n"
  using assms by (auto simp: TryGetRequestedSizeBuffer_def slice_bytes_def Let_def split: if_splits option.splits)

text \<open>
  What the loop returned, as the parser sees it when it gets \<open>y\<close> and any bytes after it: an error is
  the parser's error, and otherwise the parser goes on from what the loop left.
\<close>

definition agrees ::
    "(conn_error, unit) outcome \<times> Conn \<Rightarrow> (u8 list \<Rightarrow> (conn_error, unit) outcome \<times> Conn \<times> u8 list) \<Rightarrow> bool" where
  "agrees x y \<longleftrightarrow>
     (case fst x of
        Ok _ \<Rightarrow> (\<forall>rest. y rest = frames (detached (snd x)) (readBuffer (snd x) @ rest)) \<and>
          (\<not> stalled (snd x) \<longrightarrow> frames (detached (snd x)) (readBuffer (snd x)) = (Ok (), detached (snd x), readBuffer (snd x)))
      | r \<Rightarrow> (\<forall>rest. fst (y rest) = r \<and> fst (snd (y rest)) = detached (snd x)))"

lemma agrees_Err [simp]: "agrees (Err e, c) y \<longleftrightarrow> (\<forall>rest. fst (y rest) = Err e \<and> fst (snd (y rest)) = detached c)"
  and agrees_Panic [simp]: "agrees (Panic, c) y \<longleftrightarrow> (\<forall>rest. fst (y rest) = Panic \<and> fst (snd (y rest)) = detached c)"
  by (simp_all add: agrees_def)

text \<open>Too little input: what is buffered is all there is.\<close>

lemma agrees_short:
  assumes "frames (detached c) b = (Ok (), detached c, b) \<or> stalled (c\<lparr> readBuffer := b \<rparr>)"
  shows "agrees (Ok (), c\<lparr> readBuffer := b \<rparr>) (\<lambda>rest. frames (detached c) (b @ rest))"
  using assms by (auto simp: agrees_def)

lemma loop_agrees: "agrees (conn_decode_loop c p) (\<lambda>rest. frames (detached c) (readBuffer c @ slice_bytes p @ rest))"
proof (induction c p rule: conn_decode_loop.induct)
  case (1 c p)
  let ?bs = "readBuffer c @ slice_bytes p"
  note unf = conn_decode_loop.simps [of c p]
  show ?case
  proof (cases "state c")
    case WaitPreface
    obtain o1 b p1 where t: "TryGetRequestedSizeBuffer (readBuffer c) p (length CONNECTION_PREFACE) = (o1, b, p1)"
      by (cases "TryGetRequestedSizeBuffer (readBuffer c) p (length CONNECTION_PREFACE)")
    show ?thesis
    proof (cases o1)
      case None
      with TryGet_None t have "b = ?bs" "length b < 24" by fastforce+
      then show ?thesis unfolding unf using t None WaitPreface
        using agrees_short [of c ?bs] by (simp add: frames.simps [of "detached c" ?bs])
    next
      case (Some buffer)
      note s = TryGet_Some [OF t [unfolded Some]]
      note ih = 1(3) [OF WaitPreface t [symmetric] Some refl refl]
      show ?thesis
      proof (cases "buffer = CONNECTION_PREFACE")
        case True
        with ih s t Some WaitPreface show ?thesis unfolding unf
          by (simp add: frames.simps [of "detached c"] unbuffered)
      next
        case False
        with s t Some WaitPreface show ?thesis unfolding unf by (simp add: frames.simps [of "detached c"])
      qed
    qed
  next
    case WaitHeader
    obtain o1 b p1 where t: "TryGetRequestedSizeBuffer (readBuffer c) p 9 = (o1, b, p1)"
      by (cases "TryGetRequestedSizeBuffer (readBuffer c) p 9")
    show ?thesis
    proof (cases o1)
      case None
      with TryGet_None t have "b = ?bs" "length b < 9" by fastforce+
      then show ?thesis unfolding unf using t None WaitHeader
        using agrees_short [of c ?bs] by (simp add: frames.simps [of "detached c" ?bs])
    next
      case (Some buffer)
      note s = TryGet_Some [OF t [unfolded Some]]
      note ih = 1(1) [OF WaitHeader t [symmetric] Some refl refl]
      show ?thesis
      proof (cases "FrameHeader_DecodeExact (header c) buffer")
        case (Ok h)
        with ih s t Some WaitHeader show ?thesis unfolding unf
          by (simp add: frames.simps [of "detached c"] unbuffered)
      qed (use s t Some WaitHeader in \<open>simp_all add: unf frames.simps [of "detached c"]\<close>)
    qed
  next
    case HeaderRead
    let ?n = "unat (Len (header c))"
    obtain o1 b p1 where t: "TryGetRequestedSizeBuffer (readBuffer c) p ?n = (o1, b, p1)"
      by (cases "TryGetRequestedSizeBuffer (readBuffer c) p ?n")
    show ?thesis
    proof (cases o1)
      case None
      with TryGet_None t have b: "b = ?bs" "length b < ?n \<or> ?n = 0 \<and> b = []" by fastforce+
      then have "frames (detached c) b = (Ok (), detached c, b) \<or> stalled (c\<lparr> readBuffer := b \<rparr>)"
        using HeaderRead by (auto simp: stalled_def frames.simps [of "detached c"] Let_def unat_eq_zero)
      then show ?thesis unfolding unf using t None HeaderRead agrees_short [of c b] b(1) by simp
    next
      case (Some buffer)
      note s = TryGet_Some [OF t [unfolded Some]]
      note ih = 1(2) [OF HeaderRead t [symmetric] Some refl refl]
      show ?thesis
      proof (cases "FrameBody_DecodeExact (header c) buffer")
        case (Ok body)
        let ?c = "c\<lparr> readBuffer := b \<rparr>"
        obtain r c1 where h: "handleBody body ?c = (r, c1)" by (cases "handleBody body ?c")
        have rb: "readBuffer c1 = b" using handleBody_keeps [OF h] by simp
        have h': "handleBody body (detached c) = (r, detached c1)"
          using handleBody_unbuffered [of body "[]" False ?c] h by simp
        have dx: "FrameBody_DecodeExact (header ?c) buffer = Ok body" using Ok by simp
        show ?thesis
        proof (cases r)
          case (Ok u)
          with ih [OF dx h [symmetric] Ok] s t Some HeaderRead h h' rb
            dx
          show ?thesis unfolding unf
            by (simp add: frames.simps [of "detached c"] Let_def unbuffered split: if_splits)
        qed (use s t Some HeaderRead h h' dx in
            \<open>simp_all add: unf frames.simps [of "detached c"] Let_def\<close>)
      qed (use s t Some HeaderRead in \<open>simp_all add: unf frames.simps [of "detached c"] Let_def\<close>)
    qed
  next
    case GoneAway
    then show ?thesis unfolding unf
      by (auto simp: agrees_def frames.simps [of "detached c"] stalled_def)
  qed
qed

section \<open>Input that comes in pieces\<close>

text \<open>One call of \<open>Decode\<close> for each piece, up to the first error.\<close>

primrec feed :: "u8 list list \<Rightarrow> unit conn_action" where
  "feed [] c = (Ok (), c)"
| "feed (p # ps) c = and_then (Decode (Some p) c) (\<lambda>_. feed ps)"

lemma Decode_cases:
  assumes "Decode p c = (r, c1)" "conn_decode_loop c p = (r', c')"
  shows "r = r'" "readBuffer c1 = readBuffer c'" "r = Ok () \<Longrightarrow> stalled c1 = stalled c'"
    "detached c1 = (if \<exists>e. r = Err e then detached (c'\<lparr> state := GoneAway \<rparr>) else detached c')"
  using assms by (auto simp: Decode_def notifyWritable_def stalled_def split: outcome.splits if_splits)

lemma Decode_agrees:
  assumes "Decode (Some p) c = (r, c1)"
  shows "case r of
      Ok _ \<Rightarrow> (\<forall>rest. frames (detached c) (readBuffer c @ p @ rest) = frames (detached c1) (readBuffer c1 @ rest)) \<and>
        (\<not> stalled c1 \<longrightarrow> frames (detached c1) (readBuffer c1) = (Ok (), detached c1, readBuffer c1))
    | _ \<Rightarrow> (\<forall>rest. fst (frames (detached c) (readBuffer c @ p @ rest)) = r)"
proof -
  obtain r' c' where l: "conn_decode_loop c (Some p) = (r', c')" by (cases "conn_decode_loop c (Some p)")
  from loop_agrees [of c "Some p"] l
  have a: "agrees (r', c') (\<lambda>rest. frames (detached c) (readBuffer c @ p @ rest))" by (simp add: slice_bytes_def)
  note d = Decode_cases [OF assms l]
  show ?thesis
  proof (cases r)
    case (Ok u)
    with d have "r' = Ok ()" "detached c1 = detached c'" "readBuffer c1 = readBuffer c'" "stalled c1 = stalled c'" by auto
    with a Ok show ?thesis by (simp add: agrees_def)
  qed (use a d in auto)
qed

lemma feed_reads_the_stream:
  assumes "feed ps c = (r, c')"
  shows "case r of
      Ok _ \<Rightarrow> frames (detached c) (readBuffer c @ concat ps) = frames (detached c') (readBuffer c') \<and>
        (\<not> stalled c' \<longrightarrow> ps \<noteq> [] \<longrightarrow>
          frames (detached c) (readBuffer c @ concat ps) = (Ok (), detached c', readBuffer c'))
    | _ \<Rightarrow> fst (frames (detached c) (readBuffer c @ concat ps)) = r"
proof -
  have "case r of
      Ok _ \<Rightarrow> (\<forall>rest. frames (detached c) (readBuffer c @ concat ps @ rest) = frames (detached c') (readBuffer c' @ rest)) \<and>
        (\<not> stalled c' \<longrightarrow> ps \<noteq> [] \<longrightarrow> frames (detached c') (readBuffer c') = (Ok (), detached c', readBuffer c'))
    | _ \<Rightarrow> (\<forall>rest. fst (frames (detached c) (readBuffer c @ concat ps @ rest)) = r)"
    using assms
  proof (induction ps arbitrary: c)
    case Nil
    then show ?case by auto
  next
    case (Cons p ps)
    obtain r1 c1 where d: "Decode (Some p) c = (r1, c1)" by (cases "Decode (Some p) c")
    note a = Decode_agrees [OF d]
    show ?case
    proof (cases r1)
      case (Ok u)
      then have f: "feed ps c1 = (r, c')" using Cons.prems d by simp
      from Cons.IH [OF f] show ?thesis
        using a Ok f by (cases ps; cases r) auto
    qed (use Cons.prems d a in auto)
  qed
  then show ?thesis
    by (cases r) (auto dest: spec [of _ "[]"])
qed

text \<open>
  C14. Decoding is parsing one byte stream: whatever the pieces in which the input comes, their outcome
  is that of reading the concatenation (after what was buffered) frame by frame. An error of the
  calls is the error of the stream; otherwise the stream goes on from the connection and the
  bytes that are left, and the connection has handled every frame that is complete, unless it is
  stalled.
\<close>

theorem Decode_reads_the_stream:
  assumes "feed ps c = (r, c')"
  shows "case r of
      Ok _ \<Rightarrow> frames (detached c) (readBuffer c @ concat ps) = frames (detached c') (readBuffer c') \<and>
        (\<not> stalled c' \<longrightarrow> ps \<noteq> [] \<longrightarrow>
          frames (detached c) (readBuffer c @ concat ps) = (Ok (), detached c', readBuffer c'))
    | _ \<Rightarrow> fst (frames (detached c) (readBuffer c @ concat ps)) = r"
  using feed_reads_the_stream [OF assms] .

text \<open>
  C18. How a stream of bytes is cut into reads does not matter: two ways to cut the same bytes that end
  without an error leave the connection in the same state (but for the write signal), if neither
  ends in a stalled state.
\<close>

theorem fragmentation_independent:
  assumes "concat ps = concat qs" "ps \<noteq> []" "qs \<noteq> []"
    "feed ps c = (Ok (), c1)" "feed qs c = (Ok (), c2)" "\<not> stalled c1" "\<not> stalled c2"
  shows "c1\<lparr> writeCh := False \<rparr> = c2\<lparr> writeCh := False \<rparr>"
proof -
  have "frames (detached c) (readBuffer c @ concat ps) = (Ok (), detached c1, readBuffer c1)"
    using feed_reads_the_stream [OF assms(4)] assms(2,6) by auto
  moreover have "frames (detached c) (readBuffer c @ concat ps) = (Ok (), detached c2, readBuffer c2)"
    using feed_reads_the_stream [OF assms(5)] assms(1,3,7) by auto
  ultimately have "detached c1 = detached c2 \<and> readBuffer c1 = readBuffer c2" by simp
  then show ?thesis by (cases c1; cases c2) simp
qed

section \<open>The frame that waits\<close>

text \<open>
  C23. A frame without payload whose header comes in two reads is not handled by the second one, although
  it is complete: the connection is stalled and the frame waits for the next byte of the peer.
  A DATA frame with END_STREAM, as \<open>Close\<close> sends it, is such a frame: its reader goes on waiting.
\<close>

theorem split_empty_frame_waits:
  assumes "state c = WaitHeader" "readBuffer c = []" "x \<noteq> []" "length (x @ y) = 9" "y \<noteq> []"
    "FrameHeader_DecodeExact (header c) (x @ y) = Ok h" "Len h = 0"
  shows "\<exists>c'. feed [x, y] c = (Ok (), c') \<and> stalled c' \<and> heap c' = heap c \<and> streams c' = streams c"
proof -
  have s: "length x < 9" using assms(4,5) by (cases y) auto
  have l1: "conn_decode_loop c (Some x) = (Ok (), c\<lparr> readBuffer := x \<rparr>)"
    using assms(1,2) s by (simp add: conn_decode_loop.simps [of c] TryGetRequestedSizeBuffer_def slice_bytes_def)
  define c1 where "c1 = snd (Decode (Some x) c)"
  have c1: "Decode (Some x) c = (Ok (), c1)" "state c1 = WaitHeader" "readBuffer c1 = x" "header c1 = header c"
      "heap c1 = heap c" "streams c1 = streams c"
    using l1 assms(1) by (simp_all add: c1_def Decode_def notifyWritable_def)
  let ?c2 = "c1\<lparr> readBuffer := [], header := h, state := HeaderRead \<rparr>"
  have "conn_decode_loop ?c2 None = (Ok (), ?c2)"
    using assms(7) by (simp add: conn_decode_loop.simps [of ?c2] TryGetRequestedSizeBuffer_def slice_bytes_def)
  then have "conn_decode_loop c1 (Some y) = (Ok (), ?c2)"
    using c1 assms(3,4,6) by (simp add: conn_decode_loop.simps [of c1] TryGetRequestedSizeBuffer_def slice_bytes_def)
  then have "\<exists>c'. Decode (Some y) c1 = (Ok (), c') \<and> stalled c' \<and> heap c' = heap c \<and> streams c' = streams c"
    using c1 assms(7) by (auto simp: Decode_def stalled_def notifyWritable_def)
  with c1(1) show ?thesis by auto
qed

section \<open>An example\<close>

text \<open>A client that has opened stream 1 and reads the header and the end of the peer's answer.\<close>

definition example_client :: Conn where
  "example_client = snd (CreateStream (snd (Start_conn (NewHTTP2Conn True))))"

definition answer :: "u8 list" where
  "answer = [0, 0, 0, 1, 4, 0, 0, 0, 1]"

definition end_of_data :: "u8 list" where
  "end_of_data = [0, 0, 0, 0, 1, 0, 0, 0, 1]"

definition ping :: "u8 list" where
  "ping = [0, 0, 8, 6, 0, 0, 0, 0, 0, 1, 2, 3, 4, 5, 6, 7, 8]"

lemma outcome_pair: "fst x = r \<Longrightarrow> x = (r, snd x)"
  by (cases x) simp

theorem Decode_reads_the_stream_witness:
  "frames (detached example_client) (answer @ end_of_data) =
     (Ok (), detached (snd (feed [answer, end_of_data] example_client)), [])"
proof -
  have "fst (feed [answer, end_of_data] example_client) = Ok ()"
    "\<not> stalled (snd (feed [answer, end_of_data] example_client))"
    "readBuffer (snd (feed [answer, end_of_data] example_client)) = []" "readBuffer example_client = []"
    by code_simp+
  with Decode_reads_the_stream [OF outcome_pair [of "feed [answer, end_of_data] example_client" "Ok ()"]]
  show ?thesis by (auto simp del: feed.simps)
qed

theorem fragmentation_independent_witness:
  "(snd (feed [take 5 answer, drop 5 answer @ ping] example_client))\<lparr> writeCh := False \<rparr> =
   (snd (feed [answer, take 12 ping, drop 12 ping] example_client))\<lparr> writeCh := False \<rparr>"
proof -
  let ?ps = "[take 5 answer, drop 5 answer @ ping]" and ?qs = "[answer, take 12 ping, drop 12 ping]"
  have f: "fst (feed ?ps example_client) = Ok ()" "fst (feed ?qs example_client) = Ok ()"
    "\<not> stalled (snd (feed ?ps example_client))" "\<not> stalled (snd (feed ?qs example_client))"
    by code_simp+
  show ?thesis
    by (rule fragmentation_independent [OF _ _ _ outcome_pair [OF f(1)] outcome_pair [OF f(2)] f(3,4)])
      (simp_all add: answer_def ping_def)
qed

theorem split_empty_frame_waits_witness:
  "\<exists>c'. feed [[0, 0, 0, 0, 1], [0, 0, 0, 1]] example_client = (Ok (), c') \<and> stalled c' \<and>
     heap c' = heap example_client \<and> streams c' = streams example_client"
proof -
  let ?h = "\<lparr> len_type = 0, hdr_flags = 1, res_id = 1 \<rparr>"
  have "state example_client = WaitHeader" "readBuffer example_client = []"
    "FrameHeader_DecodeExact (header example_client) ([0, 0, 0, 0, 1] @ [0, 0, 0, 1]) = Ok ?h" "Len ?h = 0"
    by code_simp+
  then show ?thesis by (intro split_empty_frame_waits) simp_all
qed

end
