(* ===== verification/Hpack_Table_Laws.thy ===== *)
theory Hpack_Table_Laws
  imports Hpack_Table "HOL-Library.Sublist"
begin

text \<open>
  The dynamic table of HPACK keeps the longest run of the newest entries that fits, and an encoder
  and a decoder that start with equal tables stay synchronised: every field, and every block of
  fields, decodes to itself and leaves both ends with the same table.
\<close>

section \<open>Sizes\<close>

definition entry_size :: "KeyValue \<Rightarrow> nat" where
  "entry_size x = length (Key x) + length (Value x) + 32"

definition field_sum :: "KeyValue list \<Rightarrow> nat" where
  "field_sum es = sum_list (map entry_size es)"

lemma field_sum_simps [simp]:
  "field_sum [] = 0"
  "field_sum (x # es) = entry_size x + field_sum es"
  "field_sum (es @ es') = field_sum es + field_sum es'"
  by (simp_all add: field_sum_def)

lemma entry_size_pos [simp]: "0 < entry_size x"
  by (simp add: entry_size_def)

lemma field_sum_length: "32 * length es \<le> field_sum es"
  by (induction es) (auto simp: entry_size_def)

lemma SizeOfField_entry:
  assumes "entry_size x < 2 ^ 64"
  shows "SizeOfField (len64 (Key x)) (len64 (Value x)) = of_nat (entry_size x)"
  by (simp add: SizeOfField_def len64_def entry_size_def)

text \<open>The table counts its entries, and they fit.\<close>

definition table_ok :: "Table \<Rightarrow> bool" where
  "table_ok t \<longleftrightarrow> unat (table_size t) = field_sum (entries t) \<and> table_size t \<le> max_size t"

lemma NewTable_ok: "table_ok (NewTable limit)"
  by (simp add: NewTable_def table_ok_def)

text \<open>Dropping the oldest entries until the rest leaves room for \<open>need\<close>.\<close>

fun evict :: "nat \<Rightarrow> nat \<Rightarrow> KeyValue list \<Rightarrow> KeyValue list" where
  "evict need limit [] = []"
| "evict need limit (x # es) =
     (if field_sum (x # es) + need \<le> limit then x # es else evict need limit es)"

lemma evict_suffix: "suffix (evict need limit es) es"
  by (induction es) (auto intro: suffix_ConsI)

lemma evict_fits: "need \<le> limit \<Longrightarrow> field_sum (evict need limit es) + need \<le> limit"
  by (induction es) auto

lemma evict_none: "limit < need \<Longrightarrow> evict need limit es = []"
  by (induction es) auto

lemma suffix_field_sum: "suffix es es' \<Longrightarrow> field_sum es \<le> field_sum es'"
  by (auto simp: suffix_def)

lemma evict_longest:
  "suffix ys es \<Longrightarrow> field_sum ys + need \<le> limit \<Longrightarrow> suffix ys (evict need limit es)"
proof (induction es)
  case (Cons x es)
  show ?case
  proof (cases "ys = x # es")
    case True
    then show ?thesis using Cons.prems(2) by simp
  next
    case False
    then have "suffix ys es" using Cons.prems(1) by (simp add: suffix_Cons)
    then show ?thesis using Cons.IH Cons.prems by simp
  qed
qed simp

lemma evict_snoc:
  "evict 0 limit (es @ [x]) =
     (if entry_size x \<le> limit then evict (entry_size x) limit es @ [x] else [])"
  by (induction es) auto

lemma remove_loop_evict:
  "unat sz = field_sum es \<Longrightarrow> field_sum es + unat need < 2 ^ 64 \<Longrightarrow>
     remove_loop es sz limit need =
       Ok (evict (unat need) (unat limit) es, of_nat (field_sum (evict (unat need) (unat limit) es)))"
proof (induction es arbitrary: sz)
  case Nil
  then have "sz = 0" by (simp add: unat_eq_zero)
  then show ?case by simp
next
  case (Cons x es)
  have sum: "unat (sz + need) = field_sum (x # es) + unat need"
    using Cons.prems by (simp add: unat_add_lem [THEN iffD1])
  have sz: "sz = of_nat (field_sum (x # es))" unfolding Cons.prems(1) [symmetric] by simp
  show ?case
  proof (cases "sz + need > limit")
    case False
    then show ?thesis using sum sz by (simp add: word_less_nat_alt)
  next
    case True
    have "SizeOfField (len64 (Key x)) (len64 (Value x)) = of_nat (entry_size x)"
      by (rule SizeOfField_entry) (use Cons.prems in simp)
    then have less: "sz - SizeOfField (len64 (Key x)) (len64 (Value x)) = of_nat (field_sum es)"
      by (simp add: sz)
    have "unat (of_nat (field_sum es) :: u64) = field_sum es"
      by (rule unat_of_nat_small) (use Cons.prems(2) in simp)
    from Cons.IH [OF this] Cons.prems(2) True sum show ?thesis
      by (simp add: less word_less_nat_alt)
  qed
qed

lemma removeUntilLimit_evict:
  assumes "unat (table_size t) = field_sum (entries t)" "field_sum (entries t) + unat need < 2 ^ 64"
  shows "removeUntilLimit need t =
     Ok (t \<lparr> entries := evict (unat need) (unat (max_size t)) (entries t),
             table_size := of_nat (field_sum (evict (unat need) (unat (max_size t)) (entries t))) \<rparr>)"
  by (simp add: removeUntilLimit_def remove_loop_evict [OF assms])

lemma word_bounded: "unat (w :: u64) < 2 ^ 64"
  using unsigned_less [of w] by simp

lemma evict_size:
  "unat (of_nat (field_sum (evict need (unat (limit :: u64)) es)) :: u64) =
     field_sum (evict need (unat limit) es)"
proof (cases "need \<le> unat limit")
  case True
  then have "field_sum (evict need (unat limit) es) < 2 ^ 64"
    using evict_fits [of need "unat limit" es] word_bounded [of limit] by linarith
  then show ?thesis by (intro unat_of_nat_small) simp
next
  case False
  then show ?thesis by (simp add: evict_none)
qed

lemma update_max_size_evict:
  assumes "table_ok t"
  shows "\<exists>t'. update_max_size limit t = Ok t' \<and> entries t' = evict 0 (unat limit) (entries t) \<and>
             max_size t' = limit \<and> table_ok t'"
proof -
  have t: "unat (table_size t) = field_sum (entries t)" using assms by (simp add: table_ok_def)
  have sum: "field_sum (entries t) < 2 ^ 64" unfolding t [symmetric] by (rule word_bounded)
  have "update_max_size limit t =
      Ok (t \<lparr> max_size := limit, entries := evict 0 (unat limit) (entries t),
            table_size := of_nat (field_sum (evict 0 (unat limit) (entries t))) \<rparr>)"
    unfolding update_max_size_def
    using removeUntilLimit_evict [of "t \<lparr> max_size := limit \<rparr>" 0] t sum by simp
  then show ?thesis
    using evict_fits [of 0 "unat limit" "entries t"]
    by (simp add: table_ok_def evict_size word_le_nat_alt)
qed

lemma table_insert_evict:
  assumes "table_ok t" "field_sum (entries t) + entry_size \<lparr> Key = key, Value = val \<rparr> < 2 ^ 64"
  shows "\<exists>t'. table_insert key val t = Ok t' \<and>
     entries t' = evict 0 (unat (max_size t)) (entries t @ [\<lparr> Key = key, Value = val \<rparr>]) \<and>
     max_size t' = max_size t \<and> table_ok t'"
proof -
  let ?x = "\<lparr> Key = key, Value = val \<rparr>"
  let ?n = "of_nat (entry_size ?x) :: u64"
  let ?es = "evict (entry_size ?x) (unat (max_size t)) (entries t)"
  have t: "unat (table_size t) = field_sum (entries t)" using assms by (simp add: table_ok_def)
  have n: "unat ?n = entry_size ?x" by (rule unat_of_nat_small) (use assms(2) in simp)
  have field: "SizeOfField (len64 key) (len64 val) = ?n" using SizeOfField_entry [of ?x] assms(2) by simp
  have removed: "removeUntilLimit ?n t = Ok (t \<lparr> entries := ?es, table_size := of_nat (field_sum ?es) \<rparr>)"
    using removeUntilLimit_evict [OF t, of ?n] assms(2) unfolding n by blast
  show ?thesis
  proof (cases "?n > max_size t")
    case True
    then have "unat (max_size t) < entry_size ?x" by (simp add: word_less_nat_alt n)
    then show ?thesis using True
      by (simp add: table_insert_def field removed evict_snoc evict_none table_ok_def)
  next
    case False
    then have le: "entry_size ?x \<le> unat (max_size t)" by (simp add: word_less_nat_alt n)
    have fits: "field_sum ?es + entry_size ?x \<le> unat (max_size t)" by (rule evict_fits [OF le])
    have "unat (of_nat (field_sum ?es) + ?n) = field_sum ?es + entry_size ?x"
      using unat_of_nat_small [of "field_sum ?es + entry_size ?x", where 'a = 64] fits
        word_bounded [of "max_size t"] by simp
    then show ?thesis using False fits le
      by (simp add: table_insert_def field removed evict_snoc table_ok_def word_le_nat_alt)
  qed
qed

text \<open>
  C25. Inserting a field keeps the table well-formed and evicts the oldest entries as RFC 7541 4.4 asks:
  what is left is the longest run of the newest entries, the new one included, whose size is
  within the limit. It never panics.
\<close>

theorem table_insert_correct:
  assumes "table_ok t" "field_sum (entries t) + entry_size \<lparr> Key = key, Value = val \<rparr> < 2 ^ 64"
  shows "\<exists>t'. table_insert key val t = Ok t' \<and> table_ok t' \<and> max_size t' = max_size t \<and>
     suffix (entries t') (entries t @ [\<lparr> Key = key, Value = val \<rparr>]) \<and>
     field_sum (entries t') \<le> unat (max_size t) \<and>
     (\<forall>ys. suffix ys (entries t @ [\<lparr> Key = key, Value = val \<rparr>]) \<longrightarrow> field_sum ys \<le> unat (max_size t) \<longrightarrow>
            suffix ys (entries t'))"
proof -
  obtain t' where t': "table_insert key val t = Ok t'"
    "entries t' = evict 0 (unat (max_size t)) (entries t @ [\<lparr> Key = key, Value = val \<rparr>])"
    "max_size t' = max_size t" "table_ok t'"
    using table_insert_evict [OF assms] by blast
  have "field_sum (entries t') + 0 \<le> unat (max_size t)"
    unfolding t'(2) by (rule evict_fits) simp
  moreover have "suffix ys (entries t')"
    if "suffix ys (entries t @ [\<lparr> Key = key, Value = val \<rparr>])" "field_sum ys \<le> unat (max_size t)" for ys
    unfolding t'(2) by (rule evict_longest) (use that in simp_all)
  moreover have "suffix (entries t') (entries t @ [\<lparr> Key = key, Value = val \<rparr>])"
    unfolding t'(2) by (rule evict_suffix)
  ultimately show ?thesis using t' by auto
qed

theorem table_insert_correct_witness:
  "\<exists>t'. table_insert [97] [98] (NewTable 40) = Ok t' \<and> table_ok t' \<and> max_size t' = 40 \<and>
     suffix (entries t') [\<lparr> Key = [97], Value = [98] \<rparr>] \<and> field_sum (entries t') \<le> 40 \<and>
     (\<forall>ys. suffix ys [\<lparr> Key = [97], Value = [98] \<rparr>] \<longrightarrow> field_sum ys \<le> 40 \<longrightarrow> suffix ys (entries t'))"
  using table_insert_correct [OF NewTable_ok, of 40 "[97]" "[98]"] by (simp add: NewTable_def entry_size_def)

text \<open>
  C26. A size update from the peer, whatever its value, keeps the table well-formed, never panics,
  and leaves the longest run of the newest entries that fits the new limit.
\<close>

theorem update_max_size_correct:
  assumes "table_ok t"
  shows "\<exists>t'. update_max_size limit t = Ok t' \<and> table_ok t' \<and> max_size t' = limit \<and>
     suffix (entries t') (entries t) \<and>
     (\<forall>ys. suffix ys (entries t) \<longrightarrow> field_sum ys \<le> unat limit \<longrightarrow> suffix ys (entries t'))"
proof -
  obtain t' where t': "update_max_size limit t = Ok t'" "entries t' = evict 0 (unat limit) (entries t)"
    "max_size t' = limit" "table_ok t'"
    using update_max_size_evict [OF assms] by blast
  moreover have "suffix ys (entries t')" if "suffix ys (entries t)" "field_sum ys \<le> unat limit" for ys
    unfolding t'(2) by (rule evict_longest) (use that in simp_all)
  ultimately show ?thesis by (auto intro: evict_suffix)
qed

theorem update_max_size_correct_witness:
  "\<exists>t'. update_max_size 0 (NewTable 40) = Ok t' \<and> table_ok t' \<and> max_size t' = 0 \<and>
     suffix (entries t') [] \<and> (\<forall>ys. suffix ys [] \<longrightarrow> field_sum ys \<le> 0 \<longrightarrow> suffix ys (entries t'))"
  using update_max_size_correct [OF NewTable_ok, of 0 40] by (simp add: NewTable_def)

section \<open>Lookups\<close>

lemma predefinedHeaders_length: "length predefinedHeaders = 62"
  by (simp add: predefinedHeaders_def)

text \<open>
  An index from \<open>2 ^ 63\<close> on panics, with or without a table: as an \<open>int\<close> it is negative, which
  selects the static table, and the index expression is out of range. Every other index returns.
\<close>

theorem Lookup_panics_iff: "Lookup table index = Panic \<longleftrightarrow> 2 ^ 63 \<le> unat index"
proof (cases "2 ^ 63 \<le> unat index")
  case True
  from sint_big [OF True] have "sint index < int (length predefinedHeaders)"
    by (simp add: predefinedHeaders_length)
  moreover have "index \<noteq> 0" using True by auto
  ultimately show ?thesis using True by (simp add: Lookup_def predefinedHeaders_length)
next
  case False
  then have s: "sint index = int (unat index)" by (intro sint_small) simp
  have "\<not> unat index \<ge> 62" if "sint index < 62" using that unfolding s by presburger
  then show ?thesis using False
    by (auto simp: Lookup_def predefinedHeaders_length Let_def split: option.splits)
qed

definition opt_ok :: "Table option \<Rightarrow> bool" where
  "opt_ok table \<longleftrightarrow> (\<forall>t. table = Some t \<longrightarrow> table_ok t)"

lemma table_ok_length: "table_ok t \<Longrightarrow> length (entries t) < 2 ^ 59"
  using field_sum_length [of "entries t"] word_bounded [of "table_size t"] by (simp add: table_ok_def)

lemma find_field_Some:
  "find_field p i xs = Some (j, x) \<Longrightarrow> i \<le> j \<and> j < i + length xs \<and> xs ! (j - i) = x \<and> p x"
proof (induction xs arbitrary: i)
  case (Cons y ys)
  show ?case
  proof (cases "p y")
    case True
    then show ?thesis using Cons.prems by auto
  next
    case False
    then have "i + 1 \<le> j \<and> j < i + 1 + length ys \<and> ys ! (j - (i + 1)) = x \<and> p x"
      using Cons.IH [of "i + 1"] Cons.prems by simp
    moreover from this have "j - i = Suc (j - (i + 1))" by linarith
    ultimately show ?thesis by simp
  qed
qed simp

lemma ReverseLookup_Lookup:
  assumes "ReverseLookup table key val only = Some m" "opt_ok table"
  shows "Lookup table (entry_index m) = Ok m" "field_matches only key val (keyvalue m)" "entry_index m \<noteq> 0"
proof -
  have "Lookup table (entry_index m) = Ok m \<and> field_matches only key val (keyvalue m) \<and> entry_index m \<noteq> 0"
  proof (cases "find_field (field_matches only key val) 0 (tl predefinedHeaders)")
    case (Some ix)
    obtain i x where ix: "ix = (i, x)" by (cases ix)
    from Some have "find_field (field_matches only key val) 0 (tl predefinedHeaders) = Some (i, x)"
      by (simp add: ix)
    from find_field_Some [OF this] have i: "i < 61" "tl predefinedHeaders ! i = x" "field_matches only key val x"
      by (simp_all add: predefinedHeaders_length)
    have m: "m = \<lparr> keyvalue = x, entry_index = of_nat (i + 1) \<rparr>"
      using assms(1) Some by (simp add: ReverseLookup_def ix add.commute)
    have n: "unat (of_nat (i + 1) :: u64) = i + 1" by (rule unat_of_nat_small) (use i(1) in simp)
    then have "sint (of_nat (i + 1) :: u64) = int (i + 1)" using i(1) sint_small [of "of_nat (i + 1)"] by simp
    moreover have "of_nat (i + 1) \<noteq> (0 :: u64)" using n by (metis Suc_eq_plus1 nat.distinct(1) unat_0)
    moreover have "predefinedHeaders ! (i + 1) = x" using i by (simp add: nth_tl predefinedHeaders_length)
    ultimately show ?thesis using i n
      by (simp only: m Lookup_def predefinedHeaders_length KeyValEntry.simps) simp
  next
    case None
    then obtain t j x where t: "table = Some t"
      and f: "find_field (field_matches only key val) 0 (entries t) = Some (j, x)"
      and m: "m = \<lparr> keyvalue = x, entry_index = word_of_int (slot t (int j)) + len64 predefinedHeaders \<rparr>"
      using assms(1) by (auto simp: ReverseLookup_def split: option.splits)
    from find_field_Some [OF f] have j: "j < length (entries t)" "entries t ! j = x" "field_matches only key val x"
      by simp_all
    let ?k = "length (entries t) - 1 - j + 62"
    have small: "length (entries t) < 2 ^ 59" using assms(2) t table_ok_length by (simp add: opt_ok_def)
    have slot: "slot t (int j) = int (length (entries t) - 1 - j)"
      using j(1) by (simp add: slot_def of_nat_diff)
    have k: "word_of_int (slot t (int j)) + len64 predefinedHeaders = (of_nat ?k :: u64)"
      unfolding slot by (simp add: len64_def predefinedHeaders_length)
    have n: "unat (of_nat ?k :: u64) = ?k" by (rule unat_of_nat_small) (use small in simp)
    then have s: "sint (of_nat ?k :: u64) = int ?k" using small sint_small [of "of_nat ?k"] by simp
    have nz: "of_nat ?k \<noteq> (0 :: u64)" using n by (metis add_is_0 unat_0 zero_neq_numeral)
    have idx: "nat (slot t (int ?k - 62)) = j" using j(1) by (simp add: slot_def of_nat_diff)
    have "Lookup table (of_nat ?k) = Ok \<lparr> keyvalue = x, entry_index = of_nat ?k \<rparr>"
      unfolding Lookup_def t s predefinedHeaders_length
      using j idx by (simp add: Let_def of_nat_diff)
    then show ?thesis using j(3) nz unfolding m k by (simp only: KeyValEntry.simps) simp
  qed
  then show "Lookup table (entry_index m) = Ok m" "field_matches only key val (keyvalue m)" "entry_index m \<noteq> 0"
    by blast+
qed

text \<open>
  What \<open>ReverseLookup\<close> finds, in the static or in the dynamic table, \<open>Lookup\<close> finds under the
  index it returns: the same entry, with the key asked for, and with the value unless only the key
  was to match. The index is never zero, which stands for a literal name.
\<close>

theorem ReverseLookup_correct:
  assumes "\<forall>t. table = Some t \<longrightarrow> table_ok t" "ReverseLookup table key val only_hdr_equal = Some m"
  shows "Lookup table (entry_index m) = Ok m \<and> entry_index m \<noteq> 0 \<and> Key (keyvalue m) = key \<and>
     (\<not> only_hdr_equal \<longrightarrow> Value (keyvalue m) = val)"
  using ReverseLookup_Lookup [OF assms(2)] assms(1)
  by (auto simp: opt_ok_def field_matches_def split: if_splits)

theorem ReverseLookup_correct_witness:
  "Lookup None 8 = Ok \<lparr> keyvalue = \<lparr> Key = bytes '':status'', Value = bytes ''200'' \<rparr>, entry_index = 8 \<rparr>"
proof -
  have "ReverseLookup None (bytes '':status'') (bytes ''200'') False =
      Some \<lparr> keyvalue = \<lparr> Key = bytes '':status'', Value = bytes ''200'' \<rparr>, entry_index = 8 \<rparr>"
    by (simp add: ReverseLookup_def predefinedHeaders_def field_matches_def bytes_def)
  from ReverseLookup_correct [OF _ this] show ?thesis by simp
qed

section \<open>Codecs with a state\<close>

text \<open>
  A codec whose two ends keep a state: encoding and decoding an item, from equal states, leaves
  equal states. A sequence of items encodes one after the other, and decodes to itself.
\<close>

fun encode_all :: "('s \<Rightarrow> 'a \<Rightarrow> ('e, 'b list \<times> 's) outcome) \<Rightarrow> 's \<Rightarrow> 'a list \<Rightarrow> ('e, 'b list \<times> 's) outcome" where
  "encode_all encode s [] = Ok ([], s)"
| "encode_all encode s (a # as) =
     bind_outcome (encode s a) (\<lambda>(bs, s).
     bind_outcome (encode_all encode s as) (\<lambda>(bs', s). Ok (bs @ bs', s)))"

inductive decodes :: "('s \<Rightarrow> 'b list \<Rightarrow> ('e, 'a \<times> 'b list \<times> 's) outcome) \<Rightarrow> 's \<Rightarrow> 'b list \<Rightarrow> 'a list \<Rightarrow> 's \<Rightarrow> bool"
  for decode where
  "decodes decode s [] [] s"
| "bs \<noteq> [] \<Longrightarrow> decode s bs = Ok (a, bs', s') \<Longrightarrow> decodes decode s' bs' as s'' \<Longrightarrow>
     decodes decode s bs (a # as) s''"

inductive_cases decodes_nil: "decodes decode s [] as s'"

inductive_simps decodes_cons: "decodes decode s (b # bs) as s'"

locale stateful_codec =
  fixes encode :: "'s \<Rightarrow> 'a \<Rightarrow> ('e, 'b list \<times> 's) outcome"
    and decode :: "'s \<Rightarrow> 'b list \<Rightarrow> ('f, 'c \<times> 'b list \<times> 's) outcome"
    and view :: "'a \<Rightarrow> 'c"
    and ok :: "'s \<Rightarrow> bool"
    and valid :: "'a \<Rightarrow> bool"
  assumes decode_encode:
      "ok s \<Longrightarrow> valid a \<Longrightarrow> encode s a = Ok (bs, s') \<Longrightarrow> decode s (bs @ r) = Ok (view a, r, s')"
    and encode_ok: "ok s \<Longrightarrow> valid a \<Longrightarrow> encode s a = Ok (bs, s') \<Longrightarrow> ok s'"
    and encode_nonempty: "ok s \<Longrightarrow> valid a \<Longrightarrow> encode s a = Ok (bs, s') \<Longrightarrow> bs \<noteq> []"
begin

lemma decode_encode_all:
  "ok s \<Longrightarrow> list_all valid as \<Longrightarrow> encode_all encode s as = Ok (bs, s') \<Longrightarrow>
     decodes decode s bs (map view as) s' \<and> ok s'"
proof (induction as arbitrary: s bs)
  case Nil
  then show ?case by (auto intro: decodes.intros)
next
  case (Cons a as)
  obtain xs t ys where a: "encode s a = Ok (xs, t)" and as: "encode_all encode t as = Ok (ys, s')"
    and bs: "bs = xs @ ys"
    using Cons.prems(3) by auto
  have valid: "valid a" "list_all valid as" using Cons.prems by simp_all
  have "decodes decode t ys (map view as) s' \<and> ok s'"
    by (rule Cons.IH [OF encode_ok [OF Cons.prems(1) valid(1) a] valid(2) as])
  then show ?case
    using decode_encode [OF Cons.prems(1) valid(1) a, of ys] encode_nonempty [OF Cons.prems(1) valid(1) a]
    by (auto simp: bs intro: decodes.intros)
qed

end

section \<open>Fields\<close>

lemma MaskFieldType_prefix:
  assumes "ft \<noteq> FieldType_Unknown"
  shows "NOT (prefix_mask (FieldPrefixLen ft)) = MaskFieldType ft"
    "prefix_mask (FieldPrefixLen ft) AND MatchFieldType ft = 0" "FieldPrefixLen ft < 8"
  using assms by (cases ft; simp add: prefix_mask_def mask_eq_exp_minus_1)+

text \<open>The first byte of an integer carries the bits above the prefix, which name the field type.\<close>

lemma GetFieldType_match:
  assumes "MaskFieldType ft AND b = MatchFieldType ft" "ft \<noteq> FieldType_Unknown" "ft \<noteq> FieldType_DynTableUpdate"
  shows "GetFieldType b = ft"
proof -
  have sub: "MaskFieldType m AND b = MaskFieldType m AND MatchFieldType ft"
    if "MaskFieldType m AND MaskFieldType ft = MaskFieldType m" for m
    using that assms(1) by (metis and.assoc)
  note masks = sub [of FieldType_Index] sub [of FieldType_IndexLiteralInsert]
    sub [of FieldType_IndexLiteralNeverIndexed] sub [of FieldType_IndexLiteralNoInsert]
  show ?thesis using assms(2,3) masks by (cases ft) (simp_all add: GetFieldType_def IsFieldType_def)
qed

lemma integer_first_byte:
  assumes "n < 8" "prefix_mask n AND pre = 0" "integer_bytes n pre v = b # bs"
  shows "NOT (prefix_mask n) AND b = pre" "DecodeIntegerWithFirstByte (bs @ r) n b = Ok (v, r, pre)"
proof -
  have d: "DecodeIntegerWithFirstByte (bs @ r) n b = Ok (v, r, pre)" for r
    using DecodeInteger_bytes [OF assms(1,2), of v r] by (simp add: assms(3) DecodeInteger_def)
  then show "DecodeIntegerWithFirstByte (bs @ r) n b = Ok (v, r, pre)" .
  have "b AND NOT (prefix_mask n) = pre"
    using d [of "[]"] by (auto simp: DecodeIntegerWithFirstByte_def Let_def split: if_splits)
  then show "NOT (prefix_mask n) AND b = pre" by (simp add: and.commute)
qed

lemma field_first_byte:
  assumes "ft \<noteq> FieldType_Unknown" "ft \<noteq> FieldType_DynTableUpdate"
    "integer_bytes (FieldPrefixLen ft) (MatchFieldType ft) v = b # bs"
  shows "GetFieldType b = ft"
    "DecodeIntegerWithFirstByte (bs @ r) (FieldPrefixLen ft) b = Ok (v, r, MatchFieldType ft)"
  using integer_first_byte [OF MaskFieldType_prefix(3,2) [OF assms(1)] assms(3)]
    GetFieldType_match [OF _ assms(1,2)] MaskFieldType_prefix(1) [OF assms(1)] by simp_all

lemma choose_type_Ok:
  "choose_type entry indexed table mayAdd = Ok ft \<Longrightarrow>
     ft = FieldType_IndexLiteralInsert \<and> table \<noteq> None \<or>
     ft = FieldType_IndexLiteralNeverIndexed \<or> ft = FieldType_IndexLiteralNoInsert"
  by (auto simp: choose_type_def Let_def split: option.splits if_splits)

text \<open>
  What bounds of memory guarantee: the strings of a field are shorter than \<open>2 ^ 61\<close> bytes, and the
  limit of a table is below \<open>2 ^ 63\<close>.
\<close>

definition field_small :: "KeyValue \<Rightarrow> bool" where
  "field_small entry \<longleftrightarrow> length (Key entry) < 2 ^ 61 \<and> length (Value entry) < 2 ^ 61"

definition table_bounded :: "Table option \<Rightarrow> bool" where
  "table_bounded table \<longleftrightarrow> (\<forall>t. table = Some t \<longrightarrow> table_ok t \<and> unat (max_size t) < 2 ^ 63)"

lemma table_bounded_ok: "table_bounded table \<Longrightarrow> opt_ok table"
  by (simp add: table_bounded_def opt_ok_def)

lemma field_fits:
  assumes "table_bounded (Some t)" "field_small entry"
  shows "table_ok t" "field_sum (entries t) + entry_size \<lparr> Key = Key entry, Value = Value entry \<rparr> < 2 ^ 64"
  using assms by (auto simp: table_bounded_def field_small_def table_ok_def entry_size_def word_le_nat_alt)

text \<open>The strings of a literal field: its key unless that is indexed, and its value.\<close>

definition field_literal :: "AppendStringMode \<Rightarrow> bool \<Rightarrow> KeyValue \<Rightarrow> u8 list" where
  "field_literal mode indexed entry =
     (if indexed then [] else string_literal mode (Key entry)) @ string_literal mode (Value entry)"

lemma AppendField_literal:
  assumes "ReverseLookup table (Key entry) (Value entry) False = None"
    and mk: "mk = ReverseLookup table (Key entry) (Value entry) True"
    and "choose_type entry (mk \<noteq> None) table mayAdd = Ok ft"
  shows "AppendField b entry mode table mayAdd =
     bind_outcome (AppendInteger b (FieldPrefixLen ft) (MatchFieldType ft)
         (case mk of Some m \<Rightarrow> entry_index m | None \<Rightarrow> 0)) (\<lambda>b.
       if ft = FieldType_IndexLiteralInsert then
         (case table of
            None \<Rightarrow> Panic
          | Some t \<Rightarrow>
              bind_outcome (table_insert (Key entry) (Value entry) t)
                (\<lambda>t. Ok (b @ field_literal mode (mk \<noteq> None) entry, Some t)))
       else Ok (b @ field_literal mode (mk \<noteq> None) entry, table))"
  using assms(1,3)
  by (cases mk) (simp_all add: AppendField_def Let_def mk [symmetric] AppendString_literal field_literal_def
      cong: option.case_cong if_cong)

lemma AppendField_DecodeField:
  assumes "table_bounded table" "field_small entry" "AppendField b entry mode table mayAdd = Ok (b', table')"
  shows "\<exists>bs ft. b' = b @ bs \<and> bs \<noteq> [] \<and> table_bounded table' \<and>
     (\<forall>r. DecodeField table (bs @ r) = Ok (r, table', [(ft, Key entry, Value entry)]))"
proof (cases "ReverseLookup table (Key entry) (Value entry) False")
  case (Some m)
  let ?ft = FieldType_Index
  obtain x xs where bs: "integer_bytes (FieldPrefixLen ?ft) (MatchFieldType ?ft) (entry_index m) = x # xs"
    using integer_bytes_nonempty by (metis neq_Nil_conv)
  have "b' = b @ x # xs" "table' = table"
    using assms(3) Some AppendInteger_bytes [OF MaskFieldType_prefix(3,2), of ?ft b "entry_index m"] bs
    by (simp_all add: AppendField_def)
  moreover have "DecodeField table ((x # xs) @ r) = Ok (r, table, [(?ft, Key entry, Value entry)])" for r
    using field_first_byte [OF _ _ bs] ReverseLookup_Lookup [OF Some table_bounded_ok [OF assms(1)]]
    by (simp add: DecodeField_def Let_def field_matches_def)
  ultimately show ?thesis using assms(1)
    by (intro exI [of _ "x # xs"] exI [of _ ?ft]) simp
next
  case None
  define mk where "mk = ReverseLookup table (Key entry) (Value entry) True"
  define index where "index = (case mk of Some m \<Rightarrow> entry_index m | None \<Rightarrow> 0)"
  obtain ft where ft: "choose_type entry (mk \<noteq> None) table mayAdd = Ok ft"
    using assms(3) None by (auto simp: AppendField_def Let_def mk_def)
  note cases_ft = choose_type_Ok [OF ft]
  then have known: "ft \<noteq> FieldType_Unknown" "ft \<noteq> FieldType_DynTableUpdate" by auto
  obtain x xs where bs: "integer_bytes (FieldPrefixLen ft) (MatchFieldType ft) index = x # xs"
    using integer_bytes_nonempty by (metis neq_Nil_conv)
  define lit where "lit = field_literal mode (mk \<noteq> None) entry"
  have append: "AppendInteger b (FieldPrefixLen ft) (MatchFieldType ft) index = Ok (b @ x # xs)"
    using AppendInteger_bytes [OF MaskFieldType_prefix(3,2) [OF known(1)]] bs by simp
  have lens: "length (Key entry) < 2 ^ 61" "length (Value entry) < 2 ^ 61"
    using assms(2) by (simp_all add: field_small_def)
  have literal: "decode_literal table index (lit @ r) = Ok (Key entry, Value entry, r)" for r
  proof (cases mk)
    case None
    then show ?thesis
      by (simp add: decode_literal_def lit_def field_literal_def index_def DecodeString_literal [OF lens(1)] DecodeString_literal [OF lens(2)])
  next
    case (Some m)
    from ReverseLookup_Lookup [OF Some [unfolded mk_def] table_bounded_ok [OF assms(1)]] Some show ?thesis
      by (simp add: decode_literal_def lit_def field_literal_def index_def DecodeString_literal [OF lens(2)] field_matches_def)
  qed
  have ints: "DecodeIntegerWithFirstByte (xs @ lit @ r) (FieldPrefixLen ft) x = Ok (index, lit @ r, MatchFieldType ft)" for r
    by (rule field_first_byte(2) [OF known bs])
  note first = field_first_byte(1) [OF known bs]
  have app: "AppendField b entry mode table mayAdd =
      (if ft = FieldType_IndexLiteralInsert then
         (case table of None \<Rightarrow> Panic
          | Some t \<Rightarrow> bind_outcome (table_insert (Key entry) (Value entry) t) (\<lambda>t. Ok (b @ x # xs @ lit, Some t)))
       else Ok (b @ x # xs @ lit, table))"
    using AppendField_literal [OF None mk_def ft, of b mode, folded index_def lit_def] append
    by (simp cong: option.case_cong if_cong)
  show ?thesis
  proof (cases "ft = FieldType_IndexLiteralInsert")
    case True
    then obtain t where t: "table = Some t" using cases_ft by auto
    from table_insert_evict [OF field_fits [OF assms(1) [unfolded t] assms(2)]]
    obtain t' where t': "table_insert (Key entry) (Value entry) t = Ok t'" "table_ok t'" "max_size t' = max_size t"
      by blast
    have bounded: "table_bounded (Some t')" using assms(1) t'(2,3) by (simp add: t table_bounded_def)
    have "b' = b @ x # xs @ lit" "table' = Some t'"
      using assms(3) unfolding app by (simp_all add: True t t'(1))
    moreover have "DecodeField table ((x # xs @ lit) @ r) = Ok (r, Some t', [(ft, Key entry, Value entry)])" for r
      using ints [of r] literal [of r] t'(1) unfolding t True by (simp add: DecodeField_def Let_def first [unfolded True])
    ultimately show ?thesis using bounded by (intro exI [of _ "x # xs @ lit"] exI [of _ ft]) simp
  next
    case False
    have "b' = b @ x # xs @ lit" "table' = table" using assms(3) False unfolding app by simp_all
    moreover have "DecodeField table ((x # xs @ lit) @ r) = Ok (r, table, [(ft, Key entry, Value entry)])" for r
      using ints [of r] literal [of r] cases_ft False by (auto simp: DecodeField_def Let_def first)
    ultimately show ?thesis using assms(1) by (intro exI [of _ "x # xs @ lit"] exI [of _ ft]) simp
  qed
qed

text \<open>
  A field round-trips and the two tables stay equal: what \<open>AppendField\<close> appends for a field,
  indexed, as a literal that is inserted or as one that is not, \<open>DecodeField\<close> with an equal table
  reads back as the same key and value; it leaves the input after it, and a table equal to the
  encoder's.
\<close>

theorem AppendField_round_trip:
  assumes "table_bounded table" "field_small entry" "AppendField b entry mode table mayAdd = Ok (b', table')"
  shows "\<exists>bs ft. b' = b @ bs \<and> DecodeField table (bs @ r) = Ok (r, table', [(ft, Key entry, Value entry)])"
  using AppendField_DecodeField [OF assms] by blast

theorem AppendField_round_trip_witness:
  "\<exists>bs table'. AppendField [] \<lparr> Key = bytes ''x'', Value = bytes ''y'' \<rparr> ForceLiteral (Some (NewTable 4096))
      (Some (\<lambda>_ _. FieldType_IndexLiteralInsert)) = Ok (bs, table') \<and>
     (\<exists>ft. DecodeField (Some (NewTable 4096)) (bs @ [1]) = Ok ([1], table', [(ft, bytes ''x'', bytes ''y'')]))"
proof -
  let ?e = "\<lparr> Key = bytes ''x'', Value = bytes ''y'' \<rparr>"
  let ?t = "Some (NewTable 4096)" and ?f = "Some (\<lambda>_ _. FieldType_IndexLiteralInsert)"
  have none: "ReverseLookup ?t (Key ?e) (Value ?e) b = None" for b
    by (simp add: ReverseLookup_def predefinedHeaders_def field_matches_def bytes_def NewTable_def)
  have bounded: "table_bounded ?t" "field_small ?e"
    by (simp_all add: table_bounded_def NewTable_ok field_small_def bytes_def) (simp add: NewTable_def)
  obtain t' where "table_insert (Key ?e) (Value ?e) (NewTable 4096) = Ok t'"
    using table_insert_evict [OF field_fits [OF bounded]] by blast
  then obtain bs where a: "AppendField [] ?e ForceLiteral ?t ?f = Ok (bs, Some t')"
    using AppendInteger_bytes [of 6 64 "[]" 0] none
    by (simp add: AppendField_def choose_type_def AppendString_literal prefix_mask_def mask_eq_exp_minus_1)
  from AppendField_round_trip [OF bounded a, of "[1]"] a show ?thesis by auto
qed

text \<open>\<open>DecodeField\<close> as the decoder of one field: a size update is not one.\<close>

definition decode_one :: "Table option \<Rightarrow> u8 list \<Rightarrow> (hpack_error, KeyValue \<times> u8 list \<times> Table option) outcome" where
  "decode_one table r =
     bind_outcome (DecodeField table r) (\<lambda>(r', table', out).
       case out of
         [(ft, key, val)] \<Rightarrow> Ok (\<lparr> Key = key, Value = val \<rparr>, r', table')
       | _ \<Rightarrow> Err UnknownFieldType)"

lemma decode_one_Ok:
  assumes "decode_one s bs = Ok (a, bs', s')"
  shows "\<exists>ft key val. DecodeField s bs = Ok (bs', s', [(ft, key, val)]) \<and> a = \<lparr> Key = key, Value = val \<rparr>"
proof -
  obtain r t out where d: "DecodeField s bs = Ok (r, t, out)"
    using assms by (cases "DecodeField s bs") (auto simp: decode_one_def)
  then obtain o1 where "out = [o1]" using assms
    by (cases out rule: list.exhaust; cases "tl out") (auto simp: decode_one_def)
  with d assms show ?thesis by (cases o1) (auto simp: decode_one_def)
qed

definition encode_one ::
    "Table option \<Rightarrow> KeyValue \<times> AppendStringMode \<Rightarrow> (hpack_error, u8 list \<times> Table option) outcome" where
  "encode_one table item = AppendField [] (fst item) (snd item) table None"

lemma fields_codec: "stateful_codec encode_one decode_one fst table_bounded (\<lambda>item. field_small (fst item))"
proof
  fix s s' and a :: "KeyValue \<times> AppendStringMode" and bs :: "u8 list" and r
  assume a: "table_bounded s" "field_small (fst a)" "encode_one s a = Ok (bs, s')"
  note b = a(1,2) a(3) [unfolded encode_one_def]
  from AppendField_DecodeField [OF b] show "table_bounded s'" "bs \<noteq> []" by auto
  from AppendField_round_trip [OF b, of r] show "decode_one s (bs @ r) = Ok (fst a, r, s')"
    by (auto simp: decode_one_def)
qed

interpretation fields: stateful_codec encode_one decode_one fst table_bounded "\<lambda>item. field_small (fst item)"
  by (rule fields_codec)

lemma decodes_DecodeFields:
  "decodes decode_one table bs hdr table' \<Longrightarrow>
     \<exists>out. DecodeFields table bs = (Ok (), table', out) \<and> map snd out = map (\<lambda>x. (Key x, Value x)) hdr"
proof (induction rule: decodes.induct)
  case (1 s)
  then show ?case by (simp add: DecodeFields.simps)
next
  case (2 bs s a bs' s' as s'')
  obtain out where out: "DecodeFields s' bs' = (Ok (), s'', out)" "map snd out = map (\<lambda>x. (Key x, Value x)) as"
    using "2.IH" by blast
  have "\<exists>ft key val. DecodeField s bs = Ok (bs', s', [(ft, key, val)]) \<and> a = \<lparr> Key = key, Value = val \<rparr>"
    using "2.hyps"(2) by (rule decode_one_Ok)
  then obtain ft key val where "DecodeField s bs = Ok (bs', s', [(ft, key, val)])"
    "a = \<lparr> Key = key, Value = val \<rparr>" by blast
  then show ?case using out "2.hyps"(1) by (simp add: DecodeFields.simps [of s bs])
qed

text \<open>Appending to a buffer, and to the empty one.\<close>

lemma AppendInteger_buffer:
  "AppendInteger b n pre v = bind_outcome (AppendInteger [] n pre v) (\<lambda>bs. Ok (b @ bs))"
  by (simp add: AppendInteger_def Let_def)

lemma AppendField_buffer:
  "AppendField b entry mode table mayAdd =
     bind_outcome (AppendField [] entry mode table mayAdd) (\<lambda>(bs, table'). Ok (b @ bs, table'))"
proof (cases "ReverseLookup table (Key entry) (Value entry) False")
  case (Some m)
  then show ?thesis
    by (simp add: AppendField_def AppendInteger_buffer [of b])
       (cases "AppendInteger [] 7 128 (entry_index m)"; simp)
next
  case None
  define mk where "mk = ReverseLookup table (Key entry) (Value entry) True"
  let ?i = "case mk of Some m \<Rightarrow> entry_index m | None \<Rightarrow> 0"
  show ?thesis
  proof (cases "choose_type entry (mk \<noteq> None) table mayAdd")
    case (Ok ft)
    note app = AppendField_literal [OF None mk_def Ok]
    show ?thesis
    proof (cases "AppendInteger [] (FieldPrefixLen ft) (MatchFieldType ft) ?i")
      case (Ok bs)
      then show ?thesis unfolding app AppendInteger_buffer [of b]
        by (cases table; cases "table_insert (Key entry) (Value entry) (the table)") simp_all
    qed (simp_all add: app AppendInteger_buffer [of b])
  qed (simp_all add: AppendField_def Let_def None mk_def)
qed

lemma emit_fields_encode_all:
  "emit_fields hdr h = (Ok (), h') \<Longrightarrow>
     \<exists>bs. encode_all encode_one (encState h) hdr = Ok (bs, encState h') \<and> hpackBuffer h' = hpackBuffer h @ bs"
proof (induction hdr h rule: emit_fields.induct)
  case (1 h)
  then show ?case by simp
next
  case (2 kv mode hdr h)
  obtain buffer table where a: "AppendField (hpackBuffer h) kv mode (encState h) None = Ok (buffer, table)"
    using "2.prems" by (auto split: outcome.splits)
  then obtain bs where bs: "AppendField [] kv mode (encState h) None = Ok (bs, table)" "buffer = hpackBuffer h @ bs"
    by (auto simp: AppendField_buffer [of "hpackBuffer h"])
  from "2.IH" [OF a refl] "2.prems" a obtain bs' where
    "encode_all encode_one table hdr = Ok (bs', encState h')" "hpackBuffer h' = buffer @ bs'" by auto
  then show ?case using bs by (simp add: encode_one_def [of "encState h"])
qed

lemma packed_block_decodes:
  assumes "table_bounded (encState h)" "list_all (\<lambda>(kv, mode). field_small kv) hdr"
    "PackHeader hdr h = (Ok block, h')"
  shows "\<exists>out. DecodeFields (encState h) block = (Ok (), encState h', out) \<and>
     map snd out = map (\<lambda>(kv, mode). (Key kv, Value kv)) hdr"
proof -
  have e: "emit_fields hdr (h \<lparr> hpackBuffer := [] \<rparr>) = (Ok (), h')" "block = hpackBuffer h'"
    using assms(3) by (auto simp: PackHeader_def split: prod.splits outcome.splits)
  from emit_fields_encode_all [OF e(1)] e(2)
  have "encode_all encode_one (encState h) hdr = Ok (block, encState h')" by simp
  moreover have "list_all (\<lambda>item. field_small (fst item)) hdr" using assms(2) by (auto simp: list_all_iff)
  ultimately have "decodes decode_one (encState h) block (map fst hdr) (encState h')"
    using fields.decode_encode_all [OF assms(1)] by blast
  from decodes_DecodeFields [OF this] show ?thesis by (simp add: comp_def case_prod_unfold)
qed

text \<open>
  C24. A header block round-trips: what \<open>PackHeader\<close> returns for the fields the emitter emits,
  \<open>DecodeFields\<close> with a table equal to the packer's reads back as exactly these fields in order,
  without error, and the two tables are equal again afterwards.
\<close>

theorem PackHeader_DecodeFields:
  assumes "table_bounded (encState h)" "list_all (\<lambda>(kv, mode). field_small kv) hdr"
    "PackHeader hdr h = (Ok block, h')"
  shows "\<exists>out. DecodeFields (encState h) block = (Ok (), encState h', out) \<and>
     map snd out = map (\<lambda>(kv, mode). (Key kv, Value kv)) hdr"
  using packed_block_decodes [OF assms] .

theorem PackHeader_DecodeFields_witness:
  "\<exists>out. DecodeFields (Some (NewTable 4096)) [0x88] = (Ok (), Some (NewTable 4096), out) \<and>
     map snd out = [(bytes '':status'', bytes ''200'')]"
proof -
  let ?t = "Some (NewTable 4096)" and ?e = "\<lparr> Key = bytes '':status'', Value = bytes ''200'' \<rparr>"
  have "ReverseLookup ?t (Key ?e) (Value ?e) False = Some \<lparr> keyvalue = ?e, entry_index = 8 \<rparr>"
    by (simp add: ReverseLookup_def predefinedHeaders_def field_matches_def bytes_def)
  then have "PackHeader [(?e, BestEffort)] (newHPacker 4096) = (Ok [0x88], \<lparr> encState = ?t, hpackBuffer = [0x88] \<rparr>)"
    by (simp add: PackHeader_def newHPacker_def AppendField_def AppendInteger_def prefix_mask_def mask_eq_exp_minus_1 Let_def)
  moreover have "table_bounded ?t" by (simp add: table_bounded_def NewTable_ok) (simp add: NewTable_def)
  ultimately show ?thesis
    using PackHeader_DecodeFields [of "newHPacker 4096" "[(?e, BestEffort)]" "[0x88]"]
    by (simp add: newHPacker_def field_small_def bytes_def)
qed

end
