(* ===== verification/Http2_Flow.thy ===== *)
theory Http2_Flow
  imports Http2_Life Http2_Decode_Laws Hpack_Table_Laws
begin

text \<open>
  What a connection puts on the wire: the frames of \<open>writeData\<close> and \<open>writeHeader\<close> as the peer's parser
  reads them, the windows they are paid from, and the windows that are given back to the peer. Also
  what the code does where it does not do what it means to.
\<close>

section \<open>Frame headers as written\<close>

lemma frame_header_fields:
  assumes "n < 2 ^ 24"
  shows "unat (Len (frame_header sid ty n flags)) = n" "Type (frame_header sid ty n flags) = ty"
    "StreamId (frame_header sid ty n flags) = sid AND mask 31" "hdr_flags (frame_header sid ty n flags) = flags"
proof -
  have len: "Len (frame_header sid ty n flags) = of_nat n AND mask 24"
    by (simp add: frame_header_def Len_def SetLen_def SetType_def SetStreamId_def get_set_bits)
  have "take_bit 24 n = n" "take_bit 32 n = n" using assms by (simp_all add: take_bit_nat_eq_self)
  then show "unat (Len (frame_header sid ty n flags)) = n"
    by (simp add: len take_bit_eq_mask [symmetric] unsigned_take_bit_eq unsigned_of_nat)
  have "get_bits 0 8 (set_bits 8 24 (of_nat n) (set_bits 0 8 (ucast ty) (0 :: u32))) = ucast ty"
    by (rule bit_word_eqI) (auto simp: bit_get_bits bit_set_bits bit_simps dest: bit_imp_le_length)
  then show "Type (frame_header sid ty n flags) = ty"
    by (simp add: frame_header_def Type_def SetLen_def SetType_def SetStreamId_def zero_header_def) (rule bit_word_eqI, simp add: bit_simps)
  show "StreamId (frame_header sid ty n flags) = sid AND mask 31" "hdr_flags (frame_header sid ty n flags) = flags"
    by (simp_all add: frame_header_def StreamId_def SetLen_def SetType_def SetStreamId_def)
qed

lemma prepaereHeader_ok:
  assumes "int n \<le> maxFrameSize c" "ReservedFlag1 flags = 0" "reservedFlag2 flags = 0"
  shows "prepaereHeader sid ty n flags c = Ok (frame_header sid ty n flags, header_bytes (frame_header sid ty n flags))"
proof -
  have "header_ok (frame_header sid ty n flags)" using assms(2,3) by (simp add: header_ok_def frame_header_def)
  with assms(1) show ?thesis by (simp add: prepaereHeader_def FrameHeader_Append_ok Let_def)
qed

lemma small_frame: "conn_ok c \<Longrightarrow> int n \<le> maxFrameSize c \<Longrightarrow> n < 2 ^ 24"
  using frame_size_positive [of c] by auto

lemma frame_header_read:
  assumes "ReservedFlag1 flags = 0" "reservedFlag2 flags = 0"
  shows "FrameHeader_DecodeExact h0 (header_bytes (frame_header sid ty n flags)) = Ok (frame_header sid ty n flags)"
proof -
  have "header_ok (frame_header sid ty n flags)" using assms by (simp add: header_ok_def frame_header_def)
  from FrameHeader_Decode_bytes [OF this, of h0 "[]"] show ?thesis
    by (simp add: FrameHeader_DecodeExact_def decode_exact_def)
qed

text \<open>The flags the connection writes.\<close>

lemma plain_flags [simp]:
  "ReservedFlag1 0 = 0" "reservedFlag2 0 = 0"
  "ReservedFlag1 (SetEndStreamOrAck e 0) = 0" "reservedFlag2 (SetEndStreamOrAck e 0) = 0"
  "ReservedFlag1 (SetEndHeaders e 0) = 0" "reservedFlag2 (SetEndHeaders e 0) = 0"
  "flag_padding (SetEndStreamOrAck e 0) = 0" "flag_padding (SetEndHeaders e 0) = 0" "flag_padding 0 = 0"
  "flag_priority (SetEndHeaders e 0) = 0" "flag_priority 0 = 0"
  "EndStreamOrAck (SetEndStreamOrAck e 0) = e" "EndHeaders (SetEndHeaders e 0) = e" "EndHeaders 0 = False"
  "EndStreamOrAck (SetEndHeaders e 0) = False"
  by (cases e; simp add: ReservedFlag1_def reservedFlag2_def flag_padding_def flag_priority_def SetEndStreamOrAck_def
      SetEndHeaders_def EndStreamOrAck_def EndHeaders_def endStreamOrAck_def endHeaders_def bool_bit_def set_bits_def
      get_bits_def mask_eq_exp_minus_1)+

text \<open>A DATA or HEADERS body without padding is the payload.\<close>

lemma plain_bodies:
  assumes "flag_padding (hdr_flags h) = 0" "length bs = unat (Len h)"
  shows "Type h = H2Type_DATA \<Longrightarrow> FrameBody_DecodeExact h bs =
      Ok (Data \<lparr> data_PaddingLen = None, data_Data = bs, data_Padding = None \<rparr>)"
    "Type h = H2Type_HEADERS \<Longrightarrow> flag_priority (hdr_flags h) = 0 \<Longrightarrow> FrameBody_DecodeExact h bs =
      Ok (Headers \<lparr> headers_Priority = None, headers_PaddingLen = None, headers_Block = bs, headers_Padding = None \<rparr>)"
  using assms
  by (simp_all add: FrameBody_DecodeExact_def FrameBody_DecodeSlice_def DataFrame_DecodeSlice_def HeadersFrame_DecodeSlice_def
      decode_exact_def map_decoded_def read_padding_len_def read_padding_def data_len_def headers_len_def read_bytes_def)

section \<open>DATA\<close>

text \<open>One frame as the peer reads it: its header, and its body from the bytes after it.\<close>

definition reads_frame :: "u8 list \<Rightarrow> FrameHeader \<Rightarrow> FrameBody \<Rightarrow> bool" where
  "reads_frame bs h body \<longleftrightarrow>
     length bs = 9 + unat (Len h) \<and> FrameHeader_DecodeExact zero_header (take 9 bs) = Ok h \<and>
     FrameBody_DecodeExact h (drop 9 bs) = Ok body"

definition data_bytes :: "u32 \<Rightarrow> bool \<Rightarrow> u8 list \<Rightarrow> u8 list" where
  "data_bytes sid e bs = header_bytes (frame_header sid H2Type_DATA (length bs) (SetEndStreamOrAck e 0)) @ bs"

lemma data_bytes_read:
  assumes "length bs < 2 ^ 24"
  shows "\<exists>h. reads_frame (data_bytes sid e bs) h (Data \<lparr> data_PaddingLen = None, data_Data = bs, data_Padding = None \<rparr>) \<and>
    StreamId h = sid AND mask 31 \<and> EndStreamOrAck (hdr_flags h) = e"
proof -
  let ?h = "frame_header sid H2Type_DATA (length bs) (SetEndStreamOrAck e 0)"
  note f = frame_header_fields [OF assms, of sid H2Type_DATA "SetEndStreamOrAck e 0"]
  have "reads_frame (data_bytes sid e bs) ?h (Data \<lparr> data_PaddingLen = None, data_Data = bs, data_Padding = None \<rparr>)"
    using f plain_bodies(1) [of ?h bs] by (simp add: reads_frame_def frame_header_read data_bytes_def)
  with f show ?thesis by (intro exI [of _ ?h]) simp
qed

text \<open>What stays of a connection when frames are written.\<close>

definition same_conn :: "Conn \<Rightarrow> Conn \<Rightarrow> bool" where
  "same_conn c c' \<longleftrightarrow> state c' = state c \<and> streams c' = streams c \<and> continuationStreamID c' = continuationStreamID c \<and>
     length (heap c') = length (heap c)"

lemma emit_data_ok:
  assumes "conn_ok c" "r < length (heap c)" "n \<le> length p" "int n \<le> maxFrameSize c"
    "int n \<le> s_peerWindow (heap c ! r)" "int n \<le> c_peerWindow c"
  shows "\<exists>c'. emit_data sid r p e n c = (Ok (n, blockingReasonMaxFrameSize), c') \<and>
    c_peerWindow c' = c_peerWindow c - int n \<and> s_peerWindow (heap c' ! r) = s_peerWindow (heap c ! r) - int n \<and>
    writeBuffer c' = writeBuffer c @ data_bytes sid e (take n p) \<and> same_conn c c'"
proof -
  let ?h = "frame_header sid H2Type_DATA n (SetEndStreamOrAck e 0)"
  have pre: "prepaereHeader sid H2Type_DATA n (SetEndStreamOrAck e 0) c = Ok (?h, header_bytes ?h)"
    by (rule prepaereHeader_ok [OF assms(4)]) simp_all
  have "data_bytes sid e (take n p) = header_bytes ?h @ take n p" using assms(3) by (simp add: data_bytes_def)
  with assms pre show ?thesis
    by (intro exI [of _ "snd (emit_data sid r p e n c)"])
      (simp add: emit_data_def write_raw_def window_Consume_def upd_stream_def done_with_def notifyWritable_def
        same_conn_def Let_def)
qed

lemma writeData_sends:
  assumes "conn_ok c" "r < length (heap c)" "0 \<le> s_peerWindow (heap c ! r)" "0 \<le> c_peerWindow c"
    "writeData sid r p e c = (res, c')"
  shows "\<exists>n reason. res = Ok (n, reason) \<and> n \<le> length p \<and> int n \<le> maxFrameSize c \<and>
     int n \<le> s_peerWindow (heap c ! r) \<and> int n \<le> c_peerWindow c \<and>
     s_peerWindow (heap c' ! r) = s_peerWindow (heap c ! r) - int n \<and> c_peerWindow c' = c_peerWindow c - int n \<and>
     writeBuffer c' = writeBuffer c @ (if n = 0 \<and> \<not> e then [] else data_bytes sid e (take n p)) \<and> same_conn c c'"
proof -
  let ?min = "min (int (length p)) (min (maxFrameSize c) (min (s_peerWindow (heap c ! r)) (c_peerWindow c)))"
  have min: "0 \<le> ?min" using assms(3,4) frame_size_positive [OF assms(1)] by simp
  show ?thesis
  proof (cases "?min \<le> 0 \<and> \<not> e")
    case True
    then have "c' = c" "\<exists>reason. res = Ok (0, reason)" using assms(5) by (auto simp: writeData_def Let_def done_with_def)
    then show ?thesis using True min by (auto simp: same_conn_def)
  next
    case False
    define n where "n = nat ?min"
    have n: "n \<le> length p" "int n \<le> maxFrameSize c" "int n \<le> s_peerWindow (heap c ! r)" "int n \<le> c_peerWindow c"
      "\<not> (n = 0 \<and> \<not> e)"
      using min False by (auto simp: n_def)
    from False assms(5) have "emit_data sid r p e n c = (res, c')" by (simp only: writeData_def Let_def n_def if_False)
    with emit_data_ok [OF assms(1,2) n(1-4), of sid e] n show ?thesis by fastforce
  qed
qed

text \<open>
  C17. Flow control: \<open>writeData\<close> either writes nothing, because a window or the data is empty, or one DATA
  frame with a prefix of the data that fits the peer's frame size and both windows; the frame is
  taken from both windows, and the peer's decoder reads exactly that prefix on that stream, with the
  end of the stream marked as asked. It neither fails nor panics.
\<close>

theorem writeData_respects_windows:
  assumes "conn_ok c" "r < length (heap c)" "0 \<le> s_peerWindow (heap c ! r)" "0 \<le> c_peerWindow c"
    "writeData sid r p e c = (res, c')"
  shows "\<exists>n reason. res = Ok (n, reason) \<and> n \<le> length p \<and> int n \<le> maxFrameSize c \<and>
     int n \<le> s_peerWindow (heap c ! r) \<and> int n \<le> c_peerWindow c \<and>
     s_peerWindow (heap c' ! r) = s_peerWindow (heap c ! r) - int n \<and> c_peerWindow c' = c_peerWindow c - int n \<and>
     (if n = 0 \<and> \<not> e then writeBuffer c' = writeBuffer c
      else \<exists>h bs. writeBuffer c' = writeBuffer c @ bs \<and>
        reads_frame bs h (Data \<lparr> data_PaddingLen = None, data_Data = take n p, data_Padding = None \<rparr>) \<and>
        StreamId h = sid AND mask 31 \<and> EndStreamOrAck (hdr_flags h) = e)"
proof -
  from writeData_sends [OF assms] obtain n reason where w: "res = Ok (n, reason)" "n \<le> length p" "int n \<le> maxFrameSize c"
     "int n \<le> s_peerWindow (heap c ! r)" "int n \<le> c_peerWindow c"
     "s_peerWindow (heap c' ! r) = s_peerWindow (heap c ! r) - int n" "c_peerWindow c' = c_peerWindow c - int n"
     "writeBuffer c' = writeBuffer c @ (if n = 0 \<and> \<not> e then [] else data_bytes sid e (take n p))" by blast
  have "length (take n p) < 2 ^ 24" using small_frame [OF assms(1) w(3)] by simp
  from data_bytes_read [OF this, of sid e] w show ?thesis by (intro exI [of _ n] exI [of _ reason]) auto
qed

theorem writeData_respects_windows_witness:
  "\<exists>n reason. fst (writeData 1 0 [1, 2, 3] False after_ping) = Ok (n, reason) \<and> n \<le> 3 \<and>
     c_peerWindow (snd (writeData 1 0 [1, 2, 3] False after_ping)) = c_peerWindow after_ping - int n"
proof -
  have "0 < length (heap after_ping)" "0 \<le> s_peerWindow (heap after_ping ! 0)" "0 \<le> c_peerWindow after_ping"
    by code_simp+
  from writeData_respects_windows [OF after_ping_ok this, of 1 "[1, 2, 3]" False
      "fst (writeData 1 0 [1, 2, 3] False after_ping)" "snd (writeData 1 0 [1, 2, 3] False after_ping)"]
  show ?thesis by auto
qed

section \<open>Header blocks\<close>

text \<open>A block that fits one frame is one frame, with the end of the block marked.\<close>

definition block_bytes :: "u32 \<Rightarrow> u8 list \<Rightarrow> u8 list" where
  "block_bytes sid block =
     header_bytes (frame_header sid H2Type_HEADERS (length block) (SetEndHeaders True 0)) @ block"

lemma emit_headers_fits:
  assumes "int (length block) \<le> maxFrameSize c"
  shows "emit_headers sid block c = (Ok (), notifyWritable (write_raw (block_bytes sid block) c))"
proof -
  let ?flags = "SetEndHeaders True 0"
  have pre: "prepaereHeader sid H2Type_HEADERS (length block) ?flags c =
      Ok (frame_header sid H2Type_HEADERS (length block) ?flags, header_bytes (frame_header sid H2Type_HEADERS (length block) ?flags))"
    by (rule prepaereHeader_ok [OF assms]) simp_all
  have "nat (min (int (length block)) (maxFrameSize c)) = length block" using assms by simp
  with pre show ?thesis by (simp add: emit_headers_def Let_def done_with_def write_raw_def block_bytes_def)
qed

lemma maxFrameSize_write_raw: "maxFrameSize (write_raw bs c) = maxFrameSize c"
  by (simp add: write_raw_def maxFrameSize_def)

text \<open>A block that does not fit: the headers of the frames that \<open>appendContinuation\<close> writes.\<close>

fun continuation_headers :: "nat \<Rightarrow> u32 \<Rightarrow> u8 list \<Rightarrow> nat \<Rightarrow> FrameHeader list" where
  "continuation_headers 0 sid p m = []"
| "continuation_headers (Suc fuel) sid p m =
     (let n = min (length p) m in
      if n = length p then [frame_header sid H2Type_CONTINUATION n (SetEndHeaders True 0)]
      else frame_header sid H2Type_CONTINUATION n 0 # continuation_headers fuel sid (drop n p) m)"

definition written :: "FrameHeader list \<Rightarrow> u8 list" where
  "written hs = concat (map header_bytes hs)"

lemma appendContinuation_headers:
  "\<lbrakk> 0 < maxFrameSize c; length p < fuel \<rbrakk> \<Longrightarrow>
   appendContinuation fuel sid p c = Some (Ok (), write_raw (written (continuation_headers fuel sid p (nat (maxFrameSize c)))) c)"
proof (induction fuel arbitrary: p c)
  case (Suc fuel)
  let ?m = "nat (maxFrameSize c)"
  let ?n = "min (length p) ?m" and ?flags = "if min (length p) ?m = length p then SetEndHeaders True 0 else 0"
  let ?h = "header_bytes (frame_header sid H2Type_CONTINUATION ?n ?flags)"
  have n: "nat (min (int (length p)) (maxFrameSize c)) = ?n" by (cases "int (length p) \<le> maxFrameSize c") auto
  have pre: "prepaereHeader sid H2Type_CONTINUATION ?n ?flags c = Ok (frame_header sid H2Type_CONTINUATION ?n ?flags, ?h)"
    using Suc.prems(1) by (intro prepaereHeader_ok) auto
  show ?case
  proof (cases "?n = length p")
    case True
    with pre show ?thesis by (simp add: n Let_def written_def)
  next
    case False
    have w: "maxFrameSize (write_raw ?h c) = maxFrameSize c" by (rule maxFrameSize_write_raw)
    have "length (drop ?n p) < fuel" using Suc.prems False by auto
    then have "appendContinuation fuel sid (drop ?n p) (write_raw ?h c) =
        Some (Ok (), write_raw (written (continuation_headers fuel sid (drop ?n p) ?m)) (write_raw ?h c))"
      using Suc.IH [of "write_raw ?h c" "drop ?n p"] Suc.prems(1) by (simp only: w)
    with pre False show ?thesis by (simp add: n Let_def write_raw_def written_def)
  qed
qed simp

lemma continuation_headers_promise:
  "\<lbrakk> 0 < m; m < 2 ^ 24; length p < fuel; p \<noteq> [] \<rbrakk> \<Longrightarrow>
   (\<Sum>h\<leftarrow>continuation_headers fuel sid p m. unat (Len h)) = length p \<and>
   list_all (\<lambda>h. Type h = H2Type_CONTINUATION \<and> 0 < unat (Len h)) (continuation_headers fuel sid p m) \<and>
   length (continuation_headers fuel sid p m) * m < length p + m"
proof (induction fuel arbitrary: p)
  case (Suc fuel)
  let ?n = "min (length p) m"
  have f: "?n < 2 ^ 24" using Suc.prems(2) by simp
  show ?case
  proof (cases "?n = length p")
    case True
    with frame_header_fields [OF f] Suc.prems show ?thesis by (simp add: Let_def)
  next
    case False
    with Suc.prems have "length (drop ?n p) < fuel" "drop ?n p \<noteq> []" by auto
    from Suc.IH [OF Suc.prems(1,2) this] frame_header_fields [OF f] False Suc.prems show ?thesis by (auto simp: Let_def)
  qed
qed simp

lemma length_header_bytes [simp]: "length (header_bytes h) = 9"
  by (simp add: header_bytes_def)

text \<open>
  C21. A header block longer than the peer's frame size is cut: \<open>writeHeader\<close> succeeds, and writes a
  HEADERS frame with the first part, and then the headers of CONTINUATION frames that promise the rest
  of the block, one after the other; no byte of the rest is written.
\<close>

theorem long_header_block_is_cut:
  assumes "conn_ok c" "PackHeader hdr (encHpack c) = (Ok block, h')" "maxFrameSize c < int (length block)"
  defines "m \<equiv> nat (maxFrameSize c)"
  shows "\<exists>c' h hs. writeHeader sid hdr c = (Ok (), c') \<and>
     writeBuffer c' = writeBuffer c @ header_bytes h @ take m block @ written hs \<and>
     Type h = H2Type_HEADERS \<and> unat (Len h) = m \<and> \<not> EndHeaders (hdr_flags h) \<and>
     hs \<noteq> [] \<and> list_all (\<lambda>h. Type h = H2Type_CONTINUATION \<and> 0 < unat (Len h)) hs \<and>
     (\<Sum>h\<leftarrow>hs. unat (Len h)) = length block - m \<and> length hs * m < length block"
proof -
  let ?c = "c\<lparr> encHpack := h' \<rparr>" and ?h = "frame_header sid H2Type_HEADERS m 0"
  let ?hs = "continuation_headers (length block + 1) sid (drop m block) m"
  have "maxFrameSize ?c = maxFrameSize c" by (simp add: maxFrameSize_def)
  then have m: "0 < m" "m < 2 ^ 24" "m < length block" "maxFrameSize c = int m" "maxFrameSize ?c = int m" "0 < maxFrameSize c"
    using frame_size_positive [OF assms(1)] assms(3) by (simp_all add: m_def nat_less_iff)
  have pre: "prepaereHeader sid H2Type_HEADERS m 0 ?c = Ok (?h, header_bytes ?h)"
    by (rule prepaereHeader_ok) (simp_all add: m)
  have "appendContinuation (length block + 1) sid (drop m block) (write_raw (header_bytes ?h @ take m block) ?c) =
      Some (Ok (), write_raw (written ?hs) (write_raw (header_bytes ?h @ take m block) ?c))"
    using appendContinuation_headers [of "write_raw (header_bytes ?h @ take m block) ?c" "drop m block" "length block + 1" sid]
      m(1,3) unfolding maxFrameSize_write_raw m(5) nat_int by simp
  then have "writeHeader sid hdr c =
      (Ok (), notifyWritable (write_raw (written ?hs) (write_raw (header_bytes ?h @ take m block) ?c)))"
    using pre m assms(2)
    by (simp add: writeHeader_def emit_headers_def Let_def done_with_def write_raw_def
        del: appendContinuation.simps continuation_headers.simps)
  moreover have "?hs \<noteq> []" by (simp add: Let_def)
  ultimately show ?thesis
    using continuation_headers_promise [OF m(1,2), of "drop m block" "length block + 1" sid] m
      frame_header_fields [OF m(2), of sid H2Type_HEADERS 0]
    by (intro exI [of _ "notifyWritable (write_raw (written ?hs) (write_raw (header_bytes ?h @ take m block) ?c))"]
        exI [of _ ?h] exI [of _ ?hs]) (simp add: notifyWritable_def write_raw_def del: continuation_headers.simps)
qed

text \<open>A block of one byte for every field \<open>:status: 200\<close>.\<close>

lemma emit_status_fields:
  "emit_fields (replicate n (\<lparr> Key = bytes '':status'', Value = bytes ''200'' \<rparr>, BestEffort))
     \<lparr> encState = Some (NewTable 4096), hpackBuffer = b \<rparr> =
   (Ok (), \<lparr> encState = Some (NewTable 4096), hpackBuffer = b @ replicate n 0x88 \<rparr>)"
proof (induction n arbitrary: b)
  case (Suc n)
  have "ReverseLookup (Some (NewTable 4096)) (bytes '':status'') (bytes ''200'') False =
      Some \<lparr> keyvalue = \<lparr> Key = bytes '':status'', Value = bytes ''200'' \<rparr>, entry_index = 8 \<rparr>"
    by (simp add: ReverseLookup_def predefinedHeaders_def field_matches_def bytes_def)
  with Suc show ?case by (simp add: AppendField_def AppendInteger_def prefix_mask_def mask_eq_exp_minus_1 Let_def)
qed simp

theorem long_header_block_is_cut_witness:
  "\<exists>c'. writeHeader 1 (replicate 20000 (\<lparr> Key = bytes '':status'', Value = bytes ''200'' \<rparr>, BestEffort)) after_ping = (Ok (), c') \<and>
     length (writeBuffer c') < length (writeBuffer after_ping) + 20000"
proof -
  let ?hdr = "replicate 20000 (\<lparr> Key = bytes '':status'', Value = bytes ''200'' \<rparr>, BestEffort)"
  have c: "conn_ok after_ping" "encHpack after_ping = \<lparr> encState = Some (NewTable 4096), hpackBuffer = [] \<rparr>"
    "maxFrameSize after_ping = 16384"
    using after_ping_ok by (simp, code_simp+)
  then have p: "PackHeader ?hdr (encHpack after_ping) =
      (Ok (replicate 20000 0x88), \<lparr> encState = Some (NewTable 4096), hpackBuffer = replicate 20000 0x88 \<rparr>)"
    by (simp only: PackHeader_def emit_status_fields hpacker.simps append_Nil) simp
  have "maxFrameSize after_ping < int (length (replicate 20000 (0x88 :: u8)))" by (simp add: c)
  from long_header_block_is_cut [OF c(1) p this, of 1] obtain c' h hs where w: "writeHeader 1 ?hdr after_ping = (Ok (), c')"
    "writeBuffer c' = writeBuffer after_ping @ header_bytes h @ replicate 16384 0x88 @ written hs"
    "length hs * 16384 < 20000"
    by (auto simp: c)
  have "length (written hs) = 9 * length hs" by (simp add: written_def length_concat comp_def sum_list_triv)
  then have "length (writeBuffer c') < length (writeBuffer after_ping) + 20000" using w(3) by (simp add: w(2))
  with w(1) show ?thesis by blast
qed

section \<open>A request on its way\<close>

text \<open>One frame of the peer's stream of bytes: its header, its body, and what the connection does with it.\<close>

lemma frames_frame:
  assumes "state d = WaitHeader" "ReservedFlag1 flags = 0" "reservedFlag2 flags = 0" "length body_bytes < 2 ^ 24"
    "h = frame_header sid ty (length body_bytes) flags" "FrameBody_DecodeExact h body_bytes = Ok body"
    "handleBody body (d\<lparr> header := h, state := HeaderRead \<rparr>) = (Ok (), d1)" "state d1 = HeaderRead"
  shows "frames d (header_bytes h @ body_bytes @ rest) = frames (d1\<lparr> state := WaitHeader \<rparr>) rest"
proof -
  have "FrameHeader_DecodeExact (header d) (header_bytes h) = Ok h" unfolding assms(5) by (rule frame_header_read [OF assms(2,3)])
  moreover have "unat (Len h) = length body_bytes" unfolding assms(5) by (rule frame_header_fields [OF assms(4)])
  ultimately show ?thesis
    using assms(1,6,7,8) frames.simps [of d "header_bytes h @ body_bytes @ rest"]
      frames.simps [of "d\<lparr> header := h, state := HeaderRead \<rparr>" "body_bytes @ rest"]
    by simp
qed

text \<open>The stream a request opens, at the side that receives it.\<close>

definition add_fields :: "(KeyValue \<times> AppendStringMode) list \<Rightarrow> http_header" where
  "add_fields hdr = fold (\<lambda>(kv, mode). header_Add (Key kv) (Value kv)) hdr []"

lemma fold_snd: "fold (\<lambda>(x, key, val). f key val) xs = fold (\<lambda>(key, val). f key val) (map snd xs)"
  by (induction xs) (auto simp: fun_eq_iff)

lemma open_request:
  assumes "map_of (streams d) sid = None" "\<not> isThisSideInitiated sid d" "maxReceivedStreamID d \<le> sid"
    "continuationStreamID d = 0" "sid \<noteq> 0" "StreamId h = sid" "Type h = H2Type_HEADERS"
    "EndHeaders (hdr_flags h)" "\<not> EndStreamOrAck (hdr_flags h)"
    "DecodeFields (decHpack d) block = (Ok (), table, out)" "map snd out = map (\<lambda>(kv, mode). (Key kv, Value kv)) hdr"
  shows "\<exists>d1. handleBody (Headers \<lparr> headers_Priority = None, headers_PaddingLen = None, headers_Block = block,
        headers_Padding = None \<rparr>) (d\<lparr> header := h, state := HeaderRead \<rparr>) = (Ok (), d1) \<and>
      state d1 = HeaderRead \<and> map_of (streams d1) sid = Some (length (heap d)) \<and>
      st (heap d1 ! length (heap d)) = Open \<and> decHpack d1 = table \<and>
      receivedHeader (heap d1 ! length (heap d)) = Some (add_fields hdr) \<and>
      acceptQueue d1 = acceptQueue d @ [length (heap d)]"
proof -
  have "fold (\<lambda>(fieldType, key, val). header_Add key val) out [] = fold (\<lambda>(key, val). header_Add key val) (map snd out) []"
    by (rule fold_snd [THEN fun_cong])
  then have "fold (\<lambda>(fieldType, key, val). header_Add key val) out [] = add_fields hdr"
    by (simp add: assms(11) add_fields_def fold_map comp_def case_prod_unfold)
  with assms show ?thesis
    by (simp add: handleBody_def handleStreamLevelFrame_def find_or_open_def newHTTP2Stream_def isThisSideInitiated_def
        continuation_check_def handle_on_stream_def handle_headers_def handleHpackDecode_def mayHandleClose_def
        setState_def upd_stream_def done_with_def Let_def max_def update_conv')
qed

text \<open>
  C13. A request gets through: a header block that fits one frame, written by \<open>WriteHeaderOrdered\<close> on a
  new stream, is read by a peer that shares the compression table and waits for a frame - whatever
  follows it - as exactly these header fields on a new open stream, which is offered to \<open>AcceptStream\<close>;
  the two compression tables are equal again.
\<close>

theorem request_reaches_the_server:
  assumes "conn_ok c" "headers_allowed r c" "streamID (heap c ! r) = sid"
    "PackHeader (map (\<lambda>kv. (kv, mode)) kvs) (encHpack c) = (Ok block, h')" "int (length block) \<le> maxFrameSize c"
    "table_bounded (encState (encHpack c))" "list_all field_small kvs"
    "state d = WaitHeader" "decHpack d = encState (encHpack c)" "continuationStreamID d = 0"
    "map_of (streams d) sid = None" "\<not> isThisSideInitiated sid d" "maxReceivedStreamID d \<le> sid"
    "sid \<noteq> 0" "sid AND mask 31 = sid"
  shows "\<exists>c' d' bs. WriteHeaderOrdered r kvs mode c = (Ok (), c') \<and> writeBuffer c' = writeBuffer c @ bs \<and>
    (\<forall>rest. frames d (bs @ rest) = frames d' rest) \<and> state d' = WaitHeader \<and>
    decHpack d' = encState (encHpack c') \<and> map_of (streams d') sid = Some (length (heap d)) \<and>
    st (heap d' ! length (heap d)) = Open \<and> acceptQueue d' = acceptQueue d @ [length (heap d)] \<and>
    PeerHeader (length (heap d)) d' = Some (add_fields (map (\<lambda>kv. (kv, mode)) kvs))"
proof -
  let ?hdr = "map (\<lambda>kv. (kv, mode)) kvs" and ?c = "c\<lparr> encHpack := h' \<rparr>"
  let ?flags = "SetEndHeaders True 0"
  let ?h = "frame_header sid H2Type_HEADERS (length block) ?flags"
  let ?body = "Headers \<lparr> headers_Priority = None, headers_PaddingLen = None, headers_Block = block, headers_Padding = None \<rparr>"
  note f = frame_header_fields [OF small_frame [OF assms(1,5)], of sid H2Type_HEADERS ?flags]
  have "list_all (\<lambda>(kv, mode). field_small kv) ?hdr" using assms(7) by (simp add: list_all_iff)
  from packed_block_decodes [OF assms(6) this assms(4)] obtain out where
    out: "DecodeFields (decHpack d) block = (Ok (), encState h', out)" "map snd out = map (\<lambda>(kv, mode). (Key kv, Value kv)) ?hdr"
    using assms(9) by auto
  have fl: "EndHeaders (hdr_flags ?h)" "\<not> EndStreamOrAck (hdr_flags ?h)" unfolding f by simp_all
  obtain d1 where d1: "handleBody ?body (d\<lparr> header := ?h, state := HeaderRead \<rparr>) = (Ok (), d1)"
      "state d1 = HeaderRead" "map_of (streams d1) sid = Some (length (heap d))" "st (heap d1 ! length (heap d)) = Open"
      "decHpack d1 = encState h'" "receivedHeader (heap d1 ! length (heap d)) = Some (add_fields ?hdr)"
      "acceptQueue d1 = acceptQueue d @ [length (heap d)]"
    using open_request [OF assms(11-13,10,14) _ f(2) fl out] f(3) assms(15) by auto
  have "FrameBody_DecodeExact ?h block = Ok ?body" by (rule plain_bodies(2); unfold f; simp)
  then have r: "frames d (block_bytes sid block @ rest) = frames (d1\<lparr> state := WaitHeader \<rparr>) rest" for rest
    using frames_frame [OF assms(8) _ _ small_frame [OF assms(1,5)] refl _ d1(1,2), of rest] by (simp add: block_bytes_def)
  have "maxFrameSize ?c = maxFrameSize c" by (simp add: maxFrameSize_def)
  then have w: "writeHeader sid ?hdr c = (Ok (), notifyWritable (write_raw (block_bytes sid block) ?c))"
    using assms(4,5) emit_headers_fits [of block ?c sid] by (simp add: writeHeader_def Let_def)
  have "WriteHeaderOrdered r kvs mode c = open_idle r (notifyWritable (write_raw (block_bytes sid block) ?c))"
    using assms(2,3) w by (simp add: WriteHeaderOrdered_def)
  then show ?thesis using d1 r
    by (intro exI [of _ "snd (open_idle r (notifyWritable (write_raw (block_bytes sid block) ?c)))"]
        exI [of _ "d1\<lparr> state := WaitHeader \<rparr>"] exI [of _ "block_bytes sid block"])
      (simp add: open_idle_def done_with_def setState_def upd_stream_def PeerHeader_def notifyWritable_def write_raw_def Let_def)
qed

text \<open>A server that has read the connection preface.\<close>

definition example_server :: Conn where
  "example_server = snd (Decode (Some CONNECTION_PREFACE) (started False))"

theorem request_reaches_the_server_witness:
  "\<exists>c' d' bs. WriteHeaderOrdered 0 [\<lparr> Key = bytes '':method'', Value = bytes ''GET'' \<rparr>] BestEffort after_ping = (Ok (), c') \<and>
     writeBuffer c' = writeBuffer after_ping @ bs \<and> (\<forall>rest. frames example_server (bs @ rest) = frames d' rest) \<and>
     PeerHeader 0 d' = Some (add_fields [(\<lparr> Key = bytes '':method'', Value = bytes ''GET'' \<rparr>, BestEffort)])"
proof -
  let ?t = "Some (NewTable 4096)" and ?e = "\<lparr> Key = bytes '':method'', Value = bytes ''GET'' \<rparr>"
  have "ReverseLookup ?t (Key ?e) (Value ?e) False = Some \<lparr> keyvalue = ?e, entry_index = 2 \<rparr>"
    by (simp add: ReverseLookup_def predefinedHeaders_def field_matches_def bytes_def)
  then have p: "PackHeader (map (\<lambda>kv. (kv, BestEffort)) [?e]) \<lparr> encState = ?t, hpackBuffer = [] \<rparr> =
      (Ok [0x82], \<lparr> encState = ?t, hpackBuffer = [0x82] \<rparr>)"
    by (simp add: PackHeader_def AppendField_def AppendInteger_def prefix_mask_def mask_eq_exp_minus_1 Let_def)
  have c: "headers_allowed 0 after_ping" "streamID (heap after_ping ! 0) = 1"
    "encHpack after_ping = \<lparr> encState = ?t, hpackBuffer = [] \<rparr>" "maxFrameSize after_ping = 16384" by code_simp+
  have d: "state example_server = WaitHeader" "decHpack example_server = ?t" "continuationStreamID example_server = 0"
    "map_of (streams example_server) 1 = None" "\<not> isThisSideInitiated 1 example_server"
    "maxReceivedStreamID example_server \<le> 1" "length (heap example_server) = 0" by code_simp+
  have "table_bounded ?t" by (simp add: table_bounded_def NewTable_ok) (simp add: NewTable_def)
  then show ?thesis
    using request_reaches_the_server [of after_ping 0 1 BestEffort "[?e]" "[0x82]" _ example_server] after_ping_ok p c d
    by (simp add: field_small_def bytes_def mask_eq_exp_minus_1) blast
qed

section \<open>Windows\<close>

text \<open>A WINDOW_UPDATE frame, and what the receiver's window is filled up to.\<close>

definition grant :: "u32 \<Rightarrow> int \<Rightarrow> u8 list" where
  "grant sid k = header_bytes (frame_header sid H2Type_WINDOW_UPDATE 4 0) @ append31 (set_number31 (word_of_int k) 0)"

definition filled :: "int \<Rightarrow> int \<Rightarrow> int" where
  "filled i w = (if w < i div 2 then i else w)"

definition granted :: "u32 \<Rightarrow> int \<Rightarrow> int \<Rightarrow> u8 list" where
  "granted sid i w = (if w < i div 2 then grant sid (i - w) else [])"

lemma update_fields:
  "Len (frame_header sid H2Type_WINDOW_UPDATE 4 0) = 4" "Type (frame_header sid H2Type_WINDOW_UPDATE 4 0) = H2Type_WINDOW_UPDATE"
  "StreamId (frame_header sid H2Type_WINDOW_UPDATE 4 0) = sid AND mask 31"
  using frame_header_fields [of 4 sid H2Type_WINDOW_UPDATE 0] by (simp_all add: word_unat_eq_iff)

lemmas update_numbers = update_fields [simplified]

lemma reserved31_0 [simp]: "reserved31 0 = 0"
  by (simp add: reserved31_def get_bits_def)

lemma writeWindowUpdate_ok:
  assumes "conn_ok c"
  shows "writeWindowUpdate sid (word_of_int k) c = (Ok (), write_raw (grant sid k) c)"
proof -
  let ?h = "frame_header sid H2Type_WINDOW_UPDATE 4 0"
  have "AllowedMaxFrameSize (MaxFrameSize (peerSettings c))" using assms by (simp add: conn_ok_def)
  then have "(4 :: u32) \<le> MaxFrameSize (peerSettings c)" by (simp add: AllowedMaxFrameSize_def) unat_arith
  then have "int 4 \<le> maxFrameSize c" by (simp add: maxFrameSize_def word_le_def)
  then have "prepaereHeader sid H2Type_WINDOW_UPDATE 4 0 c = Ok (?h, header_bytes ?h)"
    by (rule prepaereHeader_ok) simp_all
  then show ?thesis
    by (simp add: update_numbers writeWindowUpdate_def must_append_def WindowUpdateFrame_Append_def write_raw_def grant_def)
qed

lemma replenish_fills:
  assumes "conn_ok c" "0 \<le> w"
  defines "i \<equiv> uint (InitialWindowSize (localSettings c))"
  shows "replenish sid w upd c =
    (Ok True, if w < i div 2 then upd (i - w) (write_raw (grant sid (i - w)) c) else c)"
proof -
  have "uint (InitialWindowSize (localSettings c) div 2) = i div 2" by (simp add: i_def uint_div_distrib)
  moreover have "\<not> i - w \<le> 0" if "w < i div 2" using that assms(2) by (auto simp: i_def)
  ultimately show ?thesis
    unfolding replenish_def Let_def i_def [symmetric] writeWindowUpdate_ok [OF assms(1)] by simp
qed

lemma grant_read: 
  assumes "state d = WaitHeader"
    "\<And>h. StreamId h = sid AND mask 31 \<Longrightarrow> Type h = H2Type_WINDOW_UPDATE \<Longrightarrow>
       handleBody (WindowUpdate (set_number31 (word_of_int k) 0)) (d\<lparr> header := h, state := HeaderRead \<rparr>) = (Ok (), f h)"
    "\<And>h. state (f h) = HeaderRead"
  shows "frames d (grant sid k @ rest) =
    frames ((f (frame_header sid H2Type_WINDOW_UPDATE 4 0))\<lparr> state := WaitHeader \<rparr>) rest"
proof -
  let ?h = "frame_header sid H2Type_WINDOW_UPDATE 4 0" and ?w = "set_number31 (word_of_int k) (0 :: u32)"
  have "FrameBody_DecodeExact ?h (append31 ?w) = Ok (WindowUpdate ?w)"
    by (simp add: update_numbers FrameBody_DecodeExact_def FrameBody_DecodeSlice_def WindowUpdateFrame_DecodeSlice_def
        decode_exact_def map_decoded_def read_bytes_def)
  then have "frames d (header_bytes ?h @ append31 ?w @ rest) = frames ((f ?h)\<lparr> state := WaitHeader \<rparr>) rest"
    using frames_frame [OF assms(1), of 0 "append31 ?w" ?h sid H2Type_WINDOW_UPDATE, OF _ _ _ _ _ assms(2) [OF update_fields(3,2)] assms(3)]
    by simp
  then show ?thesis by (simp add: grant_def)
qed

lemma window_Update_small: "0 \<le> w + k \<Longrightarrow> w + k < 2 ^ 32 \<Longrightarrow> window_Update k w = w + k"
  by (simp add: window_Update_def wrap64_def)

lemma initial_bound: "uint (w :: u32) < 2 ^ 32"
  using uint_bounded [of w] by simp

text \<open>What \<open>maySendWindowUpdate\<close> leaves of a stream, and of the connection.\<close>

lemma maySendWindowUpdate_ok:
  assumes "conn_ok c" "r < length (heap c)" "0 \<le> s_localWindow (heap c ! r)" "0 \<le> c_localWindow c"
  defines "i \<equiv> uint (InitialWindowSize (localSettings c))"
  shows "\<exists>c'. maySendWindowUpdate r c = (Ok (), c') \<and>
    s_localWindow (heap c' ! r) = filled i (s_localWindow (heap c ! r)) \<and> c_localWindow c' = filled i (c_localWindow c) \<and>
    writeBuffer c' = writeBuffer c @ granted (streamID (heap c ! r)) i (s_localWindow (heap c ! r)) @
      granted 0 i (c_localWindow c) \<and>
    streamData (heap c' ! r) = streamData (heap c ! r) \<and> st (heap c' ! r) = st (heap c ! r) \<and> state c' = state c"
proof -
  let ?s = "s_localWindow (heap c ! r)" and ?w = "c_localWindow c" and ?sid = "streamID (heap c ! r)"
  let ?upd = "\<lambda>k. upd_stream r (\<lambda>s. s\<lparr> s_localWindow := window_Update k (s_localWindow s) \<rparr>)"
  define c1 where "c1 = (if ?s < i div 2 then ?upd (i - ?s) (write_raw (grant ?sid (i - ?s)) c) else c)"
  have first: "replenish ?sid ?s ?upd c = (Ok True, c1)" unfolding c1_def i_def by (rule replenish_fills [OF assms(1,3)])
  have "conn_ok c1" using assms(1) by (auto simp: c1_def intro: ok_upd)
  moreover have c1: "c_localWindow c1 = ?w" "localSettings c1 = localSettings c"
    by (simp_all add: c1_def upd_stream_def write_raw_def)
  ultimately have second: "replenish 0 ?w (\<lambda>k c. c\<lparr> c_localWindow := window_Update k (c_localWindow c) \<rparr>) c1 =
      (Ok True, if ?w < i div 2 then (write_raw (grant 0 (i - ?w)) c1)\<lparr> c_localWindow := window_Update (i - ?w) ?w \<rparr> else c1)"
    using replenish_fills [of c1 ?w 0 "\<lambda>k c. c\<lparr> c_localWindow := window_Update k (c_localWindow c) \<rparr>"] assms(4)
    by (simp add: i_def write_raw_def)
  have full: "window_Update (i - x) x = i" for x
    using window_Update_small [of x "i - x"] initial_bound [of "InitialWindowSize (localSettings c)"] by (simp add: i_def)
  show ?thesis using first second assms(2)
    by (auto simp: maySendWindowUpdate_def c1 done_with_def full)
      (auto simp: c1_def upd_stream_def write_raw_def filled_def granted_def full)
qed

text \<open>What a stream becomes when its peer ends it.\<close>

definition remote_end :: "bool \<Rightarrow> H2StreamState \<Rightarrow> H2StreamState" where
  "remote_end e s = (if e \<and> s = Open then HalfClosedRemote else if e \<and> s = HalfClosedLocal then Close else s)"

lemma mayHandleClose_fields:
  assumes "r < length (heap d)"
  shows "s_localWindow (heap (mayHandleClose r d) ! r) = s_localWindow (heap d ! r)"
    "streamData (heap (mayHandleClose r d) ! r) = streamData (heap d ! r)"
    "streamID (heap (mayHandleClose r d) ! r) = streamID (heap d ! r)"
    "length (heap (mayHandleClose r d)) = length (heap d)"
    "st (heap (mayHandleClose r d) ! r) = remote_end (EndStreamOrAck (hdr_flags (header d))) (st (heap d ! r))"
    "localSettings (mayHandleClose r d) = localSettings d" "c_localWindow (mayHandleClose r d) = c_localWindow d"
    "writeBuffer (mayHandleClose r d) = writeBuffer d" "header (mayHandleClose r d) = header d"
    "state (mayHandleClose r d) = state d"
  using assms by (auto simp: mayHandleClose_def setState_def upd_stream_def notifyWindowUpdate_def notifyRead_def
      remote_end_def Let_def split: H2StreamState.splits)

lemma handle_data_ok:
  assumes "conn_ok d" "r < length (heap d)" "uint (Len (header d)) = n"
    "n \<le> s_localWindow (heap d ! r)" "n \<le> c_localWindow d"
  defines "i \<equiv> uint (InitialWindowSize (localSettings d))"
  shows "\<exists>d'. handle_data r bs d = (Ok (), d') \<and>
    s_localWindow (heap d' ! r) = filled i (s_localWindow (heap d ! r) - n) \<and>
    c_localWindow d' = filled i (c_localWindow d - n) \<and>
    writeBuffer d' = writeBuffer d @ granted (streamID (heap d ! r)) i (s_localWindow (heap d ! r) - n) @
      granted 0 i (c_localWindow d - n) \<and>
    streamData (heap d' ! r) = streamData (heap d ! r) @ bs \<and>
    st (heap d' ! r) = remote_end (EndStreamOrAck (hdr_flags (header d))) (st (heap d ! r)) \<and> state d' = state d"
proof -
  let ?m = "mayHandleClose r d"
  note m = mayHandleClose_fields [OF assms(2)]
  define c where "c = notifyRead r (upd_stream r (\<lambda>s. s\<lparr> streamData := streamData s @ bs \<rparr>)
    (upd_stream r (\<lambda>s. s\<lparr> s_localWindow := s_localWindow (heap d ! r) - n \<rparr>) (?m\<lparr> c_localWindow := c_localWindow d - n \<rparr>)))"
  have "conn_ok c" using ok_mayHandleClose [OF assms(1)] unfolding c_def notifyRead_def by (auto intro!: ok_upd)
  moreover have c: "s_localWindow (heap c ! r) = s_localWindow (heap d ! r) - n" "c_localWindow c = c_localWindow d - n"
    "streamID (heap c ! r) = streamID (heap d ! r)" "streamData (heap c ! r) = streamData (heap d ! r) @ bs"
    "st (heap c ! r) = remote_end (EndStreamOrAck (hdr_flags (header d))) (st (heap d ! r))" "r < length (heap c)"
    "localSettings c = localSettings d" "writeBuffer c = writeBuffer d" "state c = state d"
    using assms(2) m by (simp_all add: c_def notifyRead_def upd_stream_def)
  ultimately have "\<exists>d'. maySendWindowUpdate r c = (Ok (), d') \<and>
    s_localWindow (heap d' ! r) = filled i (s_localWindow (heap c ! r)) \<and> c_localWindow d' = filled i (c_localWindow c) \<and>
    writeBuffer d' = writeBuffer c @ granted (streamID (heap c ! r)) i (s_localWindow (heap c ! r)) @
      granted 0 i (c_localWindow c) \<and>
    streamData (heap d' ! r) = streamData (heap c ! r) \<and> st (heap d' ! r) = st (heap c ! r) \<and> state d' = state c"
    using maySendWindowUpdate_ok [of c r] assms(4,5) by (simp add: i_def)
  moreover have "handle_data r bs d = maySendWindowUpdate r c"
    using assms(3-5) m by (simp add: handle_data_def Let_def window_Consume_def c_def upd_stream_def)
  ultimately show ?thesis using c by simp
qed

section \<open>Data and credit\<close>

lemma increment_number: "0 \<le> k \<Longrightarrow> k < 2 ^ 31 \<Longrightarrow> uint (word_of_int k AND mask 31 :: u32) = k"
  by (simp add: take_bit_eq_mask [symmetric] unsigned_take_bit_eq take_bit_int_eq_self uint_word_of_int_eq)

lemma stream_grant_read:
  assumes "state c = WaitHeader" "continuationStreamID c = 0" "map_of (streams c) sid = Some r" "r < length (heap c)"
    "sid \<noteq> 0" "sid AND mask 31 = sid" "0 \<le> k" "k < 2 ^ 31" "0 \<le> s_peerWindow (heap c ! r)" "s_peerWindow (heap c ! r) + k < 2 ^ 32"
  shows "\<exists>c'. (\<forall>rest. frames c (grant sid k @ rest) = frames c' rest) \<and> state c' = WaitHeader \<and>
    s_peerWindow (heap c' ! r) = s_peerWindow (heap c ! r) + k \<and> c_peerWindow c' = c_peerWindow c \<and>
    length (heap c') = length (heap c)"
proof -
  let ?f = "\<lambda>h. notifyWindowUpdate r (upd_stream r (\<lambda>s. s\<lparr> s_peerWindow := window_Update k (s_peerWindow s) \<rparr>)
    (c\<lparr> header := h, state := HeaderRead \<rparr>))"
  have "frames c (grant sid k @ rest) = frames ((?f (frame_header sid H2Type_WINDOW_UPDATE 4 0))\<lparr> state := WaitHeader \<rparr>) rest" for rest
    by (rule grant_read [OF assms(1)])
      (use assms in \<open>simp_all add: handleBody_def handleStreamLevelFrame_def find_or_open_def continuation_check_def
        handle_on_stream_def done_with_def increment_number notifyWindowUpdate_def upd_stream_def Let_def\<close>)
  with assms(4,7,9,10) show ?thesis
    by (intro exI [of _ "(?f (frame_header sid H2Type_WINDOW_UPDATE 4 0))\<lparr> state := WaitHeader \<rparr>"])
      (simp add: notifyWindowUpdate_def upd_stream_def window_Update_small)
qed

lemma fold_notify:
  "\<exists>hp. fold (\<lambda>(sid, r). notifyWindowUpdate r) xs c = c\<lparr> heap := hp \<rparr> \<and> length hp = length (heap c) \<and>
     (\<forall>r < length hp. s_peerWindow (hp ! r) = s_peerWindow (heap c ! r))"
proof (induction xs arbitrary: c)
  case Nil
  show ?case by (intro exI [of _ "heap c"]) simp
next
  case (Cons x xs)
  let ?c = "notifyWindowUpdate (snd x) c"
  from Cons.IH [of ?c] obtain hp where "fold (\<lambda>(sid, r). notifyWindowUpdate r) xs ?c = ?c\<lparr> heap := hp \<rparr>"
    "length hp = length (heap ?c)" "\<forall>r < length hp. s_peerWindow (hp ! r) = s_peerWindow (heap ?c ! r)" by blast
  moreover have "s_peerWindow (heap ?c ! r) = s_peerWindow (heap c ! r)" for r
    unfolding notifyWindowUpdate_def upd_stream_def by simp (rule nth_update_keeps, simp)
  ultimately show ?case
    by (intro exI [of _ hp]) (simp add: case_prod_unfold, simp add: notifyWindowUpdate_def upd_stream_def)
qed

lemma conn_grant_read:
  assumes "state c = WaitHeader" "0 \<le> k" "k < 2 ^ 31" "0 \<le> c_peerWindow c" "c_peerWindow c + k < 2 ^ 32" "r < length (heap c)"
  shows "\<exists>c'. (\<forall>rest. frames c (grant 0 k @ rest) = frames c' rest) \<and>
    s_peerWindow (heap c' ! r) = s_peerWindow (heap c ! r) \<and> c_peerWindow c' = c_peerWindow c + k"
proof -
  let ?c = "\<lambda>h. c\<lparr> header := h, state := HeaderRead, c_peerWindow := c_peerWindow c + k \<rparr>"
  let ?f = "\<lambda>h. fold (\<lambda>(sid, r). notifyWindowUpdate r) (streams c) (?c h)"
  let ?h = "frame_header 0 H2Type_WINDOW_UPDATE 4 0"
  have st: "state (?f h) = HeaderRead" for h using fold_notify [of "streams c" "?c h"] by auto
  have "frames c (grant 0 k @ rest) = frames ((?f ?h)\<lparr> state := WaitHeader \<rparr>) rest" for rest
    by (rule grant_read [OF assms(1) _ st])
      (use assms in \<open>simp add: handleBody_def handleConnectionLevelFrame_def done_with_def increment_number window_Update_small\<close>)
  moreover obtain hp where "?f ?h = (?c ?h)\<lparr> heap := hp \<rparr>" "length hp = length (heap c)"
      "s_peerWindow (hp ! r) = s_peerWindow (heap c ! r)"
    using fold_notify [of "streams c" "?c ?h"] assms(6) by auto
  ultimately show ?thesis by (intro exI [of _ "(?f ?h)\<lparr> state := WaitHeader \<rparr>"]) simp
qed

lemma data_read:
  assumes "conn_ok d" "map_of (streams d) sid = Some q" "sid \<noteq> 0" "sid AND mask 31 = sid" "state d = WaitHeader"
    "continuationStreamID d = 0" "st (heap d ! q) \<noteq> Idle" "st (heap d ! q) \<noteq> Close" "length bs < 2 ^ 24"
    "int (length bs) \<le> s_localWindow (heap d ! q)" "int (length bs) \<le> c_localWindow d"
  defines "i \<equiv> uint (InitialWindowSize (localSettings d))"
  shows "\<exists>d'. (\<forall>rest. frames d (data_bytes sid e bs @ rest) = frames d' rest) \<and>
    s_localWindow (heap d' ! q) = filled i (s_localWindow (heap d ! q) - int (length bs)) \<and>
    c_localWindow d' = filled i (c_localWindow d - int (length bs)) \<and>
    writeBuffer d' = writeBuffer d @ granted sid i (s_localWindow (heap d ! q) - int (length bs)) @
      granted 0 i (c_localWindow d - int (length bs)) \<and>
    streamData (heap d' ! q) = streamData (heap d ! q) @ bs \<and> st (heap d' ! q) = remote_end e (st (heap d ! q))"
proof -
  let ?flags = "SetEndStreamOrAck e 0"
  let ?h = "frame_header sid H2Type_DATA (length bs) ?flags"
  let ?d = "d\<lparr> header := ?h, state := HeaderRead \<rparr>"
  note f = frame_header_fields [OF assms(9), of sid H2Type_DATA ?flags]
  have q: "q < length (heap ?d)" "streamID (heap ?d ! q) = sid"
    using assms(1) map_of_SomeD [OF assms(2)] by (auto simp: conn_ok_def list_all_iff entry_ok_def)
  have "uint (Len ?h) = int (length bs)" by (simp only: uint_nat f(1))
  then obtain d' where d': "handle_data q bs ?d = (Ok (), d')"
    "s_localWindow (heap d' ! q) = filled i (s_localWindow (heap d ! q) - int (length bs))"
    "c_localWindow d' = filled i (c_localWindow d - int (length bs))"
    "writeBuffer d' = writeBuffer d @ granted sid i (s_localWindow (heap d ! q) - int (length bs)) @
      granted 0 i (c_localWindow d - int (length bs))"
    "streamData (heap d' ! q) = streamData (heap d ! q) @ bs" "st (heap d' ! q) = remote_end e (st (heap d ! q))"
    "state d' = HeaderRead"
    using handle_data_ok [OF _ q(1), of "int (length bs)" bs] assms(1,10,11) q(2) f(4) by (auto simp: i_def)
  have sid: "StreamId ?h = sid" using f(3) assms(4) by simp
  have "handleBody (Data \<lparr> data_PaddingLen = None, data_Data = bs, data_Padding = None \<rparr>) ?d = (Ok (), d')"
    using assms(2,3,6,7,8) sid d'(1)
    by (simp add: handleBody_def handleStreamLevelFrame_def find_or_open_def continuation_check_def handle_on_stream_def
        done_with_def Let_def)
  moreover have "FrameBody_DecodeExact ?h bs = Ok (Data \<lparr> data_PaddingLen = None, data_Data = bs, data_Padding = None \<rparr>)"
    by (rule plain_bodies(1); unfold f; simp)
  ultimately have "frames d (data_bytes sid e bs @ rest) = frames (d'\<lparr> state := WaitHeader \<rparr>) rest" for rest
    using frames_frame [OF assms(5) _ _ assms(9) refl _ _ d'(7), of ?flags sid H2Type_DATA _ rest] by (simp add: data_bytes_def)
  with d' show ?thesis by (intro exI [of _ "d'\<lparr> state := WaitHeader \<rparr>"]) simp
qed

lemma granted_read:
  assumes "state c = WaitHeader" "continuationStreamID c = 0" "map_of (streams c) sid = Some r" "r < length (heap c)"
    "sid \<noteq> 0" "sid AND mask 31 = sid" "0 \<le> i" "i < 2 ^ 31" "0 \<le> s_peerWindow (heap c ! r)" "0 \<le> c_peerWindow c"
  shows "\<exists>c'. (\<forall>rest. frames c (granted sid i (s_peerWindow (heap c ! r)) @ granted 0 i (c_peerWindow c) @ rest) = frames c' rest) \<and>
    s_peerWindow (heap c' ! r) = filled i (s_peerWindow (heap c ! r)) \<and> c_peerWindow c' = filled i (c_peerWindow c)"
proof -
  have "\<exists>c1. (\<forall>rest. frames c (granted sid i (s_peerWindow (heap c ! r)) @ rest) = frames c1 rest) \<and> state c1 = WaitHeader \<and>
      s_peerWindow (heap c1 ! r) = filled i (s_peerWindow (heap c ! r)) \<and> c_peerWindow c1 = c_peerWindow c \<and> r < length (heap c1)"
  proof (cases "s_peerWindow (heap c ! r) < i div 2")
    case True
    then have "0 \<le> i - s_peerWindow (heap c ! r)" "i - s_peerWindow (heap c ! r) < 2 ^ 31"
      "s_peerWindow (heap c ! r) + (i - s_peerWindow (heap c ! r)) < 2 ^ 32" using assms(7-9) by auto
    from stream_grant_read [OF assms(1-6) this(1,2) assms(9) this(3)] True assms(4) show ?thesis
      by (fastforce simp: granted_def filled_def)
  next
    case False
    with assms(1,4) show ?thesis by (intro exI [of _ c]) (simp add: granted_def filled_def)
  qed
  then obtain c1 where c1: "\<And>rest. frames c (granted sid i (s_peerWindow (heap c ! r)) @ rest) = frames c1 rest"
    "state c1 = WaitHeader" "s_peerWindow (heap c1 ! r) = filled i (s_peerWindow (heap c ! r))" "c_peerWindow c1 = c_peerWindow c"
    "r < length (heap c1)" by blast
  show ?thesis
  proof (cases "c_peerWindow c < i div 2")
    case True
    with conn_grant_read [OF c1(2), of "i - c_peerWindow c" r] c1 assms(7,8,10) show ?thesis
      by (auto simp: granted_def filled_def)
  next
    case False
    with c1 show ?thesis by (intro exI [of _ c1]) (simp add: granted_def filled_def)
  qed
qed

text \<open>
  C12. Data gets through and the two sides stay in step: what one \<open>writeData\<close> writes on a stream, a peer
  whose windows for the stream and the connection are the sender's reads as exactly that data, appended
  to what the stream holds, with the end of the stream if it was marked; and once the sender has read
  what the peer writes back, both windows agree on both sides again. Nothing fails on the way.
\<close>

theorem data_and_credit:
  assumes "conn_ok c" "conn_ok d" "state c = WaitHeader" "state d = WaitHeader"
    "continuationStreamID c = 0" "continuationStreamID d = 0" "sid \<noteq> 0" "sid AND mask 31 = sid"
    "map_of (streams c) sid = Some r" "map_of (streams d) sid = Some q" "st (heap d ! q) \<noteq> Idle" "st (heap d ! q) \<noteq> Close"
    "s_peerWindow (heap c ! r) = s_localWindow (heap d ! q)" "c_peerWindow c = c_localWindow d"
    "0 \<le> s_localWindow (heap d ! q)" "0 \<le> c_localWindow d" "uint (InitialWindowSize (localSettings d)) < 2 ^ 31"
    "writeData sid r p e c = (res, c1)"
  shows "\<exists>n reason bs d1 credit c2. res = Ok (n, reason) \<and> n \<le> length p \<and> writeBuffer c1 = writeBuffer c @ bs \<and>
    (\<forall>rest. frames d (bs @ rest) = frames d1 rest) \<and> streamData (heap d1 ! q) = streamData (heap d ! q) @ take n p \<and>
    st (heap d1 ! q) = remote_end e (st (heap d ! q)) \<and> writeBuffer d1 = writeBuffer d @ credit \<and>
    (\<forall>rest. frames c1 (credit @ rest) = frames c2 rest) \<and>
    s_peerWindow (heap c2 ! r) = s_localWindow (heap d1 ! q) \<and> c_peerWindow c2 = c_localWindow d1"
proof -
  let ?i = "uint (InitialWindowSize (localSettings d))"
  have r: "r < length (heap c)"
    using assms(1) map_of_SomeD [OF assms(9)] by (auto simp: conn_ok_def list_all_iff entry_ok_def)
  have "0 \<le> s_peerWindow (heap c ! r)" "0 \<le> c_peerWindow c" using assms(13-16) by simp_all
  from writeData_sends [OF assms(1) r this assms(18)] obtain n reason where w: "res = Ok (n, reason)" "n \<le> length p"
    "int n \<le> maxFrameSize c" "int n \<le> s_localWindow (heap d ! q)" "int n \<le> c_localWindow d"
    "s_peerWindow (heap c1 ! r) = s_localWindow (heap d ! q) - int n" "c_peerWindow c1 = c_localWindow d - int n"
    "writeBuffer c1 = writeBuffer c @ (if n = 0 \<and> \<not> e then [] else data_bytes sid e (take n p))" "same_conn c c1"
    unfolding assms(13,14) by blast
  show ?thesis
  proof (cases "n = 0 \<and> \<not> e")
    case True
    with w show ?thesis
      by (intro exI [of _ n] exI [of _ reason] exI [of _ "[]"] exI [of _ d] exI [of _ c1]) (auto simp: remote_end_def)
  next
    case False
    have len: "length (take n p) = n" "length (take n p) < 2 ^ 24" using w(2) small_frame [OF assms(1) w(3)] by simp_all
    with data_read [OF assms(2,10,7,8,4,6,11,12), of "take n p" e] w(4,5) obtain d1 where
      d1: "\<forall>rest. frames d (data_bytes sid e (take n p) @ rest) = frames d1 rest"
      "s_localWindow (heap d1 ! q) = filled ?i (s_peerWindow (heap c1 ! r))" "c_localWindow d1 = filled ?i (c_peerWindow c1)"
      "writeBuffer d1 = writeBuffer d @ granted sid ?i (s_peerWindow (heap c1 ! r)) @ granted 0 ?i (c_peerWindow c1)"
      "streamData (heap d1 ! q) = streamData (heap d ! q) @ take n p" "st (heap d1 ! q) = remote_end e (st (heap d ! q))"
      by (auto simp: w(6,7))
    have s: "state c1 = WaitHeader" "continuationStreamID c1 = 0" "map_of (streams c1) sid = Some r" "r < length (heap c1)"
      using w(9) assms(3,5,9) r by (auto simp: same_conn_def)
    from granted_read [OF s assms(7,8), of ?i] assms(17) w(4-7) obtain c2 where
      c2: "\<forall>rest. frames c1 (granted sid ?i (s_peerWindow (heap c1 ! r)) @ granted 0 ?i (c_peerWindow c1) @ rest) = frames c2 rest"
      "s_peerWindow (heap c2 ! r) = filled ?i (s_peerWindow (heap c1 ! r))" "c_peerWindow c2 = filled ?i (c_peerWindow c1)" by auto
    let ?credit = "granted sid ?i (s_peerWindow (heap c1 ! r)) @ granted 0 ?i (c_peerWindow c1)"
    have "\<forall>rest. frames c1 (?credit @ rest) = frames c2 rest" using c2(1) by simp
    with d1 c2 w(1,2,8) False show ?thesis
      by (intro exI [of _ n] exI [of _ reason] exI [of _ "data_bytes sid e (take n p)"] exI [of _ d1] exI [of _ ?credit]
          exI [of _ c2]) (simp del: append_assoc)
  qed
qed

text \<open>The server after a HEADERS frame without fields opened stream 1.\<close>

definition serving :: Conn where
  "serving = snd (Decode (Some [0, 0, 0, 1, 4, 0, 0, 0, 1]) example_server)"

theorem data_and_credit_witness:
  "\<exists>n bs d1 credit c2. n \<le> 3 \<and> (\<forall>rest. frames serving (bs @ rest) = frames d1 rest) \<and>
     streamData (heap d1 ! 0) = streamData (heap serving ! 0) @ take n [1, 2, 3] \<and>
     (\<forall>rest. frames (snd (writeData 1 0 [1, 2, 3] False after_ping)) (credit @ rest) = frames c2 rest) \<and>
     s_peerWindow (heap c2 ! 0) = s_localWindow (heap d1 ! 0) \<and> c_peerWindow c2 = c_localWindow d1"
proof -
  have c: "state after_ping = WaitHeader" "continuationStreamID after_ping = 0" "map_of (streams after_ping) 1 = Some 0"
    "s_peerWindow (heap after_ping ! 0) = 65535" "c_peerWindow after_ping = 65535" by code_simp+
  have d: "conn_ok serving" "state serving = WaitHeader" "continuationStreamID serving = 0" "map_of (streams serving) 1 = Some 0"
    "st (heap serving ! 0) = Open" "s_localWindow (heap serving ! 0) = 65535" "c_localWindow serving = 65535"
    "uint (InitialWindowSize (localSettings serving)) < 2 ^ 31" by code_simp+
  have sid: "(1 :: u32) AND mask 31 = 1" by (simp add: mask_eq_exp_minus_1)
  have "\<exists>n reason bs d1 credit c2. fst (writeData 1 0 [1, 2, 3] False after_ping) = Ok (n, reason) \<and> n \<le> length [1, 2, 3 :: u8] \<and>
    writeBuffer (snd (writeData 1 0 [1, 2, 3] False after_ping)) = writeBuffer after_ping @ bs \<and>
    (\<forall>rest. frames serving (bs @ rest) = frames d1 rest) \<and>
    streamData (heap d1 ! 0) = streamData (heap serving ! 0) @ take n [1, 2, 3] \<and>
    st (heap d1 ! 0) = remote_end False (st (heap serving ! 0)) \<and> writeBuffer d1 = writeBuffer serving @ credit \<and>
    (\<forall>rest. frames (snd (writeData 1 0 [1, 2, 3] False after_ping)) (credit @ rest) = frames c2 rest) \<and>
    s_peerWindow (heap c2 ! 0) = s_localWindow (heap d1 ! 0) \<and> c_peerWindow c2 = c_localWindow d1"
    by (rule data_and_credit [OF after_ping_ok d(1) c(1) d(2) c(2) d(3) _ sid c(3) d(4) _ _ _ _ _ _ d(8)])
      (simp_all add: c d)
  then show ?thesis unfolding One_nat_def [symmetric] by (metis length_Cons list.size(3) numeral_3_eq_3)
qed

end
