(* ===== verification/Broker.thy ===== *)
theory Broker
  imports Kscale_Prelude "HOL-Library.List_Lexorder" "HOL-Library.Char_ord"
begin

text \<open>
  The control plane's inventory of connected dataplane nodes and its registry of client agents:
  \<open>dpbroker/broker.go\<close> and \<open>dpbroker/agent_registry.go\<close>. A Go map is an association list with
  distinct keys; the order of the list is the order in which the program happens to range over it.
\<close>

section \<open>The broker\<close>

text \<open>A peer is a pointer; two connections of one node have the same common name.\<close>

record peer =
  peer_id :: nat
  PeerCommonName :: string

text \<open>Callbacks are named by numbers; a call of one is recorded with its arguments.\<close>

type_synonym callback = nat

type_synonym call = "callback \<times> string \<times> peer"

record broker =
  nodes :: "(string \<times> peer list) list"
  onConnect :: "callback list"
  onDisconnect :: "callback list"

definition New_broker :: broker where
  "New_broker = \<lparr> nodes = [], onConnect = [], onDisconnect = [] \<rparr>"

definition OnConnect :: "callback \<Rightarrow> broker \<Rightarrow> broker" where
  "OnConnect f b = b \<lparr> onConnect := onConnect b @ [f] \<rparr>"

definition OnDisconnect :: "callback \<Rightarrow> broker \<Rightarrow> broker" where
  "OnDisconnect f b = b \<lparr> onDisconnect := onDisconnect b @ [f] \<rparr>"

text \<open>Indexing a Go map of slices: a missing key is the nil slice.\<close>

definition slice_at :: "('k \<times> 'v list) list \<Rightarrow> 'k \<Rightarrow> 'v list" where
  "slice_at m k = (case map_of m k of Some vs \<Rightarrow> vs | None \<Rightarrow> [])"

text \<open>The broker afterwards, the connections to close, and the callbacks called, in order.\<close>

definition Add :: "string \<Rightarrow> peer \<Rightarrow> broker \<Rightarrow> broker \<times> peer list \<times> call list" where
  "Add dpType p b =
     (let cn = PeerCommonName p;
          old = slice_at (nodes b) dpType;
          superseded = filter (\<lambda>q. PeerCommonName q = cn) old;
          kept = filter (\<lambda>q. PeerCommonName q \<noteq> cn) old
      in (b \<lparr> nodes := AList.update dpType (kept @ [p]) (nodes b) \<rparr>,
          superseded,
          map (\<lambda>f. (f, dpType, p)) (onConnect b)))"

definition Remove :: "string \<Rightarrow> peer \<Rightarrow> broker \<Rightarrow> broker \<times> call list" where
  "Remove dpType p b =
     (let ps = slice_at (nodes b) dpType;
          found = p \<in> set ps
      in (b \<lparr> nodes := AList.update dpType (filter (\<lambda>q. q \<noteq> p) ps) (nodes b) \<rparr>,
          if found then map (\<lambda>f. (f, dpType, p)) (onDisconnect b) else []))"

text \<open>Every node with its dp type, in the order of the iteration.\<close>

definition typed_peers :: "broker \<Rightarrow> (string \<times> peer) list" where
  "typed_peers b = concat (map (\<lambda>(t, ps). map (Pair t) ps) (nodes b))"

definition List_nodes :: "string \<Rightarrow> broker \<Rightarrow> peer list" where
  "List_nodes dpType b =
     (if dpType = ''*'' then map snd (typed_peers b) else slice_at (nodes b) dpType)"

definition Matches :: "string \<Rightarrow> string \<Rightarrow> bool" where
  "Matches dpType connType \<longleftrightarrow> dpType = ''*'' \<or> dpType = connType"

definition Find :: "string \<Rightarrow> broker \<Rightarrow> peer option" where
  "Find commonName b = find (\<lambda>p. PeerCommonName p = commonName) (map snd (typed_peers b))"

definition nodeLabel :: "string \<Rightarrow> string" where
  "nodeLabel commonName =
     (case Cut (CHR ''.'') commonName of Some (label, _) \<Rightarrow> label | None \<Rightarrow> commonName)"

definition MatchSelector :: "string \<Rightarrow> string \<Rightarrow> string \<Rightarrow> nat" where
  "MatchSelector selector dpType commonName =
     (if selector = ''*'' then 1
      else if selector = dpType @ ''/*'' then 2
      else if selector = commonName \<or> selector = dpType @ ''/'' @ nodeLabel commonName \<or>
              selector = nodeLabel commonName then 3
      else 0)"

definition MatchSpecificity :: "string \<Rightarrow> string \<Rightarrow> peer \<Rightarrow> nat" where
  "MatchSpecificity selector dpType p = MatchSelector selector dpType (PeerCommonName p)"

definition ForEachNode :: "(string \<Rightarrow> peer \<Rightarrow> 's \<Rightarrow> 's) \<Rightarrow> broker \<Rightarrow> 's \<Rightarrow> 's" where
  "ForEachNode fn b s = fold (\<lambda>(t, p). fn t p) (typed_peers b) s"

text \<open>\<open>"<dp_type>/<node>"\<close> or \<open>"<node>"\<close>.\<close>

definition split_selector :: "string \<Rightarrow> string \<times> string" where
  "split_selector selector =
     (case Cut (CHR ''/'') selector of Some (t, n) \<Rightarrow> (t, n) | None \<Rightarrow> ('''', selector))"

datatype broker_error =
    NoMatch string "string list"
  | Ambiguous string string

definition candidates :: "broker \<Rightarrow> string list" where
  "candidates b = sort (map (\<lambda>(t, p). t @ ''/'' @ nodeLabel (PeerCommonName p)) (typed_peers b))"

definition Resolve_node :: "string \<Rightarrow> broker \<Rightarrow> (broker_error, peer) outcome" where
  "Resolve_node selector b =
     (case Find selector b of
        Some p \<Rightarrow> Ok p
      | None \<Rightarrow>
          let (wantType, wantNode) = split_selector selector;
              matches = map snd (filter (\<lambda>(t, p). nodeLabel (PeerCommonName p) = wantNode \<and>
                          (wantType = '''' \<or> wantType = t)) (typed_peers b))
          in
          (case matches of
             [p] \<Rightarrow> Ok p
           | [] \<Rightarrow> Err (NoMatch selector (candidates b))
           | _ \<Rightarrow> Err (Ambiguous selector wantNode)))"

definition node_matches :: "string \<Rightarrow> string \<Rightarrow> peer \<Rightarrow> bool" where
  "node_matches selector dpType p \<longleftrightarrow>
     (let all = selector = ''*'' \<or> selector = ''*/*'';
          (wantType, wantNode) = split_selector selector;
          cn = PeerCommonName p
      in all \<or> wantNode = ''*'' \<and> wantType = dpType \<or>
         cn = selector \<or> nodeLabel cn = wantNode \<and> (wantType = '''' \<or> wantType = dpType))"

definition ResolveAll :: "string \<Rightarrow> broker \<Rightarrow> (broker_error, peer list) outcome" where
  "ResolveAll selector b =
     (let matches = map snd (filter (\<lambda>(t, p). node_matches selector t p) (typed_peers b)) in
      if matches = [] then Err (NoMatch selector (candidates b)) else Ok matches)"

section \<open>The broker at work\<close>

text \<open>
  The inventory with what runs beside it: one watcher goroutine per added peer, which waits for the
  end of its connection, and the connections that have ended. \<open>Add\<close> lists the peer and unlocks, runs the
  callbacks, and only then starts the watcher: \<open>watchers\<close> holds the watchers started and those still to
  be started, the removals the program owes. \<open>superseded\<close> records the connections
  \<open>Add\<close> replaced; \<open>calls\<close> is everything the callbacks were called with.
\<close>

record inventory =
  broker_of :: broker
  added :: "(string \<times> peer) list"
  watchers :: "(string \<times> peer) list"
  ended :: "peer list"
  superseded :: "(string \<times> peer) list"
  calls :: "call list"

definition new_inventory :: "callback list \<Rightarrow> callback list \<Rightarrow> inventory" where
  "new_inventory fs gs =
     \<lparr> broker_of = fold OnDisconnect gs (fold OnConnect fs New_broker), added = [], watchers = [], ended = [],
       superseded = [], calls = [] \<rparr>"

definition connect :: "string \<Rightarrow> peer \<Rightarrow> inventory \<Rightarrow> inventory" where
  "connect t p s =
     (let (b, old, cs) = Add t p (broker_of s) in
      s \<lparr> broker_of := b, added := (t, p) # added s, watchers := (t, p) # watchers s,
          superseded := map (Pair t) old @ superseded s, calls := calls s @ cs \<rparr>)"

definition watch :: "string \<Rightarrow> peer \<Rightarrow> inventory \<Rightarrow> inventory" where
  "watch t p s =
     (let (b, cs) = Remove t p (broker_of s) in
      s \<lparr> broker_of := b, watchers := filter (\<lambda>w. w \<noteq> (t, p)) (watchers s), calls := calls s @ cs \<rparr>)"

inductive step :: "inventory \<Rightarrow> inventory \<Rightarrow> bool" where
  connected: "p \<notin> snd ` set (added s) \<Longrightarrow> step s (connect t p s)"
| ends: "p \<in> snd ` set (added s) \<Longrightarrow> step s (s \<lparr> ended := p # ended s \<rparr>)"
| watched: "(t, p) \<in> set (watchers s) \<Longrightarrow> p \<in> set (ended s) \<Longrightarrow> step s (watch t p s)"

inductive reachable :: "callback list \<Rightarrow> callback list \<Rightarrow> inventory \<Rightarrow> bool" for fs gs where
  start: "reachable fs gs (new_inventory fs gs)"
| more: "reachable fs gs s \<Longrightarrow> step s s' \<Longrightarrow> reachable fs gs s'"

section \<open>The agent registry\<close>

text \<open>The connections of every common name, oldest first.\<close>

type_synonym registry = "(string \<times> peer list) list"

definition NewAgentRegistry :: registry where
  "NewAgentRegistry = []"

definition agent_Add :: "string \<Rightarrow> peer \<Rightarrow> registry \<Rightarrow> registry" where
  "agent_Add cn p a = AList.update cn (slice_at a cn @ [p]) a"

definition agent_Remove :: "string \<Rightarrow> peer \<Rightarrow> registry \<Rightarrow> registry" where
  "agent_Remove cn p a =
     (let peers = remove1 p (slice_at a cn) in
      if peers = [] then AList.delete cn a else AList.update cn peers a)"

text \<open>\<open>peers[0]\<close>, out of range for an empty slice.\<close>

definition first_peer :: "peer list \<Rightarrow> (unit, peer) outcome" where
  "first_peer ps = (case ps of [] \<Rightarrow> Panic | p # _ \<Rightarrow> Ok p)"

fun agent_List :: "registry \<Rightarrow> (unit, peer list) outcome" where
  "agent_List [] = Ok []"
| "agent_List ((cn, peers) # a) =
     bind_outcome (first_peer peers) (\<lambda>p. bind_outcome (agent_List a) (\<lambda>out. Ok (p # out)))"

fun agent_Resolve :: "string \<Rightarrow> registry \<Rightarrow> (unit, peer option) outcome" where
  "agent_Resolve selector [] = Ok None"
| "agent_Resolve selector ((cn, peers) # a) =
     (if cn = selector \<or> nodeLabel cn = selector then bind_outcome (first_peer peers) (\<lambda>p. Ok (Some p))
      else agent_Resolve selector a)"

end
