(* ===== verification/Broker_Laws.thy ===== *)
theory Broker_Laws
  imports Broker
begin

text \<open>
  The inventory of dataplane nodes holds one live connection per node, a selector means the same
  to a single and to a fan-out operation, and the agent registry answers with the oldest connection
  that is still there.
\<close>

section \<open>The maps of slices\<close>

lemma slice_at_update [simp]: "slice_at (AList.update k vs m) k' = (if k' = k then vs else slice_at m k')"
  by (simp add: slice_at_def)

lemma slice_at_delete [simp]: "slice_at (AList.delete k m) k' = (if k' = k then [] else slice_at m k')"
  by (simp add: slice_at_def)

lemma typed_peers_slice:
  "map_ok (nodes b) \<Longrightarrow> (t, p) \<in> set (typed_peers b) \<longleftrightarrow> p \<in> set (slice_at (nodes b) t)"
proof -
  assume ok: "map_ok (nodes b)"
  have "(t, p) \<in> set (typed_peers b) \<longleftrightarrow> (\<exists>ps. (t, ps) \<in> set (nodes b) \<and> p \<in> set ps)"
    by (auto simp: typed_peers_def)
  also have "\<dots> \<longleftrightarrow> (\<exists>ps. map_of (nodes b) t = Some ps \<and> p \<in> set ps)" by (simp only: map_of_in [OF ok])
  also have "\<dots> \<longleftrightarrow> p \<in> set (slice_at (nodes b) t)" by (cases "map_of (nodes b) t") (simp_all add: slice_at_def)
  finally show ?thesis .
qed

section \<open>Invariants of the inventory\<close>

abbreviation listed :: "inventory \<Rightarrow> string \<Rightarrow> peer list" where
  "listed s t \<equiv> slice_at (nodes (broker_of s)) t"

definition inventory_ok :: "inventory \<Rightarrow> bool" where
  "inventory_ok s \<longleftrightarrow>
     map_ok (nodes (broker_of s)) \<and>
     (\<forall>t. distinct (map PeerCommonName (listed s t))) \<and>
     (\<forall>t p. p \<in> set (listed s t) \<longrightarrow> (t, p) \<in> set (watchers s)) \<and>
     (\<forall>t p. (t, p) \<in> set (watchers s) \<longrightarrow>
        (t, p) \<in> set (added s) \<and> (p \<in> set (listed s t) \<or> (t, p) \<in> set (superseded s))) \<and>
     (\<forall>t p. (t, p) \<in> set (added s) \<longrightarrow> (t, p) \<in> set (watchers s) \<or> p \<in> set (ended s)) \<and>
     distinct (map snd (added s)) \<and>
     (\<forall>t p. (t, p) \<in> set (superseded s) \<longrightarrow> p \<notin> set (listed s t) \<and> (t, p) \<in> set (added s))"

lemma nodes_callbacks [simp]: "nodes (fold OnConnect fs b) = nodes b" "nodes (fold OnDisconnect fs b) = nodes b"
  by (induction fs arbitrary: b) (simp_all add: OnConnect_def OnDisconnect_def)

lemma new_inventory_ok: "inventory_ok (new_inventory fs gs)"
  by (simp add: inventory_ok_def new_inventory_def New_broker_def slice_at_def)

lemma connect_fields [simp]:
  "added (connect t p s) = (t, p) # added s" "watchers (connect t p s) = (t, p) # watchers s"
  "ended (connect t p s) = ended s"
  "superseded (connect t p s) =
     map (Pair t) (filter (\<lambda>q. PeerCommonName q = PeerCommonName p) (listed s t)) @ superseded s"
  "nodes (broker_of (connect t p s)) =
     AList.update t (filter (\<lambda>q. PeerCommonName q \<noteq> PeerCommonName p) (listed s t) @ [p]) (nodes (broker_of s))"
  by (simp_all add: connect_def Add_def Let_def)

lemma watch_fields [simp]:
  "added (watch t p s) = added s" "watchers (watch t p s) = filter (\<lambda>w. w \<noteq> (t, p)) (watchers s)"
  "ended (watch t p s) = ended s" "superseded (watch t p s) = superseded s"
  "nodes (broker_of (watch t p s)) = AList.update t (filter (\<lambda>q. q \<noteq> p) (listed s t)) (nodes (broker_of s))"
  by (simp_all add: watch_def Remove_def Let_def)

lemma distinct_map_filter_names: "distinct (map f xs) \<Longrightarrow> distinct (map f (filter P xs))"
  by (induction xs) auto

lemma inventory_okD:
  assumes "inventory_ok s"
  shows "map_ok (nodes (broker_of s))" "distinct (map PeerCommonName (listed s t))"
    "p \<in> set (listed s t) \<Longrightarrow> (t, p) \<in> set (watchers s)"
    "(t, p) \<in> set (watchers s) \<Longrightarrow> (t, p) \<in> set (added s)"
    "(t, p) \<in> set (watchers s) \<Longrightarrow> p \<in> set (listed s t) \<or> (t, p) \<in> set (superseded s)"
    "(t, p) \<in> set (added s) \<Longrightarrow> (t, p) \<in> set (watchers s) \<or> p \<in> set (ended s)"
    "distinct (map snd (added s))"
    "(t, p) \<in> set (superseded s) \<Longrightarrow> p \<notin> set (listed s t)"
    "(t, p) \<in> set (superseded s) \<Longrightarrow> (t, p) \<in> set (added s)"
  using assms unfolding inventory_ok_def by blast+

lemma connect_ok:
  assumes ok: "inventory_ok s" and fresh: "p \<notin> snd ` set (added s)"
  shows "inventory_ok (connect t p s)"
proof -
  note D = inventory_okD [OF ok]
  have new: "(t', p) \<notin> set (added s)" for t' using fresh by force
  have unlisted: "p \<notin> set (listed s t')" for t' using D(3,4) new by blast
  have kept: "distinct (map PeerCommonName (filter (\<lambda>q. PeerCommonName q \<noteq> PeerCommonName p) (listed s t) @ [p]))"
    using distinct_map_filter_names [OF D(2)] by auto
  show ?thesis
    unfolding inventory_ok_def
  proof (intro conjI allI impI)
    show "map_ok (nodes (broker_of (connect t p s)))" using D(1) by simp
    show "distinct (map PeerCommonName (listed (connect t p s) t'))" for t'
      using kept D(2) by simp
    show "distinct (map snd (added (connect t p s)))" using D(7) fresh by simp
  next
    fix t' q
    assume "q \<in> set (listed (connect t p s) t')"
    then show "(t', q) \<in> set (watchers (connect t p s))" using D(3) by (auto split: if_splits)
  next
    fix t' q
    assume w: "(t', q) \<in> set (watchers (connect t p s))"
    then show "(t', q) \<in> set (added (connect t p s))" using D(4) by auto
    show "q \<in> set (listed (connect t p s) t') \<or> (t', q) \<in> set (superseded (connect t p s))"
      using w D(5) by auto
  next
    fix t' q
    assume "(t', q) \<in> set (added (connect t p s))"
    then show "(t', q) \<in> set (watchers (connect t p s)) \<or> q \<in> set (ended (connect t p s))"
      using D(6) by auto
  next
    fix t' q
    assume old: "(t', q) \<in> set (superseded (connect t p s))"
    then have q: "(t', q) \<in> set (superseded s) \<or>
        t' = t \<and> q \<in> set (listed s t) \<and> PeerCommonName q = PeerCommonName p" by auto
    then show added: "(t', q) \<in> set (added (connect t p s))" using D(3,4,9) by auto
    then have "q \<noteq> p" using q unlisted new D(9) by blast
    then show "q \<notin> set (listed (connect t p s) t')" using q D(8) by (auto split: if_splits)
  qed
qed

lemma same_type:
  assumes "inventory_ok s" "(t, p) \<in> set (added s)" "(t', p) \<in> set (added s)"
  shows "t = t'"
proof -
  have "inj_on snd (set (added s))" using inventory_okD(7) [OF assms(1)] by (simp add: distinct_map)
  from inj_onD [OF this _ assms(2,3)] show ?thesis by simp
qed

lemma watch_ok:
  assumes ok: "inventory_ok s" and w: "(t, p) \<in> set (watchers s)" "p \<in> set (ended s)"
  shows "inventory_ok (watch t p s)"
proof -
  note D = inventory_okD [OF ok]
  show ?thesis
    unfolding inventory_ok_def
  proof (intro conjI allI impI)
    show "map_ok (nodes (broker_of (watch t p s)))" using D(1) by simp
    show "distinct (map PeerCommonName (listed (watch t p s) t'))" for t'
      using distinct_map_filter_names [OF D(2)] D(2) by simp
    show "distinct (map snd (added (watch t p s)))" using D(7) by simp
  next
    fix t' q
    assume "q \<in> set (listed (watch t p s) t')"
    then show "(t', q) \<in> set (watchers (watch t p s))" using D(3) by (auto split: if_splits)
  next
    fix t' q
    assume w': "(t', q) \<in> set (watchers (watch t p s))"
    then show "(t', q) \<in> set (added (watch t p s))" using D(4) by simp
    show "q \<in> set (listed (watch t p s) t') \<or> (t', q) \<in> set (superseded (watch t p s))"
      using w' D(5) by auto
  next
    fix t' q
    assume "(t', q) \<in> set (added (watch t p s))"
    then show "(t', q) \<in> set (watchers (watch t p s)) \<or> q \<in> set (ended (watch t p s))"
      using D(6) [of t' q] w(2) by auto
  next
    fix t' q
    assume "(t', q) \<in> set (superseded (watch t p s))"
    then show "(t', q) \<in> set (added (watch t p s))" "q \<notin> set (listed (watch t p s) t')"
      using D(8,9) by auto
  qed
qed

lemma step_ok: "step s s' \<Longrightarrow> inventory_ok s \<Longrightarrow> inventory_ok s'"
proof (induction rule: step.induct)
  case (connected p s t)
  then show ?case by (intro connect_ok)
next
  case (ends p s)
  then show ?case by (auto simp: inventory_ok_def)
next
  case (watched t p s)
  then show ?case by (intro watch_ok)
qed

lemma reachable_ok: "reachable fs gs s \<Longrightarrow> inventory_ok s"
  by (induction rule: reachable.induct) (auto intro: new_inventory_ok step_ok)

text \<open>
  C30. In every reachable state the inventory holds at most one connection per common name and dp
  type, and each listed connection is watched: once the watchers of the ended connections have
  run, only live connections are listed. A live connection is missing only because a later one of
  the same node superseded it.
\<close>

theorem inventory_holds_live_nodes:
  assumes "reachable fs gs s"
  shows "distinct (map PeerCommonName (slice_at (nodes (broker_of s)) t)) \<and>
    ((\<forall>u q. (u, q) \<in> set (watchers s) \<longrightarrow> q \<notin> set (ended s)) \<longrightarrow>
       p \<in> set (slice_at (nodes (broker_of s)) t) \<longrightarrow> p \<notin> set (ended s)) \<and>
    ((t, p) \<in> set (added s) \<longrightarrow> p \<notin> set (ended s) \<longrightarrow>
       p \<in> set (slice_at (nodes (broker_of s)) t) \<or> (t, p) \<in> set (superseded s))"
  using inventory_okD(2,3,5,6) [OF reachable_ok [OF assms]] by blast

theorem inventory_holds_live_nodes_witness:
  "\<exists>s. reachable [1] [2] s \<and> slice_at (nodes (broker_of s)) ''l4lb'' = [\<lparr> peer_id = 2, PeerCommonName = ''n1'' \<rparr>] \<and>
    distinct (map PeerCommonName (slice_at (nodes (broker_of s)) ''l4lb''))"
proof -
  let ?p = "\<lparr> peer_id = 1, PeerCommonName = ''n1'' \<rparr>" and ?q = "\<lparr> peer_id = 2, PeerCommonName = ''n1'' \<rparr>"
  let ?i = "new_inventory [1] [2]"
  let ?s = "connect ''l4lb'' ?q (connect ''l4lb'' ?p ?i)"
  have "step ?i (connect ''l4lb'' ?p ?i)" by (rule step.connected) (simp add: new_inventory_def)
  from reachable.more [OF reachable.start this] have "reachable [1] [2] (connect ''l4lb'' ?p ?i)" .
  moreover have "step (connect ''l4lb'' ?p ?i) ?s" by (rule step.connected) (simp add: new_inventory_def)
  ultimately have r: "reachable [1] [2] ?s" by (rule reachable.more)
  moreover have "slice_at (nodes (broker_of ?s)) ''l4lb'' = [?q]"
    by (simp add: new_inventory_def New_broker_def slice_at_def OnConnect_def OnDisconnect_def)
  ultimately show ?thesis using inventory_holds_live_nodes [OF r] by blast
qed

section \<open>Selectors\<close>

lemma nodeLabel_sub: "set (nodeLabel cn) \<subseteq> set cn"
proof (cases "Cut (CHR ''.'') cn")
  case (Some ab)
  then show ?thesis by (cases ab) (auto simp: nodeLabel_def Cut_Some)
qed (simp add: nodeLabel_def)

lemma split_selector_slash:
  "t \<noteq> [] \<Longrightarrow> CHR ''/'' \<notin> set t \<Longrightarrow> split_selector (t @ CHR ''/'' # n) = (t, n)"
  by (simp add: split_selector_def)

lemma split_selector_plain: "CHR ''/'' \<notin> set n \<Longrightarrow> split_selector n = ([], n)"
  using Cut_None [of "CHR ''/''" n] by (simp add: split_selector_def)

text \<open>
  C32. A selector means the same to a fan-out (\<open>ResolveAll\<close>) as to the per-node reconcile
  (\<open>MatchSelector\<close> above zero), for nodes whose dp type and common name hold no slash; the two
  exceptions are \<open>*/*\<close> and selectors that begin with a slash, which the fan-out matches against every
  dp type and \<open>MatchSelector\<close> against none.
\<close>

theorem selectors_agree:
  assumes "t \<noteq> []" "CHR ''/'' \<notin> set t" "t \<noteq> ''*''" "CHR ''/'' \<notin> set (PeerCommonName p)"
  shows "(selector \<noteq> ''*/*'' \<longrightarrow> hd (selector @ ''x'') \<noteq> CHR ''/'' \<longrightarrow>
       node_matches selector t p \<longleftrightarrow> 0 < MatchSelector selector t (PeerCommonName p)) \<and>
     node_matches ''*/*'' t p \<and> MatchSelector ''*/*'' t (PeerCommonName p) = 0 \<and>
     (selector = CHR ''/'' # nodeLabel (PeerCommonName p) \<longrightarrow>
       node_matches selector t p \<and> MatchSelector selector t (PeerCommonName p) = 0)"
proof -
  let ?cn = "PeerCommonName p"
  have label: "CHR ''/'' \<notin> set (nodeLabel ?cn)" using nodeLabel_sub assms(4) by blast
  have m: "0 < MatchSelector selector t ?cn \<longleftrightarrow> selector = ''*'' \<or> selector = t @ ''/*'' \<or> selector = ?cn \<or>
      selector = t @ ''/'' @ nodeLabel ?cn \<or> selector = nodeLabel ?cn" for selector
    by (simp add: MatchSelector_def)
  have slash: "CHR ''/'' \<in> set (t @ ''/*'')" "CHR ''/'' \<in> set (t @ ''/'' @ nodeLabel ?cn)" by simp_all
  have agree: "node_matches selector t p \<longleftrightarrow> 0 < MatchSelector selector t ?cn"
    if s: "selector \<noteq> ''*/*''" "hd (selector @ ''x'') \<noteq> CHR ''/''"
  proof (cases "Cut (CHR ''/'') selector")
    case None
    then have free: "CHR ''/'' \<notin> set selector" by (simp add: Cut_None)
    then have "selector \<noteq> t @ ''/*''" "selector \<noteq> t @ ''/'' @ nodeLabel ?cn" using slash by blast+
    then show ?thesis using assms(1) s(1) unfolding m
      by (auto simp: node_matches_def split_selector_plain [OF free])
  next
    case (Some ab)
    obtain a b where ab: "selector = a @ CHR ''/'' # b" "CHR ''/'' \<notin> set a"
      using Some by (cases ab) (simp add: Cut_Some)
    have a: "a \<noteq> []" using s(2) ab(1) by (cases a) auto
    have "CHR ''/'' \<in> set selector" using ab(1) by simp
    then have sel: "selector \<noteq> ''*''" "selector \<noteq> ?cn" "selector \<noteq> nodeLabel ?cn"
      using assms(4) label by auto
    have "selector = t @ CHR ''/'' # n \<longleftrightarrow> t = a \<and> n = b" for n
      using split_selector_slash [OF a ab(2), of b] split_selector_slash [OF assms(1,2), of n] ab(1)
      by (metis Pair_inject)
    from this [of "''*''"] this [of "nodeLabel ?cn"]
    show ?thesis using sel s(1) a unfolding m
      by (auto simp: node_matches_def ab(1) split_selector_slash [OF a ab(2)])
  qed
  have all: "node_matches ''*/*'' t p" by (simp add: node_matches_def split_selector_def)
  have star: "''*/*'' \<noteq> t @ CHR ''/'' # n" for n
  proof
    assume "''*/*'' = t @ CHR ''/'' # n"
    from arg_cong [OF this, of split_selector] show False
      using split_selector_slash [OF assms(1,2), of n] assms(3) by (simp add: split_selector_def)
  qed
  have "?cn \<noteq> ''*/*''" "nodeLabel ?cn \<noteq> ''*/*''" using assms(4) label by auto
  then have none: "MatchSelector ''*/*'' t ?cn = 0"
    using m [of "''*/*''"] star [of "''*''"] star [of "nodeLabel ?cn"] by auto
  have slashed: "node_matches (CHR ''/'' # nodeLabel ?cn) t p \<and> MatchSelector (CHR ''/'' # nodeLabel ?cn) t ?cn = 0"
  proof -
    have u: "CHR ''/'' # nodeLabel ?cn \<noteq> t @ CHR ''/'' # n" for n using assms(1,2) by (cases t) auto
    have v: "CHR ''/'' # nodeLabel ?cn \<noteq> ?cn"
    proof
      assume "CHR ''/'' # nodeLabel ?cn = ?cn"
      then have "CHR ''/'' \<in> set ?cn" by (metis list.set_intros(1))
      with assms(4) show False by blast
    qed
    have "\<not> 0 < MatchSelector (CHR ''/'' # nodeLabel ?cn) t ?cn"
      unfolding m using u [of "''*''"] u [of "nodeLabel ?cn"] v by simp
    then show ?thesis by (simp add: node_matches_def split_selector_def)
  qed
  show ?thesis
  proof (intro conjI impI)
    assume "selector \<noteq> ''*/*''" "hd (selector @ ''x'') \<noteq> CHR ''/''"
    then show "node_matches selector t p \<longleftrightarrow> 0 < MatchSelector selector t ?cn" by (rule agree)
  qed (simp_all only: all none slashed)
qed

theorem selectors_agree_witness:
  "node_matches ''l4lb/n1'' ''l4lb'' \<lparr> peer_id = 1, PeerCommonName = ''n1.dp'' \<rparr> \<longleftrightarrow>
   0 < MatchSelector ''l4lb/n1'' ''l4lb'' ''n1.dp''"
  using selectors_agree [of "''l4lb''" "\<lparr> peer_id = 1, PeerCommonName = ''n1.dp'' \<rparr>" "''l4lb/n1''"]
  by simp

text \<open>What \<open>Resolve\<close> returns, whatever the order in which it ranges over the nodes.\<close>

lemma Find_Some: "Find cn b = Some p \<Longrightarrow> (\<exists>t. (t, p) \<in> set (typed_peers b)) \<and> PeerCommonName p = cn"
  by (auto simp: Find_def find_Some_iff in_set_conv_nth)
     (metis nth_map length_map nth_mem prod.collapse snd_conv)

lemma Find_None: "Find cn b = None \<longleftrightarrow> (\<forall>(t, p) \<in> set (typed_peers b). PeerCommonName p \<noteq> cn)"
  by (auto simp: Find_def find_None_iff)

text \<open>
  The nodes a selector names by label and dp type, each with its dp type: an entry of the inventory counts once.
\<close>

definition labelled :: "string \<Rightarrow> broker \<Rightarrow> (string \<times> peer) list" where
  "labelled selector b =
     filter (\<lambda>(t, q). nodeLabel (PeerCommonName q) = snd (split_selector selector) \<and>
               fst (split_selector selector) \<in> {[], t}) (typed_peers b)"

definition carries :: "string \<Rightarrow> broker \<Rightarrow> bool" where
  "carries selector b \<longleftrightarrow> (\<exists>t. \<exists>q \<in> set (slice_at (nodes b) t). PeerCommonName q = selector)"

lemma Resolve_node_cases:
  "Resolve_node selector b =
     (case Find selector b of
        Some p \<Rightarrow> Ok p
      | None \<Rightarrow>
          (case labelled selector b of
             [] \<Rightarrow> Err (NoMatch selector (candidates b))
           | [(t, p)] \<Rightarrow> Ok p
           | _ \<Rightarrow> Err (Ambiguous selector (snd (split_selector selector)))))"
proof -
  obtain wt wn where s: "split_selector selector = (wt, wn)" by fastforce
  have eq: "(\<lambda>(t, q). nodeLabel (PeerCommonName q) = wn \<and> (wt = '''' \<or> wt = t)) =
      (\<lambda>(t, q). nodeLabel (PeerCommonName q) = wn \<and> wt \<in> {[], t})" by auto
  show ?thesis
    unfolding Resolve_node_def labelled_def s Let_def fst_conv snd_conv prod.case eq
    by (auto split: option.split list.split)
qed

lemma labelled_iff:
  assumes "map_ok (nodes b)"
  shows "(t, q) \<in> set (labelled selector b) \<longleftrightarrow>
    q \<in> set (slice_at (nodes b) t) \<and> nodeLabel (PeerCommonName q) = snd (split_selector selector) \<and>
    fst (split_selector selector) \<in> {[], t}"
  using typed_peers_slice [OF assms] by (auto simp: labelled_def)

lemma carries_iff: "map_ok (nodes b) \<Longrightarrow> carries selector b \<longleftrightarrow> Find selector b \<noteq> None"
  using typed_peers_slice [of b] Find_None [of selector b] by (fastforce simp: carries_def)

lemma ResolveAll_finds:
  assumes "map_ok (nodes b)" "p \<in> set (slice_at (nodes b) t)" "node_matches selector t p"
  shows "\<exists>ps. ResolveAll selector b = Ok ps \<and> p \<in> set ps"
proof -
  define ms where "ms = map snd (filter (\<lambda>(t, p). node_matches selector t p) (typed_peers b))"
  have p: "p \<in> set ms" using assms typed_peers_slice [OF assms(1)] by (force simp: ms_def image_iff)
  have "ResolveAll selector b = (if ms = [] then Err (NoMatch selector (candidates b)) else Ok ms)"
    by (simp add: ResolveAll_def Let_def ms_def)
  with p show ?thesis by (cases ms) simp_all
qed

lemma named_matches:
  "PeerCommonName q = selector \<Longrightarrow> node_matches selector t q"
  "nodeLabel (PeerCommonName q) = snd (split_selector selector) \<Longrightarrow> fst (split_selector selector) \<in> {[], t} \<Longrightarrow>
     node_matches selector t q"
  by (cases "split_selector selector"; auto simp: node_matches_def Let_def)+

text \<open>Which nodes can be returned: the ones that carry the selector, else the only one it labels.\<close>

lemma Resolve_node_Ok:
  assumes "map_ok (nodes b)" "Resolve_node selector b = Ok p"
  shows "\<exists>t. p \<in> set (slice_at (nodes b) t) \<and>
    (PeerCommonName p = selector \<or> \<not> carries selector b \<and> labelled selector b = [(t, p)])"
proof (cases "Find selector b")
  case (Some q)
  then have "(\<exists>t. (t, q) \<in> set (typed_peers b)) \<and> PeerCommonName q = selector" by (rule Find_Some)
  then show ?thesis using assms Some by (auto simp: Resolve_node_cases typed_peers_slice)
next
  case None
  then obtain t where t: "labelled selector b = [(t, p)]"
    using assms(2) by (auto simp: Resolve_node_cases split: list.splits prod.splits)
  then have "p \<in> set (slice_at (nodes b) t)" using labelled_iff [OF assms(1), of t p selector] by simp
  with t None show ?thesis using carries_iff [OF assms(1)] by blast
qed

lemma Resolve_node_outcome:
  assumes "map_ok (nodes b)"
  shows "(\<exists>p. Resolve_node selector b = Ok p) \<longleftrightarrow> carries selector b \<or> length (labelled selector b) = 1"
    "Resolve_node selector b = Err e \<longleftrightarrow> \<not> carries selector b \<and>
       (labelled selector b = [] \<and> e = NoMatch selector (candidates b) \<or>
        2 \<le> length (labelled selector b) \<and> e = Ambiguous selector (snd (split_selector selector)))"
  using carries_iff [OF assms, of selector]
  by (auto simp: Resolve_node_cases split: option.splits list.splits prod.splits)

text \<open>
  C31. \<open>Resolve\<close> returns a connected node the selector names, and a node \<open>ResolveAll\<close> returns for the
  same selector; whichever node it returns, no other node of the inventory has a better claim: it carries
  the selector as its common name, or no node does and it is the only match. It succeeds exactly when some node
  carries the selector or exactly one matches it by label and dp type, and otherwise it says why: no
  match, with the nodes there are, when none matches, and ambiguous exactly when several do.
\<close>

theorem Resolve_correct:
  assumes "map_ok (nodes b)"
  shows "Resolve_node selector b \<noteq> Panic \<and>
    (\<forall>p. Resolve_node selector b = Ok p \<longrightarrow>
       (\<exists>ps t. ResolveAll selector b = Ok ps \<and> p \<in> set ps \<and> p \<in> set (slice_at (nodes b) t)) \<and>
       (carries selector b \<longrightarrow> PeerCommonName p = selector) \<and>
       (PeerCommonName p = selector \<or>
        (\<forall>t q. q \<in> set (slice_at (nodes b) t) \<longrightarrow> nodeLabel (PeerCommonName q) = snd (split_selector selector) \<longrightarrow>
           fst (split_selector selector) \<in> {[], t} \<longrightarrow> q = p))) \<and>
    ((\<exists>p. Resolve_node selector b = Ok p) \<longleftrightarrow> carries selector b \<or> length (labelled selector b) = 1) \<and>
    (\<forall>s c. Resolve_node selector b = Err (NoMatch s c) \<longleftrightarrow>
       s = selector \<and> c = candidates b \<and> \<not> carries selector b \<and>
       (\<forall>t q. q \<in> set (slice_at (nodes b) t) \<longrightarrow>
          \<not> (nodeLabel (PeerCommonName q) = snd (split_selector selector) \<and>
             fst (split_selector selector) \<in> {[], t}))) \<and>
    (\<forall>s w. Resolve_node selector b = Err (Ambiguous s w) \<longleftrightarrow>
       s = selector \<and> w = snd (split_selector selector) \<and> \<not> carries selector b \<and>
       2 \<le> length (labelled selector b))"
proof (intro conjI allI)
  show "Resolve_node selector b \<noteq> Panic"
    by (auto simp: Resolve_node_cases split: option.splits list.splits prod.splits)
  show "(\<exists>p. Resolve_node selector b = Ok p) \<longleftrightarrow> carries selector b \<or> length (labelled selector b) = 1"
    by (rule Resolve_node_outcome(1) [OF assms])
  have "labelled selector b = [] \<longleftrightarrow> (\<forall>t q. (t, q) \<notin> set (labelled selector b))"
    by (cases "labelled selector b") auto
  then show "Resolve_node selector b = Err (NoMatch s c) \<longleftrightarrow>
       s = selector \<and> c = candidates b \<and> \<not> carries selector b \<and>
       (\<forall>t q. q \<in> set (slice_at (nodes b) t) \<longrightarrow>
          \<not> (nodeLabel (PeerCommonName q) = snd (split_selector selector) \<and>
             fst (split_selector selector) \<in> {[], t}))" for s c
    unfolding Resolve_node_outcome(2) [OF assms] labelled_iff [OF assms] by auto
  show "Resolve_node selector b = Err (Ambiguous s w) \<longleftrightarrow>
       s = selector \<and> w = snd (split_selector selector) \<and> \<not> carries selector b \<and>
       2 \<le> length (labelled selector b)" for s w
    unfolding Resolve_node_outcome(2) [OF assms] by auto
next
  fix p
  show "Resolve_node selector b = Ok p \<longrightarrow>
       (\<exists>ps t. ResolveAll selector b = Ok ps \<and> p \<in> set ps \<and> p \<in> set (slice_at (nodes b) t)) \<and>
       (carries selector b \<longrightarrow> PeerCommonName p = selector) \<and>
       (PeerCommonName p = selector \<or>
        (\<forall>t q. q \<in> set (slice_at (nodes b) t) \<longrightarrow> nodeLabel (PeerCommonName q) = snd (split_selector selector) \<longrightarrow>
           fst (split_selector selector) \<in> {[], t} \<longrightarrow> q = p))"
  proof
    assume "Resolve_node selector b = Ok p"
    from Resolve_node_Ok [OF assms this] obtain t where t: "p \<in> set (slice_at (nodes b) t)"
      "PeerCommonName p = selector \<or> \<not> carries selector b \<and> labelled selector b = [(t, p)]" by blast
    then have "node_matches selector t p"
      using named_matches(1) named_matches(2) labelled_iff [OF assms, of t p selector] by fastforce
    from ResolveAll_finds [OF assms t(1) this] obtain ps where ps: "ResolveAll selector b = Ok ps" "p \<in> set ps" by blast
    have "q = p" if "PeerCommonName p \<noteq> selector" "q \<in> set (slice_at (nodes b) u)"
      "nodeLabel (PeerCommonName q) = snd (split_selector selector)" "fst (split_selector selector) \<in> {[], u}" for u q
      using labelled_iff [OF assms, of u q selector] t(2) that by simp
    with t ps show "(\<exists>ps t. ResolveAll selector b = Ok ps \<and> p \<in> set ps \<and> p \<in> set (slice_at (nodes b) t)) \<and>
       (carries selector b \<longrightarrow> PeerCommonName p = selector) \<and>
       (PeerCommonName p = selector \<or>
        (\<forall>t q. q \<in> set (slice_at (nodes b) t) \<longrightarrow> nodeLabel (PeerCommonName q) = snd (split_selector selector) \<longrightarrow>
           fst (split_selector selector) \<in> {[], t} \<longrightarrow> q = p))" by auto
  qed
qed

text \<open>One node answers its selector; two nodes with one label, of different dp types, are ambiguous.\<close>

theorem Resolve_correct_witness:
  "Resolve_node ''l4lb/n1'' (fst (Add ''l4lb'' \<lparr> peer_id = 1, PeerCommonName = ''n1.dp'' \<rparr> New_broker)) =
     Ok \<lparr> peer_id = 1, PeerCommonName = ''n1.dp'' \<rparr> \<and>
   (\<exists>ps. ResolveAll ''l4lb/n1'' (fst (Add ''l4lb'' \<lparr> peer_id = 1, PeerCommonName = ''n1.dp'' \<rparr> New_broker)) = Ok ps \<and>
     \<lparr> peer_id = 1, PeerCommonName = ''n1.dp'' \<rparr> \<in> set ps) \<and>
   Resolve_node ''n1'' (fst (Add ''dns'' \<lparr> peer_id = 2, PeerCommonName = ''n1.dns'' \<rparr>
     (fst (Add ''l4lb'' \<lparr> peer_id = 1, PeerCommonName = ''n1.dp'' \<rparr> New_broker)))) = Err (Ambiguous ''n1'' ''n1'')"
proof -
  let ?p = "\<lparr> peer_id = 1, PeerCommonName = ''n1.dp'' \<rparr>"
  let ?b = "fst (Add ''l4lb'' ?p New_broker)"
  let ?c = "fst (Add ''dns'' \<lparr> peer_id = 2, PeerCommonName = ''n1.dns'' \<rparr> ?b)"
  have r: "Resolve_node ''l4lb/n1'' ?b = Ok ?p"
    by (simp add: Resolve_node_def Find_def typed_peers_def Add_def New_broker_def slice_at_def
        split_selector_def nodeLabel_def Let_def)
  have "\<not> carries ''n1'' ?c" "length (labelled ''n1'' ?c) = 2" "snd (split_selector ''n1'') = ''n1''"
    by (auto simp: carries_def labelled_def typed_peers_def Add_def New_broker_def slice_at_def
        split_selector_def nodeLabel_def Let_def split: if_splits)
  moreover have "map_ok (nodes ?b)" "map_ok (nodes ?c)" by (simp_all add: Add_def New_broker_def Let_def map_ok_def)
  ultimately show ?thesis using r Resolve_correct [of ?b "''l4lb/n1''"] Resolve_correct [of ?c "''n1''"] by auto
qed

section \<open>The agent registry\<close>

datatype agent_op = AgentAdd string peer | AgentRemove string peer

fun run_agent :: "agent_op \<Rightarrow> registry \<Rightarrow> registry" where
  "run_agent (AgentAdd cn p) a = agent_Add cn p a"
| "run_agent (AgentRemove cn p) a = agent_Remove cn p a"

text \<open>The specification: the connections of a common name that were added and not removed, oldest first.\<close>

fun connections :: "string \<Rightarrow> agent_op \<Rightarrow> peer list \<Rightarrow> peer list" where
  "connections cn (AgentAdd cn' p) ps = (if cn = cn' then ps @ [p] else ps)"
| "connections cn (AgentRemove cn' p) ps = (if cn = cn' then remove1 p ps else ps)"

definition connections_after :: "agent_op list \<Rightarrow> string \<Rightarrow> peer list" where
  "connections_after ops cn = fold (connections cn) ops []"

definition registry_ok :: "registry \<Rightarrow> bool" where
  "registry_ok a \<longleftrightarrow> map_ok a \<and> (\<forall>(cn, ps) \<in> set a. ps \<noteq> [])"

lemma slice_at_in: "map_ok a \<Longrightarrow> (cn, ps) \<in> set a \<Longrightarrow> slice_at a cn = ps"
  by (simp add: slice_at_def map_of_in)

lemma in_slice_at: "map_ok a \<Longrightarrow> slice_at a cn \<noteq> [] \<Longrightarrow> (cn, slice_at a cn) \<in> set a"
  by (auto simp: slice_at_def map_of_in split: option.splits)

lemma registry_ok_alt:
  "registry_ok a \<longleftrightarrow> map_ok a \<and> (\<forall>cn. map_of a cn \<noteq> Some [])"
  by (auto simp: registry_ok_def map_of_in)

lemma run_agent_ok: "registry_ok a \<Longrightarrow> registry_ok (run_agent op a)"
  by (cases op) (auto simp: registry_ok_alt agent_Add_def agent_Remove_def Let_def split: if_splits)

lemma run_agent_slice: "slice_at (run_agent op a) cn = connections cn op (slice_at a cn)"
  by (cases op) (auto simp: agent_Add_def agent_Remove_def Let_def)

lemma registry_runs:
  "registry_ok a \<Longrightarrow> registry_ok (fold run_agent ops a) \<and>
     slice_at (fold run_agent ops a) cn = fold (connections cn) ops (slice_at a cn)"
  by (induction ops arbitrary: a) (simp_all add: run_agent_ok run_agent_slice)

lemma agent_List_Ok:
  "(\<forall>(cn, ps) \<in> set a. ps \<noteq> []) \<Longrightarrow> agent_List a = Ok (map (hd \<circ> snd) a)"
  by (induction a) (auto simp: first_peer_def split: list.splits)

lemma agent_Resolve_Ok:
  "(\<forall>(cn, ps) \<in> set a. ps \<noteq> []) \<Longrightarrow>
     (\<exists>cn ps. (cn, ps) \<in> set a \<and> (cn = sel \<or> nodeLabel cn = sel) \<and> agent_Resolve sel a = Ok (Some (hd ps))) \<or>
     agent_Resolve sel a = Ok None \<and> (\<forall>(cn, ps) \<in> set a. cn \<noteq> sel \<and> nodeLabel cn \<noteq> sel)"
proof (induction a)
  case (Cons x a)
  obtain cn ps where x: "x = (cn, ps)" by (cases x)
  then have "ps \<noteq> []" using Cons.prems by simp
  then have first: "first_peer ps = Ok (hd ps)" by (cases ps) (simp_all add: first_peer_def)
  show ?case
  proof (cases "cn = sel \<or> nodeLabel cn = sel")
    case True
    then show ?thesis using first by (intro disjI1 exI [of _ cn] exI [of _ ps]) (simp add: x)
  next
    case False
    have "\<forall>(cn, ps) \<in> set a. ps \<noteq> []" using Cons.prems by simp
    from Cons.IH [OF this] False show ?thesis by (auto simp: x)
  qed
qed simp

text \<open>
  C33. After any sequence of additions and removals the registry answers without panicking: \<open>List\<close>
  returns the oldest connection that is still registered of each agent, and \<open>Resolve\<close> the oldest
  connection of an agent whose common name or node label is the selector, or nothing when no agent
  with a connection is called so. Removing one of several connections of an agent never hides the
  others.
\<close>

theorem agent_registry_refines:
  "\<exists>ps r. agent_List (fold run_agent ops NewAgentRegistry) = Ok ps \<and>
     set ps = {hd (connections_after ops cn) | cn. connections_after ops cn \<noteq> []} \<and>
     agent_Resolve sel (fold run_agent ops NewAgentRegistry) = Ok r \<and>
     (case r of
        Some p \<Rightarrow> \<exists>cn. (cn = sel \<or> nodeLabel cn = sel) \<and> connections_after ops cn \<noteq> [] \<and> p = hd (connections_after ops cn)
      | None \<Rightarrow> \<forall>cn. cn = sel \<or> nodeLabel cn = sel \<longrightarrow> connections_after ops cn = [])"
proof -
  let ?a = "fold run_agent ops NewAgentRegistry"
  have "registry_ok NewAgentRegistry" by (simp add: registry_ok_def NewAgentRegistry_def)
  from registry_runs [OF this] have ok: "registry_ok ?a" and slice: "slice_at ?a cn = connections_after ops cn" for cn
    unfolding connections_after_def by (simp_all add: slice_at_def NewAgentRegistry_def)
  have keys: "(cn, ps) \<in> set ?a \<longleftrightarrow> ps = connections_after ops cn \<and> ps \<noteq> []" for cn ps
  proof
    assume m: "(cn, ps) \<in> set ?a"
    then have "ps \<noteq> []" using ok unfolding registry_ok_def by blast
    then show "ps = connections_after ops cn \<and> ps \<noteq> []"
      using slice [of cn] slice_at_in [OF _ m] ok unfolding registry_ok_def by simp
  next
    assume "ps = connections_after ops cn \<and> ps \<noteq> []"
    then show "(cn, ps) \<in> set ?a"
      using in_slice_at [of ?a cn] ok unfolding registry_ok_def slice by metis
  qed
  have ne: "\<forall>(cn, ps) \<in> set ?a. ps \<noteq> []" using ok by (simp add: registry_ok_def)
  have heads: "set (map (hd \<circ> snd) ?a) = {hd (connections_after ops cn) | cn. connections_after ops cn \<noteq> []}"
  proof (intro set_eqI iffI)
    fix p
    assume "p \<in> set (map (hd \<circ> snd) ?a)"
    then obtain cn ps where "(cn, ps) \<in> set ?a" "p = hd ps" by auto
    then show "p \<in> {hd (connections_after ops cn) | cn. connections_after ops cn \<noteq> []}" using keys [of cn ps] by blast
  next
    fix p
    assume "p \<in> {hd (connections_after ops cn) | cn. connections_after ops cn \<noteq> []}"
    then obtain cn where "connections_after ops cn \<noteq> []" "p = hd (connections_after ops cn)" by blast
    then have "(cn, connections_after ops cn) \<in> set ?a" "p = (hd \<circ> snd) (cn, connections_after ops cn)" using keys by simp_all
    then show "p \<in> set (map (hd \<circ> snd) ?a)" unfolding set_map by (rule rev_image_eqI)
  qed
  show ?thesis
  proof (cases "agent_Resolve sel ?a = Ok None \<and> (\<forall>(cn, ps) \<in> set ?a. cn \<noteq> sel \<and> nodeLabel cn \<noteq> sel)")
    case True
    have "connections_after ops cn = []" if "cn = sel \<or> nodeLabel cn = sel" for cn
    proof (rule ccontr)
      assume "connections_after ops cn \<noteq> []"
      then have "(cn, connections_after ops cn) \<in> set ?a" using keys by simp
      with True that show False by blast
    qed
    then show ?thesis using agent_List_Ok [OF ne] heads True
      by (intro exI [of _ "map (hd \<circ> snd) ?a"] exI [of _ None]) simp
  next
    case False
    then obtain cn ps where "(cn, ps) \<in> set ?a" "cn = sel \<or> nodeLabel cn = sel"
      and r: "agent_Resolve sel ?a = Ok (Some (hd ps))" using agent_Resolve_Ok [OF ne, of sel] by blast
    then have "\<exists>cn. (cn = sel \<or> nodeLabel cn = sel) \<and> connections_after ops cn \<noteq> [] \<and> hd ps = hd (connections_after ops cn)"
      using keys [of cn ps] by blast
    then show ?thesis using agent_List_Ok [OF ne] heads r
      by (intro exI [of _ "map (hd \<circ> snd) ?a"] exI [of _ "Some (hd ps)"]) simp
  qed
qed

theorem agent_registry_refines_witness:
  "\<exists>p. agent_Resolve ''mon'' (fold run_agent
       [AgentAdd ''mon.x'' \<lparr> peer_id = 1, PeerCommonName = ''mon.x'' \<rparr>,
        AgentAdd ''mon.x'' \<lparr> peer_id = 2, PeerCommonName = ''mon.x'' \<rparr>,
        AgentRemove ''mon.x'' \<lparr> peer_id = 2, PeerCommonName = ''mon.x'' \<rparr>] NewAgentRegistry) = Ok (Some p) \<and>
     peer_id p = 1"
proof -
  let ?p = "\<lparr> peer_id = 1, PeerCommonName = ''mon.x'' \<rparr>" and ?q = "\<lparr> peer_id = 2, PeerCommonName = ''mon.x'' \<rparr>"
  define ops where "ops = [AgentAdd ''mon.x'' ?p, AgentAdd ''mon.x'' ?q, AgentRemove ''mon.x'' ?q]"
  have c: "connections_after ops cn = (if cn = ''mon.x'' then [?p] else [])" for cn
    by (simp add: connections_after_def ops_def)
  have label: "nodeLabel ''mon.x'' = ''mon''" by (simp add: nodeLabel_def)
  obtain r where r: "agent_Resolve ''mon'' (fold run_agent ops NewAgentRegistry) = Ok r"
    and spec: "case r of
        Some p \<Rightarrow> \<exists>cn. (cn = ''mon'' \<or> nodeLabel cn = ''mon'') \<and> connections_after ops cn \<noteq> [] \<and>
          p = hd (connections_after ops cn)
      | None \<Rightarrow> \<forall>cn. cn = ''mon'' \<or> nodeLabel cn = ''mon'' \<longrightarrow> connections_after ops cn = []"
    using agent_registry_refines [of ops "''mon''"] by blast
  have "\<exists>p. r = Some p \<and> peer_id p = 1"
    using spec label by (cases r) (auto simp: c split: if_splits)
  then show ?thesis using r unfolding ops_def by blast
qed

end
