(* ===== verification/Desired_Store.thy ===== *)
theory Desired_Store
  imports Kscale_Prelude "HOL-Library.List_Lexorder" "HOL-Library.Char_ord"
begin

text \<open>
  The control plane's desired state: the store the generator emits for every declarative resource
  (\<open>service/*/store_gen.go\<close>, here \<open>service/l4route/store_gen.go\<close>) and the manager that persists all
  stores in one encrypted file (\<open>desiredstate/manager.go\<close>, \<open>ca/storage/util.go\<close>).
\<close>

section \<open>Keyed stores\<close>

text \<open>
  What the other components rely on: a store is a map from names to declarations, whatever order
  the program ranges over it.
\<close>

locale keyed_store =
  fixes get :: "'k \<Rightarrow> 's \<Rightarrow> 'v option"
    and put :: "'k \<Rightarrow> 'v \<Rightarrow> 's \<Rightarrow> 's"
    and delete :: "'k \<Rightarrow> 's \<Rightarrow> 's"
    and contents :: "'s \<Rightarrow> 'v list"
    and key :: "'v \<Rightarrow> 'k"
    and ok :: "'s \<Rightarrow> bool"
  assumes get_put: "ok s \<Longrightarrow> get k (put k' v s) = (if k = k' then Some v else get k s)"
    and get_delete: "ok s \<Longrightarrow> get k (delete k' s) = (if k = k' then None else get k s)"
    and put_ok: "ok s \<Longrightarrow> key v = k \<Longrightarrow> ok (put k v s)"
    and delete_ok: "ok s \<Longrightarrow> ok (delete k s)"
    and contents_get: "ok s \<Longrightarrow> v \<in> set (contents s) \<longleftrightarrow> get (key v) s = Some v"
    and distinct_contents: "ok s \<Longrightarrow> distinct (map key (contents s))"
begin

lemma contents_put:
  assumes "ok s" "key v = k"
  shows "set (contents (put k v s)) = insert v {w \<in> set (contents s). key w \<noteq> k}"
proof (rule set_eqI)
  fix w
  show "w \<in> set (contents (put k v s)) \<longleftrightarrow> w \<in> insert v {w \<in> set (contents s). key w \<noteq> k}"
    unfolding contents_get [OF put_ok [OF assms]] get_put [OF assms(1)]
    using contents_get [OF assms(1), of w] assms(2) by auto
qed

lemma contents_delete:
  assumes "ok s"
  shows "set (contents (delete k s)) = {w \<in> set (contents s). key w \<noteq> k}"
proof (rule set_eqI)
  fix w
  show "w \<in> set (contents (delete k s)) \<longleftrightarrow> w \<in> {w \<in> set (contents s). key w \<noteq> k}"
    unfolding contents_get [OF delete_ok [OF assms]] get_delete [OF assms]
    using contents_get [OF assms, of w] by auto
qed

lemma put_replaces: "ok s \<Longrightarrow> key v = k \<Longrightarrow> key w = k \<Longrightarrow> get k' (put k w (put k v s)) = get k' (put k w s)"
  using get_put [of s] get_put [OF put_ok, of s v k] by simp

lemma puts_commute:
  "ok s \<Longrightarrow> key v = k \<Longrightarrow> key w = l \<Longrightarrow> k \<noteq> l \<Longrightarrow> get m (put k v (put l w s)) = get m (put l w (put k v s))"
  using get_put [of s] get_put [OF put_ok] by simp

end

section \<open>The generated store\<close>

text \<open>
  \<open>name\<close> reads the \<open>Name\<close> of a declaration. Callbacks are named by numbers: a change returns those
  to call, in order. \<open>confirm\<close> is what the hook \<open>ConfirmPush\<close> answers, \<open>None\<close> when it is not set.
\<close>

record 'v handlers =
  store :: "(string \<times> 'v) list"
  onChange :: "nat list"

definition New_handlers :: "'v handlers" where
  "New_handlers = \<lparr> store = [], onChange = [] \<rparr>"

definition notify :: "'v handlers \<Rightarrow> nat list" where
  "notify h = onChange h"

definition store_Apply ::
    "string option option \<Rightarrow> string \<Rightarrow> 'v \<Rightarrow> 'v handlers \<Rightarrow> 'v handlers \<times> nat list \<times> string option" where
  "store_Apply confirm name obj h =
     (let h' = h \<lparr> store := AList.update name obj (store h) \<rparr> in
      (h', notify h', case confirm of None \<Rightarrow> None | Some err \<Rightarrow> err))"

definition store_Get :: "string \<Rightarrow> 'v handlers \<Rightarrow> (string, 'v) outcome" where
  "store_Get name h = (case map_of (store h) name of Some obj \<Rightarrow> Ok obj | None \<Rightarrow> Err name)"

definition store_List :: "'v handlers \<Rightarrow> 'v list" where
  "store_List h = map (\<lambda>k. the (map_of (store h) k)) (sort (map fst (store h)))"

definition store_Delete :: "string \<Rightarrow> 'v handlers \<Rightarrow> 'v handlers \<times> nat list" where
  "store_Delete name h =
     (let h' = h \<lparr> store := AList.delete name (store h) \<rparr> in (h', notify h'))"

definition OnChange :: "nat \<Rightarrow> 'v handlers \<Rightarrow> 'v handlers" where
  "OnChange f h = h \<lparr> onChange := onChange h @ [f] \<rparr>"

definition Desired :: "'v handlers \<Rightarrow> 'v list" where
  "Desired h = map snd (store h)"

text \<open>
  \<open>marshal\<close> and \<open>unmarshal\<close> are \<open>encoding/json\<close> on the map; JSON \<open>null\<close> unmarshals to the nil map.
\<close>

definition Snapshot :: "((string \<times> 'v) list \<Rightarrow> 'raw) \<Rightarrow> 'v handlers \<Rightarrow> 'raw" where
  "Snapshot marshal h = marshal (store h)"

definition Restore ::
    "('raw \<Rightarrow> (string, (string \<times> 'v) list option) outcome) \<Rightarrow> 'raw \<Rightarrow> 'v handlers \<Rightarrow>
     (string, 'v handlers) outcome" where
  "Restore unmarshal raw h =
     bind_outcome (unmarshal raw) (\<lambda>m.
       Ok (h \<lparr> store := (case m of None \<Rightarrow> [] | Some m \<Rightarrow> m) \<rparr>))"

text \<open>Every declaration is stored under its name.\<close>

definition store_ok :: "('v \<Rightarrow> string) \<Rightarrow> 'v handlers \<Rightarrow> bool" where
  "store_ok name h \<longleftrightarrow> map_ok (store h) \<and> (\<forall>k v. map_of (store h) k = Some v \<longrightarrow> name v = k)"

lemma store_ok_get:
  assumes "store_ok name h"
  shows "v \<in> set (Desired h) \<longleftrightarrow> map_of (store h) (name v) = Some v"
proof -
  have ok: "map_ok (store h)" using assms by (simp add: store_ok_def)
  have "v \<in> set (Desired h) \<longleftrightarrow> (\<exists>k. (k, v) \<in> set (store h))" by (force simp: Desired_def image_iff)
  also have "\<dots> \<longleftrightarrow> (\<exists>k. map_of (store h) k = Some v)" by (simp only: map_of_in [OF ok])
  also have "\<dots> \<longleftrightarrow> map_of (store h) (name v) = Some v" using assms unfolding store_ok_def by metis
  finally show ?thesis .
qed

lemma store_ok_names:
  assumes "store_ok name h"
  shows "map name (Desired h) = map fst (store h)"
proof -
  have "name v = k" if "(k, v) \<in> set (store h)" for k v
    using assms that by (simp add: store_ok_def map_of_in)
  then show ?thesis by (auto simp: Desired_def)
qed

lemma store_ok_update:
  "store_ok name h \<Longrightarrow> name v = k \<Longrightarrow> store_ok name (h \<lparr> store := AList.update k v (store h) \<rparr>)"
  by (simp add: store_ok_def)

lemma store_ok_delete: "store_ok name h \<Longrightarrow> store_ok name (h \<lparr> store := AList.delete k (store h) \<rparr>)"
  by (simp add: store_ok_def)

lemma handlers_keyed_store:
  "keyed_store (\<lambda>k h. map_of (store h) k) (\<lambda>k v h. fst (store_Apply confirm k v h)) (\<lambda>k h. fst (store_Delete k h))
     Desired name (store_ok name)"
proof
  fix h :: "'a handlers" and v
  assume ok: "store_ok name h"
  show "v \<in> set (Desired h) \<longleftrightarrow> map_of (store h) (name v) = Some v" by (rule store_ok_get [OF ok])
  show "distinct (map name (Desired h))"
    using ok by (simp add: store_ok_names) (simp add: store_ok_def map_ok_def)
qed (auto simp: store_Apply_def store_Delete_def Let_def intro: store_ok_update store_ok_delete)

interpretation stores: keyed_store "\<lambda>k h. map_of (store h) k" "\<lambda>k v h. fst (store_Apply confirm k v h)"
    "\<lambda>k h. fst (store_Delete k h)" Desired name "store_ok name" for confirm name
  by (rule handlers_keyed_store)

section \<open>Listing\<close>

lemma sorted_keys:
  "map_ok m \<Longrightarrow> sort (map fst m) = sorted_list_of_set (dom (map_of m))"
  using sorted_list_of_set_sort_remdups [of "map fst m"]
  by (simp add: map_ok_def dom_map_of_conv_image_fst distinct_remdups_id)

text \<open>
  \<open>List\<close> returns every declaration exactly once, in strictly ascending order of the names,
  whatever the order in which the program ranges over the map: two stores with the same contents list alike.
\<close>

theorem store_List_canonical:
  assumes "store_ok name h"
  shows "set (store_List h) = set (Desired h) \<and>
     sorted_wrt (<) (map name (store_List h)) \<and>
     (\<forall>h'. map_of (store h') = map_of (store h) \<longrightarrow> map_ok (store h') \<longrightarrow> store_List h' = store_List h)"
proof (intro conjI allI impI)
  have ok: "map_ok (store h)" using assms by (simp add: store_ok_def)
  let ?ks = "sort (map fst (store h))"
  have get: "map_of (store h) k = Some (the (map_of (store h) k))" if "k \<in> set ?ks" for k
    using that by (auto simp: dom_map_of_conv_image_fst [symmetric] dom_def)
  have named: "name (the (map_of (store h) k)) = k" if "k \<in> set ?ks" for k
    using get [OF that] assms unfolding store_ok_def by blast
  then have "map (\<lambda>k. name (the (map_of (store h) k))) ?ks = ?ks" by (intro map_idI) blast
  then have names: "map name (store_List h) = ?ks" by (simp add: store_List_def comp_def)
  have "distinct ?ks" using ok by (simp add: map_ok_def)
  then show "sorted_wrt (<) (map name (store_List h))" unfolding names by (simp add: strict_sorted_iff)
  show "set (store_List h) = set (Desired h)"
  proof (rule set_eqI)
    fix v
    have "v \<in> set (store_List h) \<longleftrightarrow> (\<exists>k \<in> set ?ks. v = the (map_of (store h) k))" by (auto simp: store_List_def)
    also have "\<dots> \<longleftrightarrow> map_of (store h) (name v) = Some v"
    proof
      assume "\<exists>k \<in> set ?ks. v = the (map_of (store h) k)"
      then obtain k where "k \<in> set ?ks" "v = the (map_of (store h) k)" by blast
      with get [of k] named [of k] show "map_of (store h) (name v) = Some v" by simp
    next
      assume v: "map_of (store h) (name v) = Some v"
      then have "name v \<in> set ?ks" by (auto simp: dom_map_of_conv_image_fst [symmetric])
      with v show "\<exists>k \<in> set ?ks. v = the (map_of (store h) k)" by (intro bexI [of _ "name v"]) simp_all
    qed
    finally show "v \<in> set (store_List h) \<longleftrightarrow> v \<in> set (Desired h)" unfolding store_ok_get [OF assms] .
  qed
  fix h' :: "'a handlers"
  assume h': "map_of (store h') = map_of (store h)" "map_ok (store h')"
  show "store_List h' = store_List h"
    unfolding store_List_def sorted_keys [OF ok] sorted_keys [OF h'(2)] h'(1) ..
qed

section \<open>Persistence\<close>

text \<open>
  AES-GCM is the parameter \<open>seal\<close>/\<open>unseal\<close>, with the key sizes \<open>aes.NewCipher\<close> accepts and nonces of
  twelve bytes; \<open>nonce\<close> is what \<open>rand.Read\<close> returns.
\<close>

type_synonym bytes = "u8 list"

definition aes_key_ok :: "bytes \<Rightarrow> bool" where
  "aes_key_ok key \<longleftrightarrow> length key = 16 \<or> length key = 24 \<or> length key = 32"

definition EncryptAESGCM :: "(bytes \<Rightarrow> bytes \<Rightarrow> bytes \<Rightarrow> bytes) \<Rightarrow> bytes \<Rightarrow> bytes \<Rightarrow> bytes \<Rightarrow> (string, bytes) outcome" where
  "EncryptAESGCM seal nonce data key =
     (if \<not> aes_key_ok key then Err ''invalid key size''
      else Ok (nonce @ seal key nonce data))"

definition DecryptAESGCM :: "(bytes \<Rightarrow> bytes \<Rightarrow> bytes \<Rightarrow> bytes option) \<Rightarrow> bytes \<Rightarrow> bytes \<Rightarrow> (string, bytes) outcome" where
  "DecryptAESGCM unseal encData key =
     (if \<not> aes_key_ok key then Err ''invalid key size''
      else if length encData < 12 then Err ''ciphertext too short''
      else case unseal key (take 12 encData) (drop 12 encData) of
        None \<Rightarrow> Err ''message authentication failed''
      | Some plaintext \<Rightarrow> Ok plaintext)"

lemma Decrypt_Encrypt:
  assumes "\<And>key nonce data. unseal key nonce (seal key nonce data) = Some data"
    "length nonce = 12" "EncryptAESGCM seal nonce data key = Ok enc"
  shows "DecryptAESGCM unseal enc key = Ok data"
  using assms by (auto simp: EncryptAESGCM_def DecryptAESGCM_def split: if_splits)

text \<open>
  The manager: the stores under their names, the file, and the hash of the last snapshot written.
  A store is any state with the two operations of the interface \<open>Store\<close>.
\<close>

record ('s, 'raw) store_interface =
  snap :: "'s \<Rightarrow> (string, 'raw) outcome"
  restore :: "'raw \<Rightarrow> 's \<Rightarrow> (string, 's) outcome"

record 's manager =
  file_path :: string
  enc_key :: bytes
  managed :: "(string \<times> 's) list"
  lastHash :: bytes

text \<open>What the manager takes from outside: JSON of the combined map, SHA-256, AES-GCM.\<close>

record 'raw platform =
  to_json :: "(string \<times> 'raw) list \<Rightarrow> bytes"
  from_json :: "bytes \<Rightarrow> (string \<times> 'raw) list option"
  sha256 :: "bytes \<Rightarrow> bytes"
  aead_seal :: "bytes \<Rightarrow> bytes \<Rightarrow> bytes \<Rightarrow> bytes"
  aead_open :: "bytes \<Rightarrow> bytes \<Rightarrow> bytes \<Rightarrow> bytes option"

type_synonym disk = "string \<Rightarrow> bytes option"

definition NewManager :: "string \<Rightarrow> bytes \<Rightarrow> 's manager" where
  "NewManager p key = \<lparr> file_path = p, enc_key = key, managed = [], lastHash = replicate 32 0 \<rparr>"

definition Register :: "string \<Rightarrow> 's \<Rightarrow> 's manager \<Rightarrow> 's manager" where
  "Register name s m = m \<lparr> managed := managed m @ [(name, s)] \<rparr>"

fun snapshot_loop ::
    "('s, 'raw) store_interface \<Rightarrow> (string \<times> 's) list \<Rightarrow> (string \<times> 'raw) list \<Rightarrow>
     (string, (string \<times> 'raw) list) outcome" where
  "snapshot_loop si [] out = Ok out"
| "snapshot_loop si ((name, s) # es) out =
     bind_outcome (snap si s) (\<lambda>raw. snapshot_loop si es (AList.update name raw out))"

definition manager_snapshot ::
    "('s, 'raw) store_interface \<Rightarrow> 'raw platform \<Rightarrow> 's manager \<Rightarrow> (string, bytes) outcome" where
  "manager_snapshot si pf m = bind_outcome (snapshot_loop si (managed m) []) (\<lambda>out. Ok (to_json pf out))"

fun restore_loop ::
    "('s, 'raw) store_interface \<Rightarrow> (string \<times> 'raw) list \<Rightarrow> (string \<times> 's) list \<Rightarrow>
     (string, unit) outcome \<times> (string \<times> 's) list" where
  "restore_loop si blob [] = (Ok (), [])"
| "restore_loop si blob ((name, s) # es) =
     (case map_of blob name of
        None \<Rightarrow> (let (res, es') = restore_loop si blob es in (res, (name, s) # es'))
      | Some raw \<Rightarrow>
          (case restore si raw s of
             Ok s' \<Rightarrow> (let (res, es') = restore_loop si blob es in (res, (name, s') # es'))
           | Err e \<Rightarrow> (Err e, (name, s) # es)
           | Panic \<Rightarrow> (Panic, (name, s) # es)))"

definition manager_Load ::
    "('s, 'raw) store_interface \<Rightarrow> 'raw platform \<Rightarrow> disk \<Rightarrow> 's manager \<Rightarrow> (string, unit) outcome \<times> 's manager" where
  "manager_Load si pf d m =
     (case d (file_path m) of
        None \<Rightarrow> (Ok (), m)
      | Some file \<Rightarrow>
          (case DecryptAESGCM (aead_open pf) file (enc_key m) of
             Err e \<Rightarrow> (Err e, m)
           | Panic \<Rightarrow> (Panic, m)
           | Ok data \<Rightarrow>
               (case from_json pf data of
                  None \<Rightarrow> (Err ''parse desired state'', m)
                | Some blob \<Rightarrow>
                    let (res, es) = restore_loop si blob (managed m);
                        m' = m \<lparr> managed := es \<rparr>
                    in (case res of
                          Ok _ \<Rightarrow>
                            (Ok (), case manager_snapshot si pf m' of
                               Ok cur \<Rightarrow> m' \<lparr> lastHash := sha256 pf cur \<rparr>
                             | _ \<Rightarrow> m')
                        | Err e \<Rightarrow> (Err e, m')
                        | Panic \<Rightarrow> (Panic, m')))))"

text \<open>
  \<open>saveToFile\<close> truncates the file when it opens it: a write that fails leaves what it wrote so far.
\<close>

datatype write_result = Written | OpenFails | WriteFails nat | SyncFails

definition saveToFile :: "write_result \<Rightarrow> string \<Rightarrow> bytes \<Rightarrow> disk \<Rightarrow> (string, unit) outcome \<times> disk" where
  "saveToFile r p data d =
     (case r of
        Written \<Rightarrow> (Ok (), d(p \<mapsto> data))
      | OpenFails \<Rightarrow> (Err ''open'', d)
      | WriteFails n \<Rightarrow> (Err ''write'', d(p \<mapsto> take n data))
      | SyncFails \<Rightarrow> (Err ''sync'', d(p \<mapsto> data)))"

definition manager_save ::
    "('s, 'raw) store_interface \<Rightarrow> 'raw platform \<Rightarrow> bytes \<Rightarrow> write_result \<Rightarrow> disk \<Rightarrow> 's manager \<Rightarrow>
     (string, unit) outcome \<times> disk \<times> 's manager" where
  "manager_save si pf nonce r d m =
     (case manager_snapshot si pf m of
        Err e \<Rightarrow> (Err e, d, m)
      | Panic \<Rightarrow> (Panic, d, m)
      | Ok data \<Rightarrow>
          let h = sha256 pf data in
          if h = lastHash m then (Ok (), d, m)
          else
            (case EncryptAESGCM (aead_seal pf) nonce data (enc_key m) of
               Err e \<Rightarrow> (Err e, d, m)
             | Panic \<Rightarrow> (Panic, d, m)
             | Ok enc \<Rightarrow>
                 (case saveToFile r (file_path m) enc d of
                    (Ok _, d') \<Rightarrow> (Ok (), d', m \<lparr> lastHash := h \<rparr>)
                  | (Err e, d') \<Rightarrow> (Err e, d', m)
                  | (Panic, d') \<Rightarrow> (Panic, d', m))))"

section \<open>Saving and loading\<close>

text \<open>
  The documented behaviour of what the manager takes from outside: decryption undoes encryption, and
  the JSON of a map from names to raw messages parses to that map and depends on the map only.
\<close>

definition platform_ok :: "'raw platform \<Rightarrow> bool" where
  "platform_ok pf \<longleftrightarrow>
     (\<forall>k n x. aead_open pf k n (aead_seal pf k n x) = Some x) \<and>
     (\<forall>m. map_ok m \<longrightarrow> (\<exists>m'. from_json pf (to_json pf m) = Some m' \<and> map_of m' = map_of m))"

text \<open>A store restores what a store snapshot: \<open>same s s'\<close> is that they hold the same declarations.\<close>

definition interface_ok :: "('s, 'raw) store_interface \<Rightarrow> ('s \<Rightarrow> 's \<Rightarrow> bool) \<Rightarrow> bool" where
  "interface_ok si same \<longleftrightarrow>
     (\<forall>s s0 raw. snap si s = Ok raw \<longrightarrow> (\<exists>s'. restore si raw s0 = Ok s' \<and> same s s'))"

text \<open>The generated store is such a store.\<close>

definition handlers_interface ::
    "((string \<times> 'v) list \<Rightarrow> 'raw) \<Rightarrow> ('raw \<Rightarrow> (string, (string \<times> 'v) list option) outcome) \<Rightarrow>
     ('v handlers, 'raw) store_interface" where
  "handlers_interface marshal unmarshal =
     \<lparr> snap = \<lambda>h. Ok (Snapshot marshal h), restore = Restore unmarshal \<rparr>"

lemma handlers_interface_ok:
  assumes "\<And>m. \<exists>m'. unmarshal (marshal m) = Ok (Some m') \<and> map_of m' = map_of m"
  shows "interface_ok (handlers_interface marshal unmarshal) (\<lambda>h h'. map_of (store h') = map_of (store h))"
  unfolding interface_ok_def
proof (intro allI impI)
  fix h h0 raw
  assume "snap (handlers_interface marshal unmarshal) h = Ok raw"
  then have raw: "raw = marshal (store h)" by (simp add: handlers_interface_def Snapshot_def)
  obtain m' where "unmarshal raw = Ok (Some m')" "map_of m' = map_of (store h)" using assms raw by blast
  then show "\<exists>s'. restore (handlers_interface marshal unmarshal) raw h0 = Ok s' \<and> map_of (store s') = map_of (store h)"
    by (simp add: handlers_interface_def Restore_def)
qed

lemma snapshot_loop_Ok:
  "snapshot_loop si es out = Ok out' \<Longrightarrow> distinct (map fst es) \<Longrightarrow> map_ok out \<Longrightarrow>
     map_ok out' \<and> (\<forall>k. k \<notin> set (map fst es) \<longrightarrow> map_of out' k = map_of out k) \<and>
     (\<forall>(k, s) \<in> set es. \<exists>raw. snap si s = Ok raw \<and> map_of out' k = Some raw)"
proof (induction es arbitrary: out)
  case (Cons e es)
  obtain k s where e: "e = (k, s)" by (cases e)
  obtain raw where raw: "snap si s = Ok raw" "snapshot_loop si es (AList.update k raw out) = Ok out'"
    using Cons.prems(1) by (auto simp: e)
  have k: "k \<notin> set (map fst es)" "distinct (map fst es)" using Cons.prems(2) by (simp_all add: e)
  from Cons.IH [OF raw(2) k(2)] Cons.prems(3)
  have ih: "map_ok out'" "\<forall>l. l \<notin> set (map fst es) \<longrightarrow> map_of out' l = map_of (AList.update k raw out) l"
    "\<forall>(k, s) \<in> set es. \<exists>raw. snap si s = Ok raw \<and> map_of out' k = Some raw" by auto
  have "map_of out' k = Some raw" using ih(2) k(1) by simp
  then show ?case using ih raw(1) by (auto simp: e)
qed simp

lemma restore_loop_Ok:
  "interface_ok si same \<Longrightarrow> map fst es = map fst es0 \<Longrightarrow>
     (\<forall>(k, s) \<in> set es. \<exists>raw. snap si s = Ok raw \<and> map_of blob k = Some raw) \<Longrightarrow>
     \<exists>es'. restore_loop si blob es0 = (Ok (), es') \<and> map fst es' = map fst es \<and>
       list_all2 (\<lambda>(_, s) (_, s'). same s s') es es'"
proof (induction es0 arbitrary: es)
  case (Cons e0 es0)
  obtain k s es1 s0 where e: "es = (k, s) # es1" "e0 = (k, s0)"
    using Cons.prems(2) by (cases es; cases e0) auto
  obtain raw where raw: "snap si s = Ok raw" "map_of blob k = Some raw" using Cons.prems(3) by (auto simp: e)
  obtain s' where s': "restore si raw s0 = Ok s'" "same s s'"
    using Cons.prems(1) raw(1) unfolding interface_ok_def by blast
  have "map fst es1 = map fst es0" using Cons.prems(2) by (simp add: e)
  moreover have "\<forall>(k, s) \<in> set es1. \<exists>raw. snap si s = Ok raw \<and> map_of blob k = Some raw"
    using Cons.prems(3) by (simp add: e)
  ultimately obtain es' where "restore_loop si blob es0 = (Ok (), es')" "map fst es' = map fst es1"
    "list_all2 (\<lambda>(_, s) (_, s'). same s s') es1 es'"
    using Cons.IH [OF Cons.prems(1), of es1] by blast
  then show ?case using raw s' by (simp add: e)
qed simp

text \<open>
  C34. A restart loses nothing: when the state was saved and its write succeeded, a fresh manager with
  the same stores registered and the same key loads the file without error, and every store holds
  the declarations its predecessor held.
\<close>

theorem desired_state_survives_restart:
  assumes "platform_ok pf" "interface_ok si same" "distinct (map fst (managed m))" "length nonce = 12"
    and "lastHash m \<noteq> sha256 pf data" "manager_snapshot si pf m = Ok data"
    and "manager_save si pf nonce Written d m = (Ok (), d', m')"
    and "file_path m0 = file_path m" "enc_key m0 = enc_key m" "map fst (managed m0) = map fst (managed m)"
  shows "\<exists>m0'. manager_Load si pf d' m0 = (Ok (), m0') \<and>
     list_all2 (\<lambda>(name, s) (name', s'). name = name' \<and> same s s') (managed m) (managed m0')"
proof -
  obtain enc where enc: "EncryptAESGCM (aead_seal pf) nonce data (enc_key m) = Ok enc" "d' = d(file_path m \<mapsto> enc)"
    using assms(5-7) by (auto simp: manager_save_def saveToFile_def split: outcome.splits)
  have dec: "DecryptAESGCM (aead_open pf) enc (enc_key m) = Ok data"
    using assms(1,4) enc(1) by (intro Decrypt_Encrypt) (auto simp: platform_ok_def)
  obtain out where out: "snapshot_loop si (managed m) [] = Ok out" "data = to_json pf out"
    using assms(6) by (auto simp: manager_snapshot_def)
  note snaps = snapshot_loop_Ok [OF out(1) assms(3) map_ok_Nil]
  then obtain blob where blob: "from_json pf data = Some blob" "map_of blob = map_of out"
    using assms(1) out(2) by (auto simp: platform_ok_def)
  have "\<forall>(k, s) \<in> set (managed m). \<exists>raw. snap si s = Ok raw \<and> map_of blob k = Some raw"
    using snaps blob(2) by simp
  from restore_loop_Ok [OF assms(2) assms(10) [symmetric] this] obtain es'
    where es': "restore_loop si blob (managed m0) = (Ok (), es')" "map fst es' = map fst (managed m)"
      "list_all2 (\<lambda>(_, s) (_, s'). same s s') (managed m) es'" by blast
  define m1 where "m1 = m0 \<lparr> managed := es' \<rparr>"
  have "manager_Load si pf d' m0 =
      (Ok (), case manager_snapshot si pf m1 of Ok cur \<Rightarrow> m1 \<lparr> lastHash := sha256 pf cur \<rparr> | _ \<Rightarrow> m1)"
    using enc(2) assms(8,9) dec blob(1) es'(1) by (simp add: manager_Load_def m1_def Let_def split: outcome.split)
  moreover have "managed (case manager_snapshot si pf m1 of Ok cur \<Rightarrow> m1 \<lparr> lastHash := sha256 pf cur \<rparr> | _ \<Rightarrow> m1) = es'"
    by (simp add: m1_def split: outcome.splits)
  moreover have "list_all2 (\<lambda>(name, s) (name', s'). name = name' \<and> same s s') (managed m) es'"
    using es'(2,3) by (auto simp: list_all2_conv_all_nth dest: map_eq_imp_length_eq)
      (metis fst_conv nth_map)
  ultimately show ?thesis by auto
qed

text \<open>
  After a load that succeeded, the next save writes nothing, whatever the file held: the hash is
  anchored to the state as it is serialised now, not to the file. The comment in the code expects a
  rewrite when the round trip is not byte-stable, which never happens.
\<close>

theorem save_after_Load_writes_nothing:
  assumes "manager_Load si pf d m = (Ok (), m')" "d (file_path m) \<noteq> None"
  shows "snd (manager_save si pf nonce r d m') = (d, m')"
proof -
  obtain m1 where m': "m' = (case manager_snapshot si pf m1 of Ok cur \<Rightarrow> m1 \<lparr> lastHash := sha256 pf cur \<rparr> | _ \<Rightarrow> m1)"
    using assms by (intro that [of "m \<lparr> managed := managed m' \<rparr>"])
      (auto simp: manager_Load_def Let_def split: outcome.splits option.splits prod.splits)
  have "manager_snapshot si pf (m1 \<lparr> lastHash := x \<rparr>) = manager_snapshot si pf m1" for x
    by (simp add: manager_snapshot_def)
  then show ?thesis
    by (cases "manager_snapshot si pf m1") (simp_all add: m' manager_save_def)
qed

section \<open>A concrete platform\<close>

text \<open>
  A platform with the assumed behaviour, on which the properties above apply: an unambiguous encoding
  of maps, the identity as encryption and a constant-length hash.
\<close>

definition frame :: "bytes \<Rightarrow> bytes" where
  "frame xs = concat (map (\<lambda>x. [1, x]) xs) @ [0]"

fun unframe :: "bytes \<Rightarrow> (bytes \<times> bytes) option" where
  "unframe [] = None"
| "unframe (b # r) =
     (if b = 0 then Some ([], r)
      else case r of [] \<Rightarrow> None | x # r' \<Rightarrow> map_option (\<lambda>(xs, r''). (x # xs, r'')) (unframe r'))"

lemma unframe_frame: "unframe (frame xs @ r) = Some (xs, r)"
  by (induction xs) (simp_all add: frame_def)

definition map_bytes :: "(string \<times> bytes) list \<Rightarrow> bytes" where
  "map_bytes m = concat (map (\<lambda>(k, v). frame (map of_char k) @ frame v) m)"

fun bytes_map :: "nat \<Rightarrow> bytes \<Rightarrow> (string \<times> bytes) list option" where
  "bytes_map 0 bs = None"
| "bytes_map (Suc n) bs =
     (if bs = [] then Some []
      else case unframe bs of
        None \<Rightarrow> None
      | Some (k, r) \<Rightarrow>
          (case unframe r of
             None \<Rightarrow> None
           | Some (v, r') \<Rightarrow> map_option ((#) (map (\<lambda>b. char_of (unat b)) k, v)) (bytes_map n r')))"

lemma char_byte: "char_of (unat (of_char c :: u8)) = c"
proof -
  have "unat (of_nat (of_char c) :: u8) = of_char c"
    by (rule unat_of_nat_small) (use nat_of_char_less_256 [of c] in simp)
  then show ?thesis by (metis char_of_char of_nat_of_char)
qed

lemma frame_length: "0 < length (frame xs)"
  by (simp add: frame_def)

lemma bytes_map_bytes: "length (map_bytes m) < n \<Longrightarrow> bytes_map n (map_bytes m) = Some m"
proof (induction m arbitrary: n)
  case Nil
  then show ?case by (cases n) (simp_all add: map_bytes_def)
next
  case (Cons e m)
  obtain k v where e: "e = (k, v)" by (cases e)
  have b: "map_bytes (e # m) = frame (map of_char k) @ frame v @ map_bytes m"
    by (simp add: map_bytes_def e)
  obtain n' where n: "n = Suc n'" using Cons.prems by (cases n) auto
  have "length (map_bytes m) < n'"
    using Cons.prems frame_length [of v] frame_length [of "map of_char k"]
    unfolding b n length_append by linarith
  moreover have "map_bytes (e # m) \<noteq> []" unfolding b by (simp add: frame_def)
  ultimately show ?case
    unfolding n using Cons.IH [of n'] by (simp add: b [unfolded e] unframe_frame e comp_def char_byte)
qed

definition example_platform :: "bytes platform" where
  "example_platform =
     \<lparr> to_json = map_bytes, from_json = (\<lambda>bs. bytes_map (Suc (length bs)) bs), sha256 = (\<lambda>bs. replicate 32 1),
       aead_seal = (\<lambda>k n x. x), aead_open = (\<lambda>k n x. Some x) \<rparr>"

lemma example_platform_ok: "platform_ok example_platform"
  by (auto simp: platform_ok_def example_platform_def bytes_map_bytes simp del: bytes_map.simps)

definition example_interface :: "(bytes handlers, bytes) store_interface" where
  "example_interface =
     handlers_interface map_bytes (\<lambda>bs. case bytes_map (Suc (length bs)) bs of None \<Rightarrow> Err ''json'' | Some m \<Rightarrow> Ok (Some m))"

lemma example_interface_ok: "interface_ok example_interface (\<lambda>h h'. map_of (store h') = map_of (store h))"
  unfolding example_interface_def
  by (rule handlers_interface_ok) (simp add: bytes_map_bytes del: bytes_map.simps)

definition example_manager :: "(string \<times> bytes) list \<Rightarrow> bytes handlers manager" where
  "example_manager m = Register ''vip'' \<lparr> store = m, onChange = [] \<rparr> (NewManager ''f'' (replicate 16 7))"

lemmas example_manager_defs = example_manager_def Register_def NewManager_def

theorem desired_state_survives_restart_witness:
  "\<exists>d' m' m0' h. manager_save example_interface example_platform (replicate 12 9) Written (\<lambda>_. None)
      (example_manager [(''a'', [1, 2])]) = (Ok (), d', m') \<and>
    manager_Load example_interface example_platform d' (example_manager []) = (Ok (), m0') \<and>
    managed m0' = [(''vip'', h)] \<and> map_of (store h) = [''a'' \<mapsto> [1, 2]]"
proof -
  let ?m = "example_manager [(''a'', [1, 2])]" and ?raw = "map_bytes [(''vip'', map_bytes [(''a'', [1, 2])])]"
  have snap: "manager_snapshot example_interface example_platform ?m = Ok ?raw"
    by (simp add: manager_snapshot_def example_manager_defs example_interface_def handlers_interface_def Snapshot_def
        example_platform_def)
  have hash: "lastHash ?m \<noteq> sha256 example_platform x" for x
    by (simp add: example_manager_defs example_platform_def numeral_eq_Suc)
  have "\<exists>d' m'. manager_save example_interface example_platform (replicate 12 9) Written (\<lambda>_. None) ?m = (Ok (), d', m')"
    using snap hash [of ?raw, THEN not_sym]
    by (simp add: manager_save_def Let_def EncryptAESGCM_def aes_key_ok_def saveToFile_def)
      (simp add: example_manager_defs)
  then obtain d' m' where save: "manager_save example_interface example_platform (replicate 12 9) Written (\<lambda>_. None) ?m =
      (Ok (), d', m')" by blast
  have "\<exists>m0'. manager_Load example_interface example_platform d' (example_manager []) = (Ok (), m0') \<and>
      list_all2 (\<lambda>(name, s) (name', s'). name = name' \<and> map_of (store s') = map_of (store s)) (managed ?m) (managed m0')"
    by (rule desired_state_survives_restart [OF example_platform_ok example_interface_ok _ _ hash snap save])
      (simp_all add: example_manager_defs)
  then obtain m0' where "manager_Load example_interface example_platform d' (example_manager []) = (Ok (), m0')"
    "list_all2 (\<lambda>(name, s) (name', s'). name = name' \<and> map_of (store s') = map_of (store s)) (managed ?m) (managed m0')"
    by blast
  moreover from this(2) obtain h where "managed m0' = [(''vip'', h)]" "map_of (store h) = [''a'' \<mapsto> [1, 2]]"
    by (auto simp: example_manager_defs list_all2_Cons1)
  ultimately show ?thesis using save by blast
qed

theorem save_after_Load_writes_nothing_witness:
  "\<exists>m'. manager_Load example_interface example_platform ((\<lambda>_. None)(''f'' \<mapsto> replicate 12 0 @ map_bytes []))
      (NewManager ''f'' (replicate 16 7)) = (Ok (), m') \<and>
    snd (manager_save example_interface example_platform [] Written ((\<lambda>_. None)(''f'' \<mapsto> replicate 12 0 @ map_bytes [])) m') =
      ((\<lambda>_. None)(''f'' \<mapsto> replicate 12 0 @ map_bytes []), m')"
proof -
  let ?d = "(\<lambda>_. None)(''f'' \<mapsto> replicate 12 0 @ map_bytes [])" and ?m = "NewManager ''f'' (replicate 16 7) :: bytes handlers manager"
  obtain m' where l: "manager_Load example_interface example_platform ?d ?m = (Ok (), m')"
    by (simp add: manager_Load_def NewManager_def DecryptAESGCM_def aes_key_ok_def example_platform_def map_bytes_def
        Let_def manager_snapshot_def)
  from save_after_Load_writes_nothing [OF l] l show ?thesis by (auto simp: NewManager_def)
qed

theorem store_List_canonical_witness:
  "map fst (store_List \<lparr> store = [(''b'', (''b'', 1 :: nat)), (''a'', (''a'', 2))], onChange = [] \<rparr>) = [''a'', ''b''] \<and>
   sorted_wrt (<) (map fst (store_List \<lparr> store = [(''b'', (''b'', 1 :: nat)), (''a'', (''a'', 2))], onChange = [] \<rparr>))"
proof
  let ?h = "\<lparr> store = [(''b'', (''b'', 1 :: nat)), (''a'', (''a'', 2))], onChange = [] \<rparr>"
  show "map fst (store_List ?h) = [''a'', ''b'']" by (simp add: store_List_def less_list_code)
  have "store_ok fst ?h" by (auto simp: store_ok_def map_ok_def split: if_splits)
  from store_List_canonical [OF this] show "sorted_wrt (<) (map fst (store_List ?h))" by blast
qed

end
