(* ===== verification/Net_Addresses.thy ===== *)
theory Net_Addresses
  imports Kscale_Prelude
begin

text \<open>
  What the l4lb's control plane takes from the Go packages \<open>net/netip\<close> and \<open>net\<close>: IP addresses
  and their IPv4 text, prefixes, MAC addresses.
\<close>

section \<open>Package netip\<close>

text \<open>
  \<open>netip.Addr\<close>: the zero value, an IPv4 address, or the sixteen bytes of an IPv6 address and its zone.
  Reading the text of an IPv6 address is the argument \<open>parse6\<close> of the definitions that do it; nothing
  that follows depends on what it is.
\<close>

datatype ip_addr = NoAddr | IPv4 u8 u8 u8 u8 | IPv6 "u8 list" string

fun Is4 :: "ip_addr \<Rightarrow> bool" where
  "Is4 (IPv4 _ _ _ _) = True"
| "Is4 _ = False"

fun Is6 :: "ip_addr \<Rightarrow> bool" where
  "Is6 (IPv6 _ _) = True"
| "Is6 _ = False"

definition IsValid :: "ip_addr \<Rightarrow> bool" where
  "IsValid ip \<longleftrightarrow> ip \<noteq> NoAddr"

definition IsUnspecified :: "ip_addr \<Rightarrow> bool" where
  "IsUnspecified ip \<longleftrightarrow> ip = IPv4 0 0 0 0 \<or> ip = IPv6 (replicate 16 0) ''''"

text \<open>\<open>As4\<close> panics on the zero value and reads the last four bytes of an IPv4-mapped IPv6 address.\<close>

definition v4_mapped :: "u8 list" where
  "v4_mapped = replicate 10 0 @ [0xFF, 0xFF]"

fun As4 :: "ip_addr \<Rightarrow> ('e, u8 list) outcome" where
  "As4 (IPv4 a b c d) = Ok [a, b, c, d]"
| "As4 (IPv6 bs zone) = (if take 12 bs = v4_mapped then Ok (drop 12 bs) else Panic)"
| "As4 NoAddr = Panic"

fun As16 :: "ip_addr \<Rightarrow> u8 list" where
  "As16 (IPv4 a b c d) = v4_mapped @ [a, b, c, d]"
| "As16 (IPv6 bs zone) = bs"
| "As16 NoAddr = replicate 16 0"

definition parse_octet :: "string \<Rightarrow> u8 option" where
  "parse_octet s =
     (if s \<noteq> [] \<and> list_all is_digit s \<and> (length s > 1 \<longrightarrow> hd s \<noteq> CHR ''0'') \<and> decimal_value s \<le> 255
      then Some (of_nat (decimal_value s)) else None)"

definition parse4 :: "string \<Rightarrow> ip_addr option" where
  "parse4 s =
     (case map parse_octet (Split (CHR ''.'') s) of
        [Some a, Some b, Some c, Some d] \<Rightarrow> Some (IPv4 a b c d)
      | _ \<Rightarrow> None)"

text \<open>\<open>ParseAddr\<close> decides by the first of dot, colon and percent sign.\<close>

definition ParseAddr :: "(string \<Rightarrow> ip_addr option) \<Rightarrow> string \<Rightarrow> ip_addr option" where
  "ParseAddr parse6 s =
     (case find (\<lambda>c. c \<in> set ''.:%'') s of
        None \<Rightarrow> None
      | Some c \<Rightarrow> if c = CHR ''.'' then parse4 s else if c = CHR '':'' then parse6 s else None)"

fun show4 :: "ip_addr \<Rightarrow> string" where
  "show4 (IPv4 a b c d) = Join (map (\<lambda>x. decimal (unat x)) [a, b, c, d]) ''.''"
| "show4 _ = ''''"

datatype prefix_addr = NoPrefix | Prefix ip_addr nat

definition parse_bits :: "nat \<Rightarrow> string \<Rightarrow> nat option" where
  "parse_bits most s =
     (if s \<noteq> [] \<and> list_all is_digit s \<and> (length s > 1 \<longrightarrow> hd s \<noteq> CHR ''0'') \<and> decimal_value s \<le> most
      then Some (decimal_value s) else None)"

text \<open>The prefix is split at the last slash; a zone is refused.\<close>

definition cut_last :: "char \<Rightarrow> string \<Rightarrow> (string \<times> string) option" where
  "cut_last c s = map_option (\<lambda>(b, a). (rev a, rev b)) (Cut c (rev s))"

definition ParsePrefix :: "(string \<Rightarrow> ip_addr option) \<Rightarrow> string \<Rightarrow> prefix_addr option" where
  "ParsePrefix parse6 s =
     (case cut_last (CHR ''/'') s of
        None \<Rightarrow> None
      | Some (a, b) \<Rightarrow>
          (case ParseAddr parse6 a of
             None \<Rightarrow> None
           | Some (IPv6 _ (_ # _)) \<Rightarrow> None
           | Some ip \<Rightarrow> map_option (Prefix ip) (parse_bits (if Is6 ip then 128 else 32) b)))"

fun prefix_Addr :: "prefix_addr \<Rightarrow> ip_addr" where
  "prefix_Addr NoPrefix = NoAddr"
| "prefix_Addr (Prefix ip _) = ip"

section \<open>Package net: hardware addresses\<close>

definition hex_digit :: "char \<Rightarrow> nat option" where
  "hex_digit c =
     (let n = of_char c :: nat in
      if 48 \<le> n \<and> n \<le> 57 then Some (n - 48)
      else if 97 \<le> n \<and> n \<le> 102 then Some (n - 87)
      else if 65 \<le> n \<and> n \<le> 70 then Some (n - 55)
      else None)"

definition hex_octet :: "char \<Rightarrow> char \<Rightarrow> u8 option" where
  "hex_octet a b =
     (case (hex_digit a, hex_digit b) of (Some x, Some y) \<Rightarrow> Some (of_nat (16 * x + y)) | _ \<Rightarrow> None)"

fun octets_by_one :: "char \<Rightarrow> string \<Rightarrow> u8 list option" where
  "octets_by_one sep [a, b] = map_option (\<lambda>x. [x]) (hex_octet a b)"
| "octets_by_one sep (a # b # c # s) =
     (case hex_octet a b of
        Some x \<Rightarrow> if c = sep then map_option ((#) x) (octets_by_one sep s) else None
      | None \<Rightarrow> None)"
| "octets_by_one sep _ = None"

fun octets_by_two :: "string \<Rightarrow> u8 list option" where
  "octets_by_two [a, b, c, d] =
     (case (hex_octet a b, hex_octet c d) of (Some x, Some y) \<Rightarrow> Some [x, y] | _ \<Rightarrow> None)"
| "octets_by_two (a # b # c # d # e # s) =
     (case (hex_octet a b, hex_octet c d) of
        (Some x, Some y) \<Rightarrow> if e = CHR ''.'' then map_option (\<lambda>r. x # y # r) (octets_by_two s) else None
      | _ \<Rightarrow> None)"
| "octets_by_two _ = None"

definition ParseMAC :: "string \<Rightarrow> u8 list option" where
  "ParseMAC s =
     (if length s < 14 then None
      else
        let hw = (if s ! 2 = CHR '':'' \<or> s ! 2 = CHR ''-'' then octets_by_one (s ! 2) s
                  else if s ! 4 = CHR ''.'' then octets_by_two s
                  else None)
        in case hw of None \<Rightarrow> None | Some bs \<Rightarrow> if length bs \<in> {6, 8, 20} then Some bs else None)"

definition hex_char :: "nat \<Rightarrow> char" where
  "hex_char d = (if d < 10 then char_of (d + 48) else char_of (d + 87))"

text \<open>The verb \<open>%x\<close> on bytes, and \<open>HardwareAddr.String\<close>.\<close>

definition hex2 :: "u8 \<Rightarrow> string" where
  "hex2 x = [hex_char (unat x div 16), hex_char (unat x mod 16)]"

definition hex_bytes :: "u8 list \<Rightarrow> string" where
  "hex_bytes bs = concat (map hex2 bs)"

definition HardwareAddr_String :: "u8 list \<Rightarrow> string" where
  "HardwareAddr_String bs = Join (map hex2 bs) '':''"

section \<open>Lemmas\<close>

lemma unat_u8: "unat (x :: u8) < 256"
  using unsigned_less [of x] by simp

lemma digits_avoid: "list_all is_digit s \<Longrightarrow> \<not> is_digit c \<Longrightarrow> c \<notin> set s"
  by (auto simp: list_all_iff)

lemma decimal_avoids: "\<not> is_digit c \<Longrightarrow> c \<notin> set (decimal n)"
  using digits_avoid decimal_digits by blast

lemma decimal_no_leading_zero: "length (decimal n) > 1 \<Longrightarrow> hd (decimal n) \<noteq> CHR ''0''"
proof (induction n rule: decimal.induct)
  case (1 n)
  show ?case
  proof (cases "n < 10")
    case True
    with 1 show ?thesis by (simp add: decimal.simps [of n])
  next
    case False
    have d: "decimal (n div 10) \<noteq> []" using decimal_digits by blast
    have "hd (decimal (n div 10)) \<noteq> CHR ''0''"
    proof (cases "n div 10 < 10")
      case True
      have "of_char (digit_char (n div 10)) \<noteq> (48 :: nat)" using True False by (simp add: digit_char_def)
      then have "digit_char (n div 10) \<noteq> CHR ''0''" by auto
      with True show ?thesis by (simp add: decimal.simps [of "n div 10"])
    next
      case long: False
      have "length (decimal (n div 10)) > 1"
        using decimal_digits [of "n div 10 div 10"] by (simp add: decimal.simps [of "n div 10"] long Suc_lessI)
      with 1 False show ?thesis by blast
    qed
    with d False show ?thesis by (simp add: decimal.simps [of n])
  qed
qed

lemma parse_octet_decimal: "parse_octet (decimal (unat x)) = Some x"
  using decimal_digits [of "unat x"] decimal_no_leading_zero [of "unat x"] unat_u8 [of x]
  by (simp add: parse_octet_def)

lemma parse_bits_decimal: "n \<le> most \<Longrightarrow> parse_bits most (decimal n) = Some n"
  using decimal_digits [of n] decimal_no_leading_zero [of n] by (simp add: parse_bits_def)

lemma dot_not_digit: "\<not> is_digit (CHR ''.'')" "\<not> is_digit (CHR '':'')" "\<not> is_digit (CHR ''/'')"
  "\<not> is_digit (CHR ''%'')" "\<not> is_digit (CHR '';'')" "\<not> is_digit (CHR ''>'')"
  by (simp_all add: is_digit_def)

lemma show4_split:
  "show4 (IPv4 a b c d) = decimal (unat a) @ ''.'' @ decimal (unat b) @ ''.'' @ decimal (unat c) @ ''.'' @ decimal (unat d)"
  by simp

lemma Split_decimal:
  "Split (CHR ''.'') (decimal m @ CHR ''.'' # s) = decimal m # Split (CHR ''.'') s"
  "Split (CHR ''.'') (decimal m) = [decimal m]"
  by (rule Split_append_sep Split_single, rule decimal_avoids, rule dot_not_digit)+

lemma parse4_show4: "Is4 ip \<Longrightarrow> parse4 (show4 ip) = Some ip"
  by (cases ip) (simp_all add: parse4_def Split_decimal parse_octet_decimal del: Split.simps)

lemma find_append: "find P (xs @ ys) = (case find P xs of None \<Rightarrow> find P ys | Some x \<Rightarrow> Some x)"
  by (induction xs) simp_all

lemma find_decimal: "find (\<lambda>c. c \<in> set ''.:%'') (decimal n) = None"
  using decimal_avoids [of _ n] dot_not_digit by (auto simp: find_None_iff)

lemma find_show4: "Is4 ip \<Longrightarrow> find (\<lambda>c. c \<in> set ''.:%'') (show4 ip) = Some (CHR ''.'')"
  using find_decimal by (cases ip) (simp_all add: find_append)

lemma ParseAddr_show4: "Is4 ip \<Longrightarrow> ParseAddr parse6 (show4 ip) = Some ip"
  unfolding ParseAddr_def find_show4 by (simp add: parse4_show4)

lemma show4_avoids: "\<not> is_digit c \<Longrightarrow> c \<noteq> CHR ''.'' \<Longrightarrow> c \<notin> set (show4 ip)"
  by (cases ip) (simp_all add: decimal_avoids)

lemma show4_inject: "Is4 ip \<Longrightarrow> Is4 ip' \<Longrightarrow> show4 ip = show4 ip' \<longleftrightarrow> ip = ip'"
  using parse4_show4 by (metis option.inject)

lemma hex_digit_char: "d < 16 \<Longrightarrow> hex_digit (hex_char d) = Some d"
  by (simp add: hex_digit_def hex_char_def Let_def)

lemma hex2_octet: "\<exists>a b. hex2 x = [a, b] \<and> hex_octet a b = Some x"
proof -
  have "unat x div 16 < 16" using unat_u8 [of x] by simp
  then show ?thesis
    by (simp add: hex2_def hex_octet_def hex_digit_char)
qed

lemma hex2_inject: "hex2 x = hex2 y \<longleftrightarrow> x = y"
  using hex2_octet [of x] hex2_octet [of y] by force

lemma hex_bytes_inject: "hex_bytes xs = hex_bytes ys \<longleftrightarrow> xs = ys"
proof (induction xs arbitrary: ys)
  case Nil
  then show ?case by (cases ys) (simp_all add: hex_bytes_def hex2_def)
next
  case (Cons x xs)
  show ?case
  proof (cases ys)
    case Nil
    then show ?thesis by (simp add: hex_bytes_def hex2_def)
  next
    case (Cons y ys')
    have "hex_bytes (x # xs) = hex_bytes ys \<longleftrightarrow> hex2 x = hex2 y \<and> hex_bytes xs = hex_bytes ys'"
      unfolding Cons by (simp add: hex_bytes_def hex2_def)
    then show ?thesis using Cons.IH [of ys'] Cons by (simp add: hex2_inject)
  qed
qed

lemma HardwareAddr_String_Cons:
  "HardwareAddr_String (x # y # bs) = hex2 x @ CHR '':'' # HardwareAddr_String (y # bs)"
  by (simp add: HardwareAddr_String_def)

lemma octets_by_one_String: "bs \<noteq> [] \<Longrightarrow> octets_by_one (CHR '':'') (HardwareAddr_String bs) = Some bs"
proof (induction bs)
  case (Cons x bs)
  obtain a b where ab: "hex2 x = [a, b]" "hex_octet a b = Some x" using hex2_octet [of x] by blast
  show ?case
  proof (cases bs)
    case Nil
    then show ?thesis by (simp add: HardwareAddr_String_def ab)
  next
    case (Cons y bs')
    then show ?thesis using Cons.IH by (simp add: HardwareAddr_String_Cons ab)
  qed
qed simp

lemma length_HardwareAddr_String: "length (HardwareAddr_String bs) = 3 * length bs - 1"
proof (induction bs)
  case (Cons x bs)
  then show ?case
    by (cases bs) (simp_all add: HardwareAddr_String_Cons hex2_def, simp add: HardwareAddr_String_def hex2_def)
qed (simp add: HardwareAddr_String_def)

lemma ParseMAC_String:
  assumes "length bs \<in> {6, 8, 20}"
  shows "ParseMAC (HardwareAddr_String bs) = Some bs"
proof -
  obtain x y bs' where bs: "bs = x # y # bs'" using assms by (cases bs; cases "tl bs") auto
  have "HardwareAddr_String bs ! 2 = CHR '':''" by (simp add: bs HardwareAddr_String_Cons hex2_def)
  moreover have "\<not> length (HardwareAddr_String bs) < 14" using assms by (auto simp: length_HardwareAddr_String)
  moreover have "octets_by_one (CHR '':'') (HardwareAddr_String bs) = Some bs"
    by (rule octets_by_one_String) (simp add: bs)
  ultimately show ?thesis using assms by (simp add: ParseMAC_def)
qed

lemma HardwareAddr_String_inject: "HardwareAddr_String xs = HardwareAddr_String ys \<longleftrightarrow> xs = ys"
proof
  assume eq: "HardwareAddr_String xs = HardwareAddr_String ys"
  have empty: "HardwareAddr_String bs = [] \<longleftrightarrow> bs = []" for bs
    by (cases bs; cases "tl bs") (simp_all add: HardwareAddr_String_def hex2_def)
  show "xs = ys"
  proof (cases "xs = []")
    case True
    then show ?thesis using eq empty by metis
  next
    case False
    then have "ys \<noteq> []" using eq empty by metis
    have "Some xs = Some ys"
      using octets_by_one_String [OF False] octets_by_one_String [OF \<open>ys \<noteq> []\<close>] unfolding eq by (rule trans [OF sym])
    then show ?thesis by simp
  qed
qed simp

end
