(* ===== verification/Dest_Entries.thy ===== *)
theory Dest_Entries
  imports Net_Addresses
begin

text \<open>
  What the control plane computes from the statistics nodes report: the decoded network
  specification (\<open>stat/stat_proto.go\<close>), the address of a node's serving interface and the sets of
  destinations (\<open>stat/dest.go\<close>), the cache of the latest reports (\<open>service/stats/handlers.go\<close>).
\<close>

section \<open>Reported statistics\<close>

text \<open>The messages as they arrive, with the fields that are read here.\<close>

record interface_spec_proto =
  ifName :: string
  ifMtu :: u32
  ifMac :: string
  ifFlags :: u32
  ifIps :: "string list"

record cdn_app_proto =
  appVip :: "string list option"
  BoundIfaces :: "string list option"
  Appstat :: "u32 option"
  LbId :: "u32 option"

record stats_proto =
  NetworkSpec :: "interface_spec_proto option list option"
  CdnAppRealtime :: "cdn_app_proto option"

type_synonym stat_batch = "stats_proto list"

text \<open>The decoded statistics.\<close>

record interface_spec =
  spec_Name :: string
  spec_MTU :: u32
  spec_Mac :: "u8 list"
  spec_Flags :: u32
  spec_IPs :: "prefix_addr list"

definition zero_interface_spec :: interface_spec where
  "zero_interface_spec = \<lparr> spec_Name = '''', spec_MTU = 0, spec_Mac = [], spec_Flags = 0, spec_IPs = [] \<rparr>"

record cdn_app =
  app_Vip :: "ip_addr list"
  BoundInterfaces :: "string list"
  AppStatus :: u8
  LoadBalancerID :: u32

definition zero_cdn_app :: cdn_app where
  "zero_cdn_app = \<lparr> app_Vip = [], BoundInterfaces = [], AppStatus = 0, LoadBalancerID = 0 \<rparr>"

text \<open>A MAC address or a prefix that does not parse becomes the zero value.\<close>

definition InterfaceSpec_FromProto :: "(string \<Rightarrow> ip_addr option) \<Rightarrow> interface_spec_proto \<Rightarrow> interface_spec" where
  "InterfaceSpec_FromProto parse6 i =
     \<lparr> spec_Name = ifName i,
       spec_MTU = ifMtu i,
       spec_Mac = (case ParseMAC (ifMac i) of Some bs \<Rightarrow> bs | None \<Rightarrow> []),
       spec_Flags = ifFlags i,
       spec_IPs = map (\<lambda>v. case ParsePrefix parse6 v of Some p \<Rightarrow> p | None \<Rightarrow> NoPrefix) (ifIps i) \<rparr>"

definition NetworkSpec_FromProto ::
    "(string \<Rightarrow> ip_addr option) \<Rightarrow> interface_spec_proto option list \<Rightarrow> interface_spec list" where
  "NetworkSpec_FromProto parse6 =
     map (\<lambda>i. case i of None \<Rightarrow> zero_interface_spec | Some i \<Rightarrow> InterfaceSpec_FromProto parse6 i)"

definition CdnAppRealtime_FromProto :: "(string \<Rightarrow> ip_addr option) \<Rightarrow> cdn_app_proto \<Rightarrow> cdn_app \<Rightarrow> cdn_app" where
  "CdnAppRealtime_FromProto parse6 i s =
     \<lparr> app_Vip = (case appVip i of
          None \<Rightarrow> app_Vip s
        | Some vs \<Rightarrow> map (\<lambda>v. case ParseAddr parse6 v of Some a \<Rightarrow> a | None \<Rightarrow> NoAddr) vs),
       BoundInterfaces = (case BoundIfaces i of None \<Rightarrow> BoundInterfaces s | Some ifs \<Rightarrow> ifs),
       AppStatus = (case Appstat i of None \<Rightarrow> AppStatus s | Some a \<Rightarrow> ucast a),
       LoadBalancerID = (case LbId i of None \<Rightarrow> LoadBalancerID s | Some l \<Rightarrow> l) \<rparr>"

definition AppStatusRunning :: u8 where
  "AppStatusRunning = 1"

section \<open>Destinations\<close>

record dest_entry =
  ServerID :: u32
  HardwareAddr :: "u8 list"
  IPAddr :: ip_addr

datatype dest_error =
    UnknownInterface string
  | NoAddresses string
  | MissingApp
  | MissingLbId
  | ErrNoBoundInterface
  | NotReported
  | NoNetworkSpec
  | NotIPv4 string

definition GetDestEntry :: "u32 \<Rightarrow> string \<Rightarrow> interface_spec list \<Rightarrow> (dest_error, dest_entry) outcome" where
  "GetDestEntry serverID iface ns =
     (case find (\<lambda>i. spec_Name i = iface) ns of
        None \<Rightarrow> Err (UnknownInterface iface)
      | Some spec \<Rightarrow>
          (case spec_IPs spec of
             [] \<Rightarrow> Err (NoAddresses iface)
           | p # _ \<Rightarrow> Ok \<lparr> ServerID = serverID, HardwareAddr = spec_Mac spec, IPAddr = prefix_Addr p \<rparr>))"

definition GetDestEntryFromStat :: "(string \<Rightarrow> ip_addr option) \<Rightarrow> stats_proto \<Rightarrow> (dest_error, dest_entry) outcome" where
  "GetDestEntryFromStat parse6 data =
     (let netSpec = (case NetworkSpec data of None \<Rightarrow> [] | Some ns \<Rightarrow> NetworkSpec_FromProto parse6 ns) in
      case CdnAppRealtime data of
        None \<Rightarrow> Err MissingApp
      | Some a \<Rightarrow>
          let app = CdnAppRealtime_FromProto parse6 a zero_cdn_app in
          if LoadBalancerID app = 0 then Err MissingLbId
          else
            (case BoundInterfaces app of
               [] \<Rightarrow> Err ErrNoBoundInterface
             | iface # _ \<Rightarrow>
                 if AppStatus app \<noteq> AppStatusRunning then Err ErrNoBoundInterface
                 else GetDestEntry (LoadBalancerID app) iface netSpec))"

fun active_loop ::
    "(string \<Rightarrow> ip_addr option) \<Rightarrow> stats_proto list \<Rightarrow> dest_entry list \<Rightarrow> (dest_error, dest_entry list) outcome" where
  "active_loop parse6 [] dests = Ok dests"
| "active_loop parse6 (data # ds) dests =
     (case GetDestEntryFromStat parse6 data of
        Ok entry \<Rightarrow> active_loop parse6 ds (dests @ [entry])
      | Err e \<Rightarrow> if e = ErrNoBoundInterface then active_loop parse6 ds dests else Err e
      | Panic \<Rightarrow> Panic)"

definition ActiveDestEntriesFromStats ::
    "(string \<Rightarrow> ip_addr option) \<Rightarrow> dest_entry \<Rightarrow> stats_proto list \<Rightarrow> (dest_error, dest_entry list) outcome" where
  "ActiveDestEntriesFromStats parse6 self ds = active_loop parse6 ds [self]"

text \<open>
  \<open>DestManager\<close>; its interface fields are never read. \<open>onUpdate\<close> answers with an error or not and
  changes the world \<open>w\<close>.
\<close>

type_synonym dest_manager = "dest_entry list"

fun entries_differ :: "dest_entry list \<Rightarrow> dest_entry list \<Rightarrow> bool" where
  "entries_differ (d # ds) (e # es) =
     (if HardwareAddr_String (HardwareAddr d) \<noteq> HardwareAddr_String (HardwareAddr e) \<or>
         IPAddr d \<noteq> IPAddr e \<or> ServerID d \<noteq> ServerID e
      then True else entries_differ ds es)"
| "entries_differ _ _ = False"

definition UpdateIfDiffer ::
    "(dest_entry list \<Rightarrow> 'w \<Rightarrow> 'e option \<times> 'w) \<Rightarrow> dest_entry list \<Rightarrow> dest_manager \<Rightarrow> 'w \<Rightarrow>
     'e option \<times> dest_manager \<times> 'w" where
  "UpdateIfDiffer onUpdate dests m w =
     (let differ = length dests \<noteq> length m \<or> entries_differ dests m in
      if \<not> differ then (None, m, w)
      else
        (case onUpdate dests w of
           (Some err, w') \<Rightarrow> (Some err, m, w')
         | (None, w') \<Rightarrow> (None, dests, w')))"

definition UpdateFromStats ::
    "(string \<Rightarrow> ip_addr option) \<Rightarrow> (dest_entry list \<Rightarrow> 'w \<Rightarrow> 'e option \<times> 'w) \<Rightarrow> dest_entry \<Rightarrow> stats_proto list \<Rightarrow>
     dest_manager \<Rightarrow> 'w \<Rightarrow> (dest_error + 'e, unit) outcome \<times> dest_manager \<times> 'w" where
  "UpdateFromStats parse6 onUpdate self metrics m w =
     (case ActiveDestEntriesFromStats parse6 self metrics of
        Err e \<Rightarrow> (Err (Inl e), m, w)
      | Panic \<Rightarrow> (Panic, m, w)
      | Ok entries \<Rightarrow>
          (case UpdateIfDiffer onUpdate entries m w of
             (None, m', w') \<Rightarrow> (Ok (), m', w')
           | (Some e, m', w') \<Rightarrow> (Err (Inr e), m', w')))"

text \<open>A memory of the last set pushed: nothing is called exactly when the set is the one it holds.\<close>

lemma entries_differ_iff: "length ds = length es \<Longrightarrow> entries_differ ds es \<longleftrightarrow> ds \<noteq> es"
proof (induction ds es rule: entries_differ.induct)
  case (1 d ds e es)
  have "d = e \<longleftrightarrow> HardwareAddr d = HardwareAddr e \<and> IPAddr d = IPAddr e \<and> ServerID d = ServerID e"
    by (cases d; cases e) auto
  then show ?case using 1 by (auto simp: HardwareAddr_String_inject)
qed simp_all

lemma UpdateIfDiffer_eq:
  "UpdateIfDiffer onUpdate dests m w =
     (if dests = m then (None, m, w)
      else case onUpdate dests w of (Some err, w') \<Rightarrow> (Some err, m, w') | (None, w') \<Rightarrow> (None, dests, w'))"
  using entries_differ_iff [of dests m] by (auto simp: UpdateIfDiffer_def Let_def)

section \<open>The cache of the latest reports\<close>

type_synonym stat_cache = "(string \<times> stat_batch) list"

definition NewCache :: stat_cache where
  "NewCache = []"

definition cache_Set :: "string \<Rightarrow> stat_batch \<Rightarrow> stat_cache \<Rightarrow> stat_cache" where
  "cache_Set commonName b c = AList.update commonName b c"

definition cache_Delete :: "string \<Rightarrow> stat_cache \<Rightarrow> stat_cache" where
  "cache_Delete commonName c = AList.delete commonName c"

definition cache_Get :: "string \<Rightarrow> stat_cache \<Rightarrow> stat_batch" where
  "cache_Get commonName c = (case map_of c commonName of Some b \<Rightarrow> b | None \<Rightarrow> [])"

text \<open>The peering loops read a node's report as one entry, the last specification and the last realtime entry.\<close>

definition destFromBatch :: "(string \<Rightarrow> ip_addr option) \<Rightarrow> stat_batch \<Rightarrow> (dest_error, dest_entry) outcome" where
  "destFromBatch parse6 batch =
     GetDestEntryFromStat parse6
       (fold (\<lambda>s merged.
          \<lparr> NetworkSpec = (case NetworkSpec s of None \<Rightarrow> NetworkSpec merged | Some n \<Rightarrow> Some n),
            CdnAppRealtime = (case CdnAppRealtime s of None \<Rightarrow> CdnAppRealtime merged | Some a \<Rightarrow> Some a) \<rparr>)
        batch \<lparr> NetworkSpec = None, CdnAppRealtime = None \<rparr>)"

text \<open>
  The routes read the last specification, but the first bound interface.
\<close>

definition bound_interface :: "stats_proto \<Rightarrow> string option" where
  "bound_interface s =
     (case CdnAppRealtime s of
        Some a \<Rightarrow> (case BoundIfaces a of Some (i # _) \<Rightarrow> Some i | _ \<Rightarrow> None)
      | None \<Rightarrow> None)"

definition node_addr_loop ::
    "stat_batch \<Rightarrow> interface_spec_proto option list option \<times> string" where
  "node_addr_loop batch =
     fold (\<lambda>s (spec, iface).
        (case NetworkSpec s of Some n \<Rightarrow> Some n | None \<Rightarrow> spec,
         if iface = '''' then (case bound_interface s of Some i \<Rightarrow> i | None \<Rightarrow> iface) else iface))
       batch (None, '''')"

text \<open>\<open>batch\<close> is the pointer the cache answers with.\<close>

definition NodeAddr :: "(string \<Rightarrow> ip_addr option) \<Rightarrow> stat_batch option \<Rightarrow> (dest_error, dest_entry) outcome" where
  "NodeAddr parse6 batch =
     (case batch of
        None \<Rightarrow> Err NotReported
      | Some b \<Rightarrow>
          let (spec, iface) = node_addr_loop b in
          if iface = '''' then Err ErrNoBoundInterface
          else
            (case spec of
               None \<Rightarrow> Err NoNetworkSpec
             | Some ns \<Rightarrow>
                 bind_outcome (GetDestEntry 0 iface (NetworkSpec_FromProto parse6 ns)) (\<lambda>d.
                   if \<not> Is4 (IPAddr d) \<or> length (HardwareAddr d) \<noteq> 6 then Err (NotIPv4 iface) else Ok d)))"

lemma NodeAddr_Ok:
  assumes "NodeAddr parse6 batch = Ok d"
  shows "Is4 (IPAddr d)" "length (HardwareAddr d) = 6" "ServerID d = 0"
  using assms
  by (auto simp: NodeAddr_def GetDestEntry_def split: option.splits prod.splits if_splits list.splits)

lemma GetDestEntryFromStat_member:
  assumes "GetDestEntryFromStat parse6 data = Ok d"
  shows "ServerID d \<noteq> 0"
  using assms
  by (auto simp: GetDestEntryFromStat_def GetDestEntry_def Let_def split: option.splits if_splits list.splits)

end
