(* ===== verification/L4_Routes.thy ===== *)
theory L4_Routes
  imports Broker Desired_Store Dest_Entries
begin

text \<open>
  The \<open>l4_route\<close> resource: declarations that pin one protocol and port of the VIP to one node
  (\<open>service/l4route/route.go\<close>, \<open>service/l4route/service.go\<close>), and the record of what the pushes to
  the nodes returned (\<open>reconcile/status.go\<close>).
\<close>

section \<open>Declarations\<close>

record l4_route =
  Name :: string
  Port :: string
  Node :: string

datatype route_error =
    WantProtoPort string
  | NotTcpUdp string
  | BadPort string
  | NameRequired
  | NotOneNode string
  | InRoute string route_error
  | AlreadyRouted string string string
  | Unresolved broker_error
  | NoAddr_of string dest_error
  | NotProgrammed string route_error
  | PushFailed string

definition ParsePort :: "string \<Rightarrow> (route_error, string \<times> u16) outcome" where
  "ParsePort s =
     (case Cut (CHR '':'') s of
        None \<Rightarrow> Err (WantProtoPort s)
      | Some (proto, num) \<Rightarrow>
          if proto \<noteq> ''tcp'' \<and> proto \<noteq> ''udp'' then Err (NotTcpUdp s)
          else
            (case ParseUint10 16 num of
               None \<Rightarrow> Err (BadPort s)
             | Some n \<Rightarrow> if n = 0 then Err (BadPort s) else Ok (proto, of_nat n)))"

definition Validate :: "string \<Rightarrow> string \<Rightarrow> string \<Rightarrow> (route_error, unit) outcome" where
  "Validate name port node =
     (if name = '''' then Err NameRequired
      else bind_outcome (ParsePort port) (\<lambda>_.
        if node = '''' \<or> node = ''*'' \<or> HasSuffix node ''/*'' then Err (NotOneNode node) else Ok ()))"

definition port_key :: "string \<times> u16 \<Rightarrow> string" where
  "port_key k = fst k @ '':'' @ decimal (unat (snd k))"

fun validate_loop :: "l4_route list \<Rightarrow> (string \<times> string) list \<Rightarrow> (route_error, unit) outcome" where
  "validate_loop [] owner = Ok ()"
| "validate_loop (it # items) owner =
     (case ParsePort (Port it) of
        Err e \<Rightarrow> Err (InRoute (Name it) e)
      | Panic \<Rightarrow> Panic
      | Ok pp \<Rightarrow>
          let k = port_key pp in
          (case map_of owner k of
             Some other \<Rightarrow> Err (AlreadyRouted (Name it) k other)
           | None \<Rightarrow> validate_loop items (AList.update k (Name it) owner)))"

definition ValidateSet :: "l4_route list \<Rightarrow> (route_error, unit) outcome" where
  "ValidateSet items = validate_loop items []"

section \<open>Resolution\<close>

record target =
  tName :: string
  tProto :: string
  tPort :: u16
  tNode :: string
  tDest :: dest_entry

text \<open>What resolution reads: the inventory, the cache of reports, and how IPv6 text is parsed.\<close>

record surroundings =
  inventory_of :: broker
  cache_of :: stat_cache
  parse_v6 :: "string \<Rightarrow> ip_addr option"

definition Resolve_route :: "surroundings \<Rightarrow> l4_route \<Rightarrow> (route_error, target) outcome" where
  "Resolve_route env it =
     bind_outcome (ParsePort (Port it)) (\<lambda>(proto, port).
     bind_outcome (map_error Unresolved (Resolve_node (Node it) (inventory_of env))) (\<lambda>p.
     bind_outcome (map_error (NoAddr_of (PeerCommonName p))
        (NodeAddr (parse_v6 env) (Some (cache_Get (PeerCommonName p) (cache_of env))))) (\<lambda>dest.
     Ok \<lparr> tName = Name it, tProto = proto, tPort = port, tNode = PeerCommonName p, tDest = dest \<rparr>)))"

section \<open>The service\<close>

text \<open>
  Applying checks the declaration and the set it would join, and only then stores it; the two parts
  take the store's lock separately. The result is the store, the callbacks notified, and the error if
  there is one; \<open>confirm\<close> is the answer of \<open>ConfirmPush\<close>.
\<close>

definition apply_checks :: "l4_route \<Rightarrow> l4_route handlers \<Rightarrow> (route_error, unit) outcome" where
  "apply_checks req h =
     (case Validate (Name req) (Port req) (Node req) of
        Err e \<Rightarrow> Err (InRoute (Name req) e)
      | Panic \<Rightarrow> Panic
      | Ok _ \<Rightarrow> ValidateSet (req # filter (\<lambda>it. Name it \<noteq> Name req) (Desired h)))"

definition apply_commit ::
    "string option option \<Rightarrow> surroundings \<Rightarrow> l4_route \<Rightarrow> l4_route handlers \<Rightarrow>
     l4_route handlers \<times> nat list \<times> (route_error, unit) outcome" where
  "apply_commit confirm env req h =
     (case store_Apply confirm (Name req) req h of
        (h', called, Some err) \<Rightarrow> (h', called, Err (PushFailed err))
      | (h', called, None) \<Rightarrow>
          (h', called,
           case Resolve_route env req of
             Ok _ \<Rightarrow> Ok ()
           | Err e \<Rightarrow> Err (NotProgrammed (Name req) e)
           | Panic \<Rightarrow> Panic))"

definition service_Apply ::
    "string option option \<Rightarrow> surroundings \<Rightarrow> l4_route \<Rightarrow> l4_route handlers \<Rightarrow>
     l4_route handlers \<times> nat list \<times> (route_error, unit) outcome" where
  "service_Apply confirm env req h =
     (case apply_checks req h of
        Ok _ \<Rightarrow> apply_commit confirm env req h
      | Err e \<Rightarrow> (h, [], Err e)
      | Panic \<Rightarrow> (h, [], Panic))"

definition service_Delete :: "string \<Rightarrow> l4_route handlers \<Rightarrow> l4_route handlers \<times> nat list" where
  "service_Delete name h = store_Delete name h"

text \<open>
  Calls at the same time. The checks read the store under its lock and release it; the write takes it
  again. \<open>checked\<close> are the calls between the two: nothing keeps other calls out meanwhile.
\<close>

record apply_system =
  store_of :: "l4_route handlers"
  checked :: "l4_route list"

definition Apply_check :: "l4_route \<Rightarrow> apply_system \<Rightarrow> apply_system" where
  "Apply_check req s =
     (case apply_checks req (store_of s) of
        Ok _ \<Rightarrow> s \<lparr> checked := checked s @ [req] \<rparr>
      | _ \<Rightarrow> s)"

definition Apply_store ::
    "string option option \<Rightarrow> surroundings \<Rightarrow> l4_route \<Rightarrow> apply_system \<Rightarrow> apply_system" where
  "Apply_store confirm env req s =
     s \<lparr> store_of := fst (apply_commit confirm env req (store_of s)), checked := remove1 req (checked s) \<rparr>"

inductive apply_step :: "apply_system \<Rightarrow> apply_system \<Rightarrow> bool" where
  checks: "apply_step s (Apply_check req s)"
| stores: "req \<in> set (checked s) \<Longrightarrow> apply_step s (Apply_store confirm env req s)"
| deletes: "apply_step s (s \<lparr> store_of := fst (service_Delete name (store_of s)) \<rparr>)"

text \<open>The ports of \<open>open_port\<close> (\<open>service/openport/ports.go\<close>).\<close>

fun ParsePorts :: "string list \<Rightarrow> (string \<times> u16) list option" where
  "ParsePorts [] = Some []"
| "ParsePorts (s # ss) =
     (case Cut (CHR '':'') s of
        None \<Rightarrow> None
      | Some (proto, portStr) \<Rightarrow>
          if proto = '''' then None
          else if proto = ''icmp'' then
            (if portStr \<noteq> ''echo'' then None else map_option ((#) (''icmp'', 0)) (ParsePorts ss))
          else if proto = ''tcp'' \<or> proto = ''udp'' then
            (case ParseUint10 16 portStr of
               None \<Rightarrow> None
             | Some port \<Rightarrow> map_option ((#) (proto, of_nat port)) (ParsePorts ss))
          else None)"

datatype diff_entry =
    BadDeclaration string string route_error
  | NodeUnresolved string string route_error
  | NotOpened string string
  | L4lbPush string

definition open_ports :: "string list list \<Rightarrow> string list" where
  "open_ports acls = concat (map (\<lambda>ports. case ParsePorts ports of None \<Rightarrow> [] | Some ps \<Rightarrow> map port_key ps) acls)"

definition diff_route :: "surroundings \<Rightarrow> string list \<Rightarrow> l4_route \<Rightarrow> diff_entry list" where
  "diff_route env open it =
     (case ParsePort (Port it) of
        Ok pp \<Rightarrow>
          (case Resolve_route env it of
             Err e \<Rightarrow> [NodeUnresolved (Name it) (port_key pp) e]
           | _ \<Rightarrow> []) @
          (if port_key pp \<notin> set open then [NotOpened (Name it) (port_key pp)] else [])
      | Err e \<Rightarrow> [BadDeclaration (Name it) (Port it) e]
      | Panic \<Rightarrow> [])"

text \<open>
  \<open>line\<close> is the text of an entry, by which the entries are sorted; the error of the last push comes last.
\<close>

definition service_Diff ::
    "(diff_entry \<Rightarrow> string) \<Rightarrow> string list list \<Rightarrow> string option \<Rightarrow> surroundings \<Rightarrow> l4_route handlers \<Rightarrow> diff_entry list" where
  "service_Diff line acls push_error env h =
     sort_key line (concat (map (diff_route env (open_ports acls)) (Desired h))) @
     (case push_error of None \<Rightarrow> [] | Some e \<Rightarrow> [L4lbPush e])"

section \<open>Status of the pushes\<close>

record entry =
  OK :: bool
  Message :: string
  Time :: int

type_synonym status = "((string \<times> string) \<times> entry) list"

definition NewStatus :: status where
  "NewStatus = []"

definition Record :: "string \<Rightarrow> string \<Rightarrow> int \<Rightarrow> string option \<Rightarrow> status \<Rightarrow> status" where
  "Record resource node now err s =
     AList.update (resource, node)
       \<lparr> OK = (err = None), Message = (case err of None \<Rightarrow> '''' | Some m \<Rightarrow> m), Time = now \<rparr> s"

definition ClearNode :: "string \<Rightarrow> status \<Rightarrow> status" where
  "ClearNode node s = filter (\<lambda>((_, n), _). n \<noteq> node) s"

definition ErrorsForNodeExcept :: "string \<Rightarrow> string \<Rightarrow> status \<Rightarrow> string list" where
  "ErrorsForNodeExcept node except s =
     sort (map (\<lambda>((r, _), e). r @ '': '' @ Message e)
       (filter (\<lambda>((r, n), e). n = node \<and> \<not> OK e \<and> r \<noteq> except) s))"

definition ErrorsForNode :: "string \<Rightarrow> status \<Rightarrow> string list" where
  "ErrorsForNode node s = ErrorsForNodeExcept node '''' s"

definition NodeError :: "string \<Rightarrow> string \<Rightarrow> status \<Rightarrow> string option" where
  "NodeError resource node s =
     (case map_of s (resource, node) of
        Some e \<Rightarrow> if \<not> OK e then Some (Message e) else None
      | None \<Rightarrow> None)"

text \<open>The failures of a resource, to be joined with semicolons; none when every last push succeeded.\<close>

definition ResourceError :: "string \<Rightarrow> status \<Rightarrow> (nat \<times> string list) option" where
  "ResourceError resource s =
     (let parts = map (\<lambda>((_, n), e). n @ '': '' @ Message e) (filter (\<lambda>((r, _), e). r = resource \<and> \<not> OK e) s) in
      if parts = [] then None else Some (length parts, sort parts))"

end
