(* ===== verification/L4_Routes_Laws.thy ===== *)
theory L4_Routes_Laws
  imports L4_Routes
begin

text \<open>
  The declared routes never claim a port twice, as long as they are applied one after the other; what
  resolution returns; the record of the pushes.
\<close>

section \<open>Ports\<close>

lemma ParsePort_Ok:
  assumes "ParsePort s = Ok (proto, port)"
  shows "proto = ''tcp'' \<or> proto = ''udp''" "port \<noteq> 0"
proof -
  from assms obtain num n where n: "proto = ''tcp'' \<or> proto = ''udp''" "ParseUint10 16 num = Some n" "n \<noteq> 0"
    "port = of_nat n"
    by (auto simp: ParsePort_def split: option.splits prod.splits if_splits)
  then have "n < 2 ^ 16" by (auto simp: ParseUint10_def split: if_splits)
  then have "unat port = n" unfolding n(4) by (intro unat_of_nat_small) simp
  with n(3) show "port \<noteq> 0" by auto
  show "proto = ''tcp'' \<or> proto = ''udp''" by (rule n(1))
qed

lemma ParsePort_not_Panic: "ParsePort s \<noteq> Panic"
  by (auto simp: ParsePort_def split: option.splits prod.splits if_splits)

lemma port_key_inject:
  assumes "length (fst a) = length (fst b)"
  shows "port_key a = port_key b \<longleftrightarrow> a = b"
proof -
  have "unat (snd a) = unat (snd b) \<longleftrightarrow> snd a = snd b" by (rule word_unat_eq_iff [symmetric])
  with assms show ?thesis by (cases a; cases b) (auto simp: port_key_def decimal_inject)
qed

lemma ParsePort_keys:
  assumes "ParsePort s = Ok a" "ParsePort t = Ok b"
  shows "port_key a = port_key b \<longleftrightarrow> a = b"
proof (rule port_key_inject)
  show "length (fst a) = length (fst b)"
    using ParsePort_Ok(1) [of s "fst a" "snd a"] ParsePort_Ok(1) [of t "fst b" "snd b"] assms by auto
qed

section \<open>Sets of routes\<close>

lemma validate_loop_Ok:
  "validate_loop items owner = Ok () \<longleftrightarrow>
     (\<forall>it \<in> set items. \<exists>pp. ParsePort (Port it) = Ok pp \<and> map_of owner (port_key pp) = None) \<and>
     distinct (map (\<lambda>it. ParsePort (Port it)) items)"
proof (induction items arbitrary: owner)
  case (Cons it items)
  show ?case
  proof (cases "ParsePort (Port it)")
    case (Ok pp)
    have fresh: "(\<exists>qq. ParsePort (Port it') = Ok qq \<and> map_of (AList.update (port_key pp) (Name it) owner) (port_key qq) = None) \<longleftrightarrow>
        (\<exists>qq. ParsePort (Port it') = Ok qq \<and> map_of owner (port_key qq) = None) \<and> ParsePort (Port it') \<noteq> Ok pp" for it'
    proof (cases "ParsePort (Port it')")
      fix qq
      assume "ParsePort (Port it') = Ok qq"
      with ParsePort_keys [OF this Ok] show ?thesis by auto
    qed simp_all
    have loop: "validate_loop (it # items) owner = Ok () \<longleftrightarrow>
        map_of owner (port_key pp) = None \<and> validate_loop items (AList.update (port_key pp) (Name it) owner) = Ok ()"
      by (simp add: Ok Let_def split: option.split)
    define free where "free it = (\<exists>qq. ParsePort (Port it) = Ok qq \<and> map_of owner (port_key qq) = None)" for it :: l4_route
    have it: "free it \<longleftrightarrow> map_of owner (port_key pp) = None" using Ok by (simp add: free_def)
    show ?thesis
      unfolding loop Cons.IH fresh free_def [symmetric] by (auto simp add: it Ok [symmetric] intro: rev_image_eqI)
  qed (use Cons in auto)
qed simp

lemma ValidateSet_Ok:
  "ValidateSet items = Ok () \<longleftrightarrow>
     (\<forall>it \<in> set items. is_ok (ParsePort (Port it))) \<and> distinct (map (\<lambda>it. ParsePort (Port it)) items)"
proof -
  have "is_ok x \<longleftrightarrow> (\<exists>y. x = Ok y)" for x :: "(route_error, string \<times> u16) outcome" by (cases x) simp_all
  then show ?thesis by (simp add: ValidateSet_def validate_loop_Ok)
qed

text \<open>What the service keeps true of its store.\<close>

definition routes_ok :: "l4_route handlers \<Rightarrow> bool" where
  "routes_ok h \<longleftrightarrow>
     store_ok Name h \<and>
     (\<forall>it \<in> set (Desired h). Validate (Name it) (Port it) (Node it) = Ok ()) \<and>
     inj_on (\<lambda>it. ParsePort (Port it)) (set (Desired h))"

inductive service_reachable :: "l4_route handlers \<Rightarrow> bool" where
  new: "service_reachable New_handlers"
| applied: "service_reachable h \<Longrightarrow> service_Apply confirm env req h = (h', called, res) \<Longrightarrow> service_reachable h'"
| deleted: "service_reachable h \<Longrightarrow> service_Delete name h = (h', called) \<Longrightarrow> service_reachable h'"
| listened: "service_reachable h \<Longrightarrow> service_reachable (OnChange f h)"

lemma distinct_map_iff_inj_on:
  "distinct (map f xs) \<longleftrightarrow> distinct xs \<and> inj_on f (set xs)"
  by (rule distinct_map)

lemma apply_checks_Ok:
  assumes "apply_checks req h = Ok ()"
  shows "Validate (Name req) (Port req) (Node req) = Ok ()"
    "distinct (map (\<lambda>it. ParsePort (Port it)) (req # filter (\<lambda>it. Name it \<noteq> Name req) (Desired h)))"
  using assms by (auto simp: apply_checks_def ValidateSet_Ok split: outcome.splits)

lemma commit_stores: "\<exists>called res. apply_commit confirm env req h = (fst (store_Apply confirm (Name req) req h), called, res)"
  by (auto simp: apply_commit_def store_Apply_def Let_def split: option.splits)

lemma service_Apply_ok:
  assumes ok: "routes_ok h" and res: "service_Apply confirm env req h = (h', called, res)"
  shows "routes_ok h'"
proof (cases "apply_checks req h = Ok ()")
  case False
  then have "h' = h" using res by (auto simp: service_Apply_def split: outcome.splits)
  with ok show ?thesis by simp
next
  case True
  have h': "h' = fst (store_Apply confirm (Name req) req h)"
    using res True commit_stores [of confirm env req h] by (auto simp: service_Apply_def)
  have store: "store_ok Name h" using ok by (simp add: routes_ok_def)
  have desired: "set (Desired h') = insert req {it \<in> set (Desired h). Name it \<noteq> Name req}"
    unfolding h' by (rule stores.contents_put [OF store refl])
  have "inj_on (\<lambda>it. ParsePort (Port it)) (set (req # filter (\<lambda>it. Name it \<noteq> Name req) (Desired h)))"
    using apply_checks_Ok(2) [OF True] unfolding distinct_map_iff_inj_on by blast
  then have "inj_on (\<lambda>it. ParsePort (Port it)) (set (Desired h'))" unfolding desired by simp
  moreover have "store_ok Name h'" unfolding h' by (rule stores.put_ok [OF store refl])
  moreover have "\<forall>it \<in> set (Desired h'). Validate (Name it) (Port it) (Node it) = Ok ()"
    unfolding desired using ok apply_checks_Ok(1) [OF True] by (auto simp: routes_ok_def)
  ultimately show ?thesis by (simp add: routes_ok_def)
qed

lemma service_Delete_ok:
  assumes ok: "routes_ok h" and res: "service_Delete name h = (h', called)"
  shows "routes_ok h'"
proof -
  have h': "h' = fst (store_Delete name h)" using res by (simp add: service_Delete_def)
  have store: "store_ok Name h" using ok by (simp add: routes_ok_def)
  have "set (Desired h') = {it \<in> set (Desired h). Name it \<noteq> name}"
    unfolding h' by (rule stores.contents_delete [OF store])
  moreover have "store_ok Name h'" unfolding h' by (rule stores.delete_ok [OF store])
  ultimately show ?thesis using ok by (auto simp: routes_ok_def inj_on_def)
qed

lemma reachable_routes_ok: "service_reachable h \<Longrightarrow> routes_ok h"
proof (induction rule: service_reachable.induct)
  case new
  then show ?case by (simp add: routes_ok_def store_ok_def New_handlers_def Desired_def)
next
  case (applied h confirm env req h' called res)
  then show ?case using service_Apply_ok by blast
next
  case (deleted h name h' called)
  then show ?case using service_Delete_ok by blast
next
  case (listened h f)
  then show ?case by (simp add: routes_ok_def store_ok_def OnChange_def Desired_def)
qed

text \<open>
  C38. Whatever is applied and deleted, one request after the other, the stored routes stay valid: each
  is stored under its non-empty name, its port parses, its node is no wildcard, and no two of them claim
  the same protocol and port.
\<close>

theorem declared_routes_never_conflict:
  assumes "service_reachable h" "it \<in> set (Desired h)"
  shows "map_of (store h) (Name it) = Some it \<and> Name it \<noteq> '''' \<and>
    (\<exists>proto port. ParsePort (Port it) = Ok (proto, port) \<and> (proto = ''tcp'' \<or> proto = ''udp'') \<and> port \<noteq> 0 \<and>
       (\<forall>it' \<in> set (Desired h). ParsePort (Port it') = Ok (proto, port) \<longrightarrow> it' = it)) \<and>
    Node it \<noteq> '''' \<and> Node it \<noteq> ''*'' \<and> \<not> HasSuffix (Node it) ''/*''"
proof -
  have ok: "routes_ok h" by (rule reachable_routes_ok [OF assms(1)])
  then have v: "Validate (Name it) (Port it) (Node it) = Ok ()" using assms(2) by (simp add: routes_ok_def)
  then obtain proto port where pp: "ParsePort (Port it) = Ok (proto, port)"
    by (cases "ParsePort (Port it)") (auto simp: Validate_def split: if_splits)
  have "it' = it" if "it' \<in> set (Desired h)" "ParsePort (Port it') = Ok (proto, port)" for it'
    using ok assms(2) that pp by (auto simp: routes_ok_def inj_on_def)
  then have "\<forall>it' \<in> set (Desired h). ParsePort (Port it') = Ok (proto, port) \<longrightarrow> it' = it" by blast
  moreover have "map_of (store h) (Name it) = Some it"
    using ok assms(2) store_ok_get [of Name h it] by (simp add: routes_ok_def)
  ultimately show ?thesis
    using v pp ParsePort_Ok [OF pp] by (auto simp: Validate_def split: if_splits)
qed

definition example_route :: "string \<Rightarrow> l4_route" where
  "example_route name = \<lparr> Name = name, Port = ''tcp:80'', Node = ''workload/w1'' \<rparr>"

definition empty_surroundings :: surroundings where
  "empty_surroundings = \<lparr> inventory_of = New_broker, cache_of = NewCache, parse_v6 = (\<lambda>_. None) \<rparr>"

lemma example_port: "ParsePort ''tcp:80'' = Ok (''tcp'', 80)"
  by (simp add: ParsePort_def ParseUint10_def decimal_value_def is_digit_def digit_value_def)

lemma example_checks: "apply_checks (example_route ''a'') New_handlers = Ok ()" "apply_checks (example_route ''b'') New_handlers = Ok ()"
  by (simp_all add: apply_checks_def Validate_def example_route_def example_port HasSuffix_def suffix_def
      ValidateSet_def New_handlers_def Desired_def)

theorem declared_routes_never_conflict_witness:
  "Desired (fst (service_Apply None empty_surroundings (example_route ''a'') New_handlers)) = [example_route ''a''] \<and>
   ParsePort (Port (example_route ''a'')) = Ok (''tcp'', 80) \<and> Node (example_route ''a'') \<noteq> ''*''"
proof -
  let ?h = "fst (service_Apply None empty_surroundings (example_route ''a'') New_handlers)"
  have d: "Desired ?h = [example_route ''a'']"
    unfolding service_Apply_def example_checks apply_commit_def
    by (simp add: store_Apply_def New_handlers_def Desired_def Let_def)
  have "service_reachable ?h"
    by (rule service_reachable.applied [OF service_reachable.new, of None empty_surroundings "example_route ''a''" _
          "fst (snd (service_Apply None empty_surroundings (example_route ''a'') New_handlers))"
          "snd (snd (service_Apply None empty_surroundings (example_route ''a'') New_handlers))"]) simp
  from declared_routes_never_conflict [OF this, of "example_route ''a''"] show ?thesis
    by (simp add: d) (simp add: example_route_def example_port)
qed

section \<open>Applies at the same time\<close>

lemma validate_loop_not_Panic: "validate_loop items owner \<noteq> Panic"
  by (induction items arbitrary: owner)
    (auto simp: ParsePort_not_Panic Let_def split: outcome.split option.split)

lemma ValidateSet_refuses:
  assumes "a \<in> set items" "b \<in> set items" "a \<noteq> b" "ParsePort (Port a) = ParsePort (Port b)"
  shows "\<exists>e. ValidateSet items = Err e"
proof -
  have "\<not> distinct (map (\<lambda>it. ParsePort (Port it)) items)"
    using assms by (auto simp: distinct_map inj_on_def)
  then have "ValidateSet items \<noteq> Ok ()" unfolding ValidateSet_Ok by blast
  then show ?thesis
    using validate_loop_not_Panic [of items "[]"] by (cases "ValidateSet items") (auto simp: ValidateSet_def)
qed

lemma commit_contents:
  assumes "store_ok Name h"
  shows "store_ok Name (fst (apply_commit confirm env req h))"
    "set (Desired (fst (apply_commit confirm env req h))) = insert req {it \<in> set (Desired h). Name it \<noteq> Name req}"
proof -
  have "fst (apply_commit confirm env req h) = fst (store_Apply confirm (Name req) req h)"
    using commit_stores [of confirm env req h] by auto
  then show "store_ok Name (fst (apply_commit confirm env req h))"
    "set (Desired (fst (apply_commit confirm env req h))) = insert req {it \<in> set (Desired h). Name it \<noteq> Name req}"
    using stores.put_ok [OF assms refl] stores.contents_put [OF assms refl] by simp_all
qed

text \<open>
  C40. Nothing locks the store between the checks and the write. Whatever the store, for any two requests
  for one port under different names that are each acceptable, the steps of \<open>Apply\<close> can interleave so that both calls are
  accepted: both check before either stores. At the end no call is in flight, both routes are stored, and
  the stored set is one that \<open>ValidateSet\<close> refuses.
\<close>

theorem interleaved_applies_conflict:
  assumes "service_reachable h" "apply_checks a h = Ok ()" "apply_checks b h = Ok ()"
    and "Name a \<noteq> Name b" "ParsePort (Port a) = ParsePort (Port b)"
  shows "\<exists>s. apply_step\<^sup>*\<^sup>* \<lparr> store_of = h, checked = [] \<rparr> s \<and> checked s = [] \<and>
    {a, b} \<subseteq> set (Desired (store_of s)) \<and> (\<exists>e. ValidateSet (Desired (store_of s)) = Err e)"
proof -
  let ?h1 = "fst (apply_commit None empty_surroundings a h)"
  let ?h2 = "fst (apply_commit None empty_surroundings b ?h1)"
  have "Apply_check a \<lparr> store_of = h, checked = [] \<rparr> = \<lparr> store_of = h, checked = [a] \<rparr>"
    "Apply_check b \<lparr> store_of = h, checked = [a] \<rparr> = \<lparr> store_of = h, checked = [a, b] \<rparr>"
    by (simp_all add: Apply_check_def assms)
  then have c: "apply_step \<lparr> store_of = h, checked = [] \<rparr> \<lparr> store_of = h, checked = [a] \<rparr>"
    "apply_step \<lparr> store_of = h, checked = [a] \<rparr> \<lparr> store_of = h, checked = [a, b] \<rparr>"
    using apply_step.checks by metis+
  have s: "apply_step \<lparr> store_of = h, checked = [a, b] \<rparr> \<lparr> store_of = ?h1, checked = [b] \<rparr>"
    "apply_step \<lparr> store_of = ?h1, checked = [b] \<rparr> \<lparr> store_of = ?h2, checked = [] \<rparr>"
    using apply_step.stores [of a "\<lparr> store_of = h, checked = [a, b] \<rparr>" None empty_surroundings]
      apply_step.stores [of b "\<lparr> store_of = ?h1, checked = [b] \<rparr>" None empty_surroundings]
    by (simp_all add: Apply_store_def)
  have "apply_step\<^sup>*\<^sup>* \<lparr> store_of = h, checked = [] \<rparr> \<lparr> store_of = ?h2, checked = [] \<rparr>"
    using c s by (meson converse_rtranclp_into_rtranclp r_into_rtranclp)
  moreover have "store_ok Name h" using reachable_routes_ok [OF assms(1)] by (simp add: routes_ok_def)
  then have both: "a \<in> set (Desired ?h2)" "b \<in> set (Desired ?h2)"
    using commit_contents [of h None empty_surroundings a] commit_contents [of ?h1 None empty_surroundings b] assms(4)
    by auto
  moreover have "a \<noteq> b" using assms(4) by auto
  ultimately show ?thesis using ValidateSet_refuses [OF both _ assms(5)] by fastforce
qed

theorem interleaved_applies_conflict_witness:
  "\<exists>s. apply_step\<^sup>*\<^sup>* \<lparr> store_of = New_handlers, checked = [] \<rparr> s \<and> checked s = [] \<and>
    {example_route ''a'', example_route ''b''} \<subseteq> set (Desired (store_of s)) \<and>
    (\<exists>e. ValidateSet (Desired (store_of s)) = Err e)"
  by (rule interleaved_applies_conflict [OF service_reachable.new example_checks])
    (simp_all add: example_route_def)

end
