(* ===== verification/L4lb_Driver.thy ===== *)
theory L4lb_Driver
  imports Dest_Entries "HOL-Library.AList"
begin

unbundle bit_operations_syntax

text \<open>
  The load balancer node: the driver that keeps the kernel's tables equal to its configuration
  (\<open>l4lb/l4lbdrv/drv.go\<close>, \<open>portroute.go\<close>, \<open>bindings.go\<close>), the controller that stages a setting or
  applies it live (\<open>l4lb/control/controller.go\<close>), and the RPCs that reach it (\<open>dataplane/dataplane.go\<close>).
\<close>

section \<open>Configuration\<close>

record port_route =
  pr_Proto :: u8
  pr_Port :: u16
  pr_Dest :: dest_entry

definition IPPROTO_TCP :: u8 where
  "IPPROTO_TCP = 6"

definition IPPROTO_UDP :: u8 where
  "IPPROTO_UDP = 17"

definition PORT_ROUTE_MAP_SIZE :: nat where
  "PORT_ROUTE_MAP_SIZE = 256"

definition PORT_ROUTE_ACTION_FORWARD :: u32 where
  "PORT_ROUTE_ACTION_FORWARD = 1"

definition PORT_ROUTE_VALUE_SIZE :: nat where
  "PORT_ROUTE_VALUE_SIZE = 18"

record dynamic_config =
  InterfaceName :: string
  VIP :: ip_addr
  VIPv6 :: ip_addr
  Dests :: "dest_entry list"
  SharedKey :: "u8 list"
  MTU :: u16
  RoutingRandom :: "u8 list"
  IcmpEcho :: bool
  PortRoutes :: "port_route list"

record fixed_config =
  BinPath :: string
  CryptoBin :: string
  EBPFPinDir :: string

record lb_config =
  VipAddress :: u32
  NumDests :: u32
  Mtu :: u16
  QuicDestPort :: u16
  Flags :: u32
  ServerIdHashKey :: u32
  Vipv6Address :: "u8 list"

record port_route_key =
  key_Vip :: "u8 list"
  key_Port :: u16
  key_Proto :: u8

datatype drv_error =
    NotIPv4Address
  | DestinationIsV6
  | NotTcpOrUdp
  | PortZero
  | DestinationNotV4
  | MacNotSixBytes
  | ListedTwice
  | TooManyRoutes nat
  | BadValueSize
  | InvalidVIP
  | ConfigMapFailed
  | DestinationArrayFailed
  | IterateFailed
  | DeleteFailed
  | PutFailed
  | SetupFailed string
  | CryptoFailed string
  | CloseFailed string
  | AlreadyStarted
  | NotStarted
  | CannotRebind string string
  | InvalidIP string
  | NoDestination
  | RpcBadPort

section \<open>Byte layout\<close>

text \<open>The hosts are little-endian (\<open>hostOrder\<close> in \<open>drv.go\<close>).\<close>

definition le32_bytes :: "u32 \<Rightarrow> u8 list" where
  "le32_bytes w = map (\<lambda>i. ucast (drop_bit (8 * i) w)) [0, 1, 2, 3]"

definition le32 :: "u8 list \<Rightarrow> u32" where
  "le32 bs = foldr (\<lambda>b acc. push_bit 8 acc OR ucast b) bs 0"

definition swap16 :: "u16 \<Rightarrow> u16" where
  "swap16 p = push_bit 8 p OR drop_bit 8 p"

definition entry_bytes :: "dest_entry \<Rightarrow> (drv_error, u8 list) outcome" where
  "entry_bytes e =
     (if Is6 (IPAddr e) then Err DestinationIsV6
      else bind_outcome (As4 (IPAddr e)) (\<lambda>ip4.
        Ok (ip4 @ take 6 (HardwareAddr e @ replicate 6 0) @ le32_bytes (ServerID e))))"

fun entries_bytes :: "dest_entry list \<Rightarrow> (drv_error, u8 list) outcome" where
  "entries_bytes [] = Ok []"
| "entries_bytes (e # es) =
     bind_outcome (entry_bytes e) (\<lambda>b. bind_outcome (entries_bytes es) (\<lambda>bs. Ok (b @ bs)))"

definition route_value_bytes :: "dest_entry \<times> u32 \<Rightarrow> (drv_error, u8 list) outcome" where
  "route_value_bytes v =
     bind_outcome (entries_bytes [fst v]) (\<lambda>b.
       let b = b @ le32_bytes (snd v) in
       if length b \<noteq> PORT_ROUTE_VALUE_SIZE then Err BadValueSize else Ok b)"

definition IPToUint32 :: "ip_addr \<Rightarrow> (drv_error, u32) outcome" where
  "IPToUint32 ip =
     (if \<not> Is4 ip then Err NotIPv4Address else bind_outcome (As4 ip) (\<lambda>ip4. Ok (le32 ip4)))"

definition configFlags :: "dynamic_config \<Rightarrow> u32" where
  "configFlags cfg = (if IcmpEcho cfg then 0 OR push_bit 2 1 else 0)"

section \<open>Port routes\<close>

fun validate_routes_loop :: "port_route list \<Rightarrow> (u8 \<times> u16) list \<Rightarrow> (drv_error, unit) outcome" where
  "validate_routes_loop [] seen = Ok ()"
| "validate_routes_loop (r # rs) seen =
     (if pr_Proto r \<noteq> IPPROTO_TCP \<and> pr_Proto r \<noteq> IPPROTO_UDP then Err NotTcpOrUdp
      else if pr_Port r = 0 then Err PortZero
      else if \<not> Is4 (IPAddr (pr_Dest r)) then Err DestinationNotV4
      else if length (HardwareAddr (pr_Dest r)) \<noteq> 6 then Err MacNotSixBytes
      else if (pr_Proto r, pr_Port r) \<in> set seen then Err ListedTwice
      else validate_routes_loop rs ((pr_Proto r, pr_Port r) # seen))"

definition ValidatePortRoutes :: "port_route list \<Rightarrow> (drv_error, unit) outcome" where
  "ValidatePortRoutes routes =
     bind_outcome (validate_routes_loop routes []) (\<lambda>_.
       if length routes > PORT_ROUTE_MAP_SIZE then Err (TooManyRoutes (length routes)) else Ok ())"

definition portRouteKey :: "ip_addr \<Rightarrow> u8 \<Rightarrow> u16 \<Rightarrow> port_route_key" where
  "portRouteKey vip proto port = \<lparr> key_Vip = As16 vip, key_Port = swap16 port, key_Proto = proto \<rparr>"

definition served_vips :: "dynamic_config \<Rightarrow> ip_addr list" where
  "served_vips cfg = filter (\<lambda>vip. IsValid vip \<and> \<not> IsUnspecified vip) [VIP cfg, VIPv6 cfg]"

definition route_value :: "port_route \<Rightarrow> dest_entry \<times> u32" where
  "route_value r =
     (\<lparr> ServerID = 0, HardwareAddr = HardwareAddr (pr_Dest r), IPAddr = IPAddr (pr_Dest r) \<rparr>, PORT_ROUTE_ACTION_FORWARD)"

definition desiredPortRoutes :: "dynamic_config \<Rightarrow> (port_route_key \<times> (dest_entry \<times> u32)) list" where
  "desiredPortRoutes cfg =
     fold (\<lambda>vip out. fold (\<lambda>r. AList.update (portRouteKey vip (pr_Proto r) (pr_Port r)) (route_value r)) (PortRoutes cfg) out)
       (served_vips cfg) []"

section \<open>The kernel's tables\<close>

text \<open>
  The eBPF maps belong to the kernel and are reached through a library; they are a state \<open>k\<close> with the
  calls the driver makes. A call that fails leaves the state as it is. \<open>delete_route\<close> fails with
  \<open>True\<close> when the key does not exist.
\<close>

record 'k ebpf =
  set_config :: "lb_config \<Rightarrow> 'k \<Rightarrow> 'k option"
  set_dests :: "nat \<Rightarrow> u8 list \<Rightarrow> 'k \<Rightarrow> 'k option"
  route_keys :: "'k \<Rightarrow> port_route_key list option"
  put_route :: "port_route_key \<Rightarrow> u8 list \<Rightarrow> 'k \<Rightarrow> 'k option"
  delete_route :: "port_route_key \<Rightarrow> 'k \<Rightarrow> (bool, 'k) outcome"

fun delete_loop :: "'k ebpf \<Rightarrow> port_route_key list \<Rightarrow> 'k \<Rightarrow> (drv_error, unit) outcome \<times> 'k" where
  "delete_loop eb [] k = (Ok (), k)"
| "delete_loop eb (key # stale) k =
     (case delete_route eb key k of
        Ok k' \<Rightarrow> delete_loop eb stale k'
      | Err missing \<Rightarrow> if missing then delete_loop eb stale k else (Err DeleteFailed, k)
      | Panic \<Rightarrow> (Panic, k))"

fun put_loop :: "'k ebpf \<Rightarrow> (port_route_key \<times> (dest_entry \<times> u32)) list \<Rightarrow> 'k \<Rightarrow> (drv_error, unit) outcome \<times> 'k" where
  "put_loop eb [] k = (Ok (), k)"
| "put_loop eb ((key, v) # want) k =
     (case route_value_bytes v of
        Ok b \<Rightarrow>
          (case put_route eb key b k of
             Some k' \<Rightarrow> put_loop eb want k'
           | None \<Rightarrow> (Err PutFailed, k))
      | Err _ \<Rightarrow> (Err PutFailed, k)
      | Panic \<Rightarrow> (Panic, k))"

definition syncPortRoutes :: "'k ebpf \<Rightarrow> dynamic_config \<Rightarrow> 'k \<Rightarrow> (drv_error, unit) outcome \<times> 'k" where
  "syncPortRoutes eb cfg k =
     (let want = desiredPortRoutes cfg in
      case route_keys eb k of
        None \<Rightarrow> (Err IterateFailed, k)
      | Some ks \<Rightarrow>
          (case delete_loop eb (filter (\<lambda>key. map_of want key = None) ks) k of
             (Ok _, k') \<Rightarrow> put_loop eb want k'
           | (Err e, k') \<Rightarrow> (Err e, k')
           | (Panic, k') \<Rightarrow> (Panic, k')))"

definition config_of :: "dynamic_config \<Rightarrow> u32 \<Rightarrow> lb_config" where
  "config_of cfg vip4 =
     \<lparr> VipAddress = vip4, NumDests = of_int (int (length (Dests cfg)) - 1), Mtu = MTU cfg, QuicDestPort = 0,
       Flags = configFlags cfg, ServerIdHashKey = le32 (RoutingRandom cfg), Vipv6Address = As16 (VIPv6 cfg) \<rparr>"

definition Sync :: "'k ebpf \<Rightarrow> dynamic_config \<Rightarrow> 'k \<Rightarrow> (drv_error, unit) outcome \<times> 'k" where
  "Sync eb cfg k =
     (case IPToUint32 (VIP cfg) of
        Err e \<Rightarrow> (Err e, k)
      | Panic \<Rightarrow> (Panic, k)
      | Ok vip4 \<Rightarrow>
          (case set_config eb (config_of cfg vip4) k of
             None \<Rightarrow> (Err ConfigMapFailed, k)
           | Some k \<Rightarrow>
               (case entries_bytes (Dests cfg) of
                  Err _ \<Rightarrow> (Err DestinationArrayFailed, k)
                | Panic \<Rightarrow> (Panic, k)
                | Ok bs \<Rightarrow>
                    (case set_dests eb (length (Dests cfg)) bs k of
                       None \<Rightarrow> (Err DestinationArrayFailed, k)
                     | Some k \<Rightarrow> syncPortRoutes eb cfg k))))"

text \<open>The live operations of the driver: its configuration is the controller's, shared by pointer.\<close>

type_synonym 'k lb_result = "(drv_error, unit) outcome \<times> dynamic_config \<times> 'k"

definition drv_UpdateVIP :: "'k ebpf \<Rightarrow> ip_addr \<Rightarrow> bool \<Rightarrow> dynamic_config \<Rightarrow> 'k \<Rightarrow> 'k lb_result" where
  "drv_UpdateVIP eb newVIP icmpEcho cfg k =
     (if \<not> Is4 newVIP \<and> \<not> Is6 newVIP then (Err InvalidVIP, cfg, k)
      else
        let cfg = (if Is4 newVIP then cfg \<lparr> VIP := newVIP \<rparr> else cfg \<lparr> VIPv6 := newVIP \<rparr>) \<lparr> IcmpEcho := icmpEcho \<rparr>;
            (res, k') = Sync eb cfg k
        in (res, cfg, k'))"

definition drv_UpdateDestinations :: "'k ebpf \<Rightarrow> dest_entry list \<Rightarrow> dynamic_config \<Rightarrow> 'k \<Rightarrow> 'k lb_result" where
  "drv_UpdateDestinations eb dests cfg k =
     (if dests = [] then (Ok (), cfg, k)
      else let cfg = cfg \<lparr> Dests := dests \<rparr>; (res, k') = Sync eb cfg k in (res, cfg, k'))"

definition UpdatePortRoutes :: "'k ebpf \<Rightarrow> port_route list \<Rightarrow> dynamic_config \<Rightarrow> 'k \<Rightarrow> 'k lb_result" where
  "UpdatePortRoutes eb routes cfg k =
     (case ValidatePortRoutes routes of
        Ok _ \<Rightarrow> (let cfg = cfg \<lparr> PortRoutes := routes \<rparr>; (res, k') = syncPortRoutes eb cfg k in (res, cfg, k'))
      | Err e \<Rightarrow> (Err e, cfg, k)
      | Panic \<Rightarrow> (Panic, cfg, k))"

section \<open>The controller\<close>

record object_identity =
  id_bin :: string
  id_crypto :: string
  id_pinDir :: string
  id_binSum :: string
  id_cryptoSum :: string

definition no_identity :: object_identity where
  "no_identity = \<lparr> id_bin = '''', id_crypto = '''', id_pinDir = '''', id_binSum = '''', id_cryptoSum = '''' \<rparr>"

text \<open>\<open>drv\<close> is the kernel state of the running driver, absent until it is started.\<close>

record 'k controller =
  drv :: "'k option"
  fix_config :: fixed_config
  dyn :: dynamic_config
  appliedVips :: "string list"
  serverID :: u32
  lifecycle :: u8
  loaded :: object_identity

definition New_controller :: "fixed_config \<Rightarrow> 'k controller" where
  "New_controller fc =
     \<lparr> drv = None, fix_config = fc,
       dyn = \<lparr> InterfaceName = '''', VIP = NoAddr, VIPv6 = NoAddr, Dests = [], SharedKey = [], MTU = 1500,
               RoutingRandom = replicate 4 0xa5, IcmpEcho = False, PortRoutes = [] \<rparr>,
       appliedVips = [], serverID = 0, lifecycle = 3, loaded = no_identity \<rparr>"

text \<open>\<open>content_sum\<close> reads and hashes a file, if it can.\<close>

definition fileSum :: "(string \<Rightarrow> string option) \<Rightarrow> string \<Rightarrow> string option" where
  "fileSum content_sum p = (if p = '''' then Some '''' else content_sum p)"

definition identify :: "(string \<Rightarrow> string option) \<Rightarrow> fixed_config \<Rightarrow> object_identity option" where
  "identify content_sum fc =
     (case fileSum content_sum (BinPath fc) of
        None \<Rightarrow> None
      | Some b \<Rightarrow>
          (case fileSum content_sum (CryptoBin fc) of
             None \<Rightarrow> None
           | Some c \<Rightarrow>
               Some \<lparr> id_bin = BinPath fc, id_crypto = CryptoBin fc, id_pinDir = EBPFPinDir fc, id_binSum = b,
                      id_cryptoSum = c \<rparr>))"

text \<open>
  Building the driver: \<open>setup_dev\<close> loads the eBPF objects and attaches them, which this library does not
  look into; then the tables are written for the first time.
\<close>

record 'k node_platform =
  maps :: "'k ebpf"
  content_sum :: "string \<Rightarrow> string option"
  setup_dev :: "fixed_config \<Rightarrow> dynamic_config \<Rightarrow> (drv_error, 'k) outcome"
  init_crypto :: "fixed_config \<Rightarrow> u8 list \<Rightarrow> string option"
  close_error :: "'k \<Rightarrow> string option"

definition factory :: "'k node_platform \<Rightarrow> fixed_config \<Rightarrow> dynamic_config \<Rightarrow> (drv_error, 'k) outcome" where
  "factory pf fc cfg =
     bind_outcome (setup_dev pf fc cfg) (\<lambda>k.
       case Sync (maps pf) cfg k of (Ok _, k') \<Rightarrow> Ok k' | (Err e, _) \<Rightarrow> Err e | (Panic, _) \<Rightarrow> Panic)"

definition buildLocked :: "'k node_platform \<Rightarrow> 'k controller \<Rightarrow> (drv_error, unit) outcome \<times> 'k controller" where
  "buildLocked pf c =
     (case factory pf (fix_config c) (dyn c) of
        Ok k \<Rightarrow>
          (Ok (), c \<lparr> drv := Some k,
                      loaded := (case identify (content_sum pf) (fix_config c) of Some i \<Rightarrow> i | None \<Rightarrow> no_identity),
                      lifecycle := AppStatusRunning \<rparr>)
      | Err e \<Rightarrow> (Err e, c \<lparr> lifecycle := 4 \<rparr>)
      | Panic \<Rightarrow> (Panic, c))"

definition Start :: "'k node_platform \<Rightarrow> 'k controller \<Rightarrow> (drv_error, unit) outcome \<times> 'k controller" where
  "Start pf c = (if drv c \<noteq> None then (Err AlreadyStarted, c) else buildLocked pf c)"

definition Stop :: "'k node_platform \<Rightarrow> 'k controller \<Rightarrow> (drv_error, unit) outcome \<times> 'k controller" where
  "Stop pf c =
     (case drv c of
        None \<Rightarrow> (Err NotStarted, c)
      | Some k \<Rightarrow>
          (case close_error pf k of None \<Rightarrow> Ok () | Some e \<Rightarrow> Err (CloseFailed e),
           c \<lparr> drv := None, loaded := no_identity, lifecycle := 2 \<rparr>))"

definition SetBalancerObject ::
    "'k node_platform \<Rightarrow> string \<Rightarrow> string \<Rightarrow> string \<Rightarrow> 'k controller \<Rightarrow> (drv_error, unit) outcome \<times> 'k controller" where
  "SetBalancerObject pf binPath cryptoBin pinDir c =
     (let c = c \<lparr> fix_config := \<lparr> BinPath = binPath, CryptoBin = cryptoBin, EBPFPinDir = pinDir \<rparr> \<rparr> in
      if drv c = None then (Ok (), c)
      else if identify (content_sum pf) (fix_config c) = Some (loaded c) then (Ok (), c)
      else buildLocked pf (c \<lparr> drv := None, loaded := no_identity \<rparr>))"

definition live :: "('k \<Rightarrow> 'k lb_result) \<Rightarrow> 'k controller \<Rightarrow> (drv_error, unit) outcome \<times> 'k controller" where
  "live f c =
     (case drv c of
        None \<Rightarrow> (Ok (), c)
      | Some k \<Rightarrow> (case f k of (res, cfg, k') \<Rightarrow> (res, c \<lparr> dyn := cfg, drv := Some k' \<rparr>)))"

definition UpdateVip ::
    "'k node_platform \<Rightarrow> (ip_addr \<Rightarrow> string) \<Rightarrow> ip_addr \<Rightarrow> bool \<Rightarrow> 'k controller \<Rightarrow> (drv_error, unit) outcome \<times> 'k controller" where
  "UpdateVip pf text vip icmpEcho c =
     (let c = c \<lparr> appliedVips := List.insert (text vip) (appliedVips c), dyn := dyn c \<lparr> IcmpEcho := icmpEcho \<rparr> \<rparr> in
      if drv c = None then
        (Ok (), c \<lparr> dyn := (if Is4 vip then dyn c \<lparr> VIP := vip \<rparr> else dyn c \<lparr> VIPv6 := vip \<rparr>) \<rparr>)
      else live (drv_UpdateVIP (maps pf) vip icmpEcho (dyn c)) c)"

definition SyncSecret :: "'k node_platform \<Rightarrow> u8 list \<Rightarrow> 'k controller \<Rightarrow> (drv_error, unit) outcome \<times> 'k controller" where
  "SyncSecret pf secret c =
     (let c = c \<lparr> dyn := dyn c \<lparr> SharedKey := secret \<rparr> \<rparr> in
      if drv c = None then (Ok (), c)
      else (case init_crypto pf (fix_config c) secret of None \<Rightarrow> Ok () | Some e \<Rightarrow> Err (CryptoFailed e), c))"

definition BindInterface :: "string \<Rightarrow> 'k controller \<Rightarrow> (drv_error, unit) outcome \<times> 'k controller" where
  "BindInterface iface c =
     (if drv c \<noteq> None then
        (if iface = InterfaceName (dyn c) then Ok () else Err (CannotRebind (InterfaceName (dyn c)) iface), c)
      else (Ok (), c \<lparr> dyn := dyn c \<lparr> InterfaceName := iface \<rparr> \<rparr>))"

definition UpdateMtu :: "'k node_platform \<Rightarrow> u16 \<Rightarrow> 'k controller \<Rightarrow> (drv_error, unit) outcome \<times> 'k controller" where
  "UpdateMtu pf m c =
     (let c = c \<lparr> dyn := dyn c \<lparr> MTU := m \<rparr> \<rparr> in
      live (\<lambda>k. case Sync (maps pf) (dyn c) k of (res, k') \<Rightarrow> (res, dyn c, k')) c)"

definition SetServerID :: "u32 \<Rightarrow> 'k controller \<Rightarrow> 'k controller" where
  "SetServerID i c = c \<lparr> serverID := i \<rparr>"

definition UpdateDestinations ::
    "'k node_platform \<Rightarrow> dest_entry list \<Rightarrow> 'k controller \<Rightarrow> (drv_error, unit) outcome \<times> 'k controller" where
  "UpdateDestinations pf dests c =
     (if drv c = None then (Ok (), c \<lparr> dyn := dyn c \<lparr> Dests := dests \<rparr> \<rparr>)
      else live (drv_UpdateDestinations (maps pf) dests (dyn c)) c)"

text \<open>A route as it comes from the RPC: protocol, port, destination.\<close>

type_synonym rpc_route = "string \<times> u16 \<times> dest_entry"

fun convert_routes :: "rpc_route list \<Rightarrow> (drv_error, port_route list) outcome" where
  "convert_routes [] = Ok []"
| "convert_routes ((proto, port, dest) # rs) =
     (if proto \<noteq> ''tcp'' \<and> proto \<noteq> ''udp'' then Err NotTcpOrUdp
      else bind_outcome (convert_routes rs) (\<lambda>out.
        Ok (\<lparr> pr_Proto = (if proto = ''tcp'' then IPPROTO_TCP else IPPROTO_UDP), pr_Port = port,
              pr_Dest = \<lparr> ServerID = 0, HardwareAddr = HardwareAddr dest, IPAddr = IPAddr dest \<rparr> \<rparr> # out)))"

definition SetPortRoutes ::
    "'k node_platform \<Rightarrow> rpc_route list \<Rightarrow> 'k controller \<Rightarrow> (drv_error, unit) outcome \<times> 'k controller" where
  "SetPortRoutes pf routes c =
     (case bind_outcome (convert_routes routes) (\<lambda>out. bind_outcome (ValidatePortRoutes out) (\<lambda>_. Ok out)) of
        Err e \<Rightarrow> (Err e, c)
      | Panic \<Rightarrow> (Panic, c)
      | Ok out \<Rightarrow>
          (let c = c \<lparr> dyn := dyn c \<lparr> PortRoutes := out \<rparr> \<rparr> in
           live (UpdatePortRoutes (maps pf) out (dyn c)) c))"

section \<open>The RPCs\<close>

text \<open>A destination on the wire: server id, MAC and the text of the address.\<close>

record destination =
  dServerId :: u32
  dHardwareAddr :: "u8 list"
  dIpAddr :: string

record port_route_msg =
  mProto :: string
  mPort :: u32
  mDest :: "destination option"

fun read_routes :: "(string \<Rightarrow> ip_addr option) \<Rightarrow> port_route_msg list \<Rightarrow> (drv_error, rpc_route list) outcome" where
  "read_routes parse6 [] = Ok []"
| "read_routes parse6 (r # rs) =
     (case mDest r of
        None \<Rightarrow> Err NoDestination
      | Some d \<Rightarrow>
          if mPort r = 0 \<or> mPort r > 65535 then Err RpcBadPort
          else
            (case ParseAddr parse6 (dIpAddr d) of
               None \<Rightarrow> Err (InvalidIP (dIpAddr d))
             | Some ip \<Rightarrow>
                 bind_outcome (read_routes parse6 rs) (\<lambda>out.
                   Ok ((mProto r, ucast (mPort r), \<lparr> ServerID = 0, HardwareAddr = dHardwareAddr d, IPAddr = ip \<rparr>) # out))))"

definition rpc_SetPortRoutes ::
    "'k node_platform \<Rightarrow> (string \<Rightarrow> ip_addr option) \<Rightarrow> port_route_msg list \<Rightarrow> 'k controller \<Rightarrow>
     (drv_error, unit) outcome \<times> 'k controller" where
  "rpc_SetPortRoutes pf parse6 routes c =
     (case read_routes parse6 routes of
        Ok rs \<Rightarrow> SetPortRoutes pf rs c
      | Err e \<Rightarrow> (Err e, c)
      | Panic \<Rightarrow> (Panic, c))"

fun read_destinations :: "(string \<Rightarrow> ip_addr option) \<Rightarrow> destination list \<Rightarrow> (drv_error, dest_entry list) outcome" where
  "read_destinations parse6 [] = Ok []"
| "read_destinations parse6 (d # ds) =
     (case ParseAddr parse6 (dIpAddr d) of
        None \<Rightarrow> Err (InvalidIP (dIpAddr d))
      | Some ip \<Rightarrow>
          bind_outcome (read_destinations parse6 ds) (\<lambda>out.
            Ok (\<lparr> ServerID = dServerId d, HardwareAddr = dHardwareAddr d, IPAddr = ip \<rparr> # out)))"

definition rpc_UpdateDestinations ::
    "'k node_platform \<Rightarrow> (string \<Rightarrow> ip_addr option) \<Rightarrow> destination list \<Rightarrow> 'k controller \<Rightarrow>
     (drv_error, unit) outcome \<times> 'k controller" where
  "rpc_UpdateDestinations pf parse6 ds c =
     (case read_destinations parse6 ds of
        Ok dests \<Rightarrow> UpdateDestinations pf dests c
      | Err e \<Rightarrow> (Err e, c)
      | Panic \<Rightarrow> (Panic, c))"

definition rpc_UpdateVip ::
    "'k node_platform \<Rightarrow> (string \<Rightarrow> ip_addr option) \<Rightarrow> (ip_addr \<Rightarrow> string) \<Rightarrow> string \<Rightarrow> bool \<Rightarrow> 'k controller \<Rightarrow>
     (drv_error, unit) outcome \<times> 'k controller" where
  "rpc_UpdateVip pf parse6 text vip icmpEcho c =
     (case ParseAddr parse6 vip of
        None \<Rightarrow> (Err (InvalidIP vip), c)
      | Some a \<Rightarrow> UpdateVip pf text a icmpEcho c)"

end
