(* ===== verification/L4lb_Driver_Laws.thy ===== *)
theory L4lb_Driver_Laws
  imports L4lb_Driver
begin

text \<open>
  The kernel's tables always are the ones of the configuration: byte layout, the port routes exactly,
  and the controller's promise that a setting staged before the start and one applied live end alike.
\<close>

section \<open>Byte layout\<close>

lemma le32_bytes_length [simp]: "length (le32_bytes w) = 4"
  by (simp add: le32_bytes_def)

lemma swap16_swap16: "swap16 (swap16 p) = p"
  by (rule bit_word_eqI) (auto simp: swap16_def bit_simps not_le)

lemma swap16_inject: "swap16 p = swap16 q \<longleftrightarrow> p = q"
  by (metis swap16_swap16)

lemma As16_length: "Is4 ip \<Longrightarrow> length (As16 ip) = 16"
  by (cases ip) (simp_all add: v4_mapped_def)

lemma As4_v4: "Is4 ip \<Longrightarrow> \<exists>b. As4 ip = Ok b \<and> length b = 4"
  by (cases ip) simp_all

definition entry_layout :: "dest_entry \<Rightarrow> u8 list" where
  "entry_layout e = drop 12 (As16 (IPAddr e)) @ take 6 (HardwareAddr e @ replicate 6 0) @ le32_bytes (ServerID e)"

lemma entry_bytes_v4: "Is4 (IPAddr e) \<Longrightarrow> entry_bytes e = Ok (entry_layout e)"
  by (cases "IPAddr e") (simp_all add: entry_bytes_def entry_layout_def v4_mapped_def)

lemma entry_layout_length: "Is4 (IPAddr e) \<Longrightarrow> length (entry_layout e) = 14"
  by (cases "IPAddr e") (simp_all add: entry_layout_def v4_mapped_def)

lemma entry_bytes_Ok:
  assumes "entry_bytes e = Ok b"
  shows "Is4 (IPAddr e)" "b = entry_layout e"
proof -
  show v4: "Is4 (IPAddr e)" using assms by (cases "IPAddr e") (simp_all add: entry_bytes_def)
  show "b = entry_layout e" using assms entry_bytes_v4 [OF v4] by simp
qed

lemma entries_bytes_Ok:
  "entries_bytes es = Ok bs \<Longrightarrow>
     (\<forall>e \<in> set es. Is4 (IPAddr e)) \<and> length bs = 14 * length es \<and>
     (\<forall>i < length es. take 14 (drop (14 * i) bs) = entry_layout (es ! i))"
proof (induction es arbitrary: bs)
  case (Cons e es)
  then obtain b bs' where b: "entry_bytes e = Ok b" "entries_bytes es = Ok bs'" "bs = b @ bs'" by auto
  note e = entry_bytes_Ok [OF b(1)]
  have len: "length b = 14" using entry_layout_length [OF e(1)] e(2) by simp
  have "take 14 (drop (14 * i) bs) = entry_layout ((e # es) ! i)" if "i < length (e # es)" for i
  proof (cases i)
    case 0
    then show ?thesis using e(2) len by (simp add: b(3))
  next
    case (Suc j)
    then show ?thesis using Cons.IH [OF b(2)] that len by (simp add: b(3))
  qed
  then show ?case using Cons.IH [OF b(2)] e(1) len by (auto simp: b(3))
qed simp

lemma entries_bytes_v4: "\<forall>e \<in> set es. Is4 (IPAddr e) \<Longrightarrow> \<exists>bs. entries_bytes es = Ok bs"
  by (induction es) (auto simp: entry_bytes_v4)

lemma route_value_bytes_v4:
  assumes "Is4 (IPAddr (fst v))"
  shows "route_value_bytes v = Ok (entry_layout (fst v) @ le32_bytes (snd v))"
  using assms by (simp add: route_value_bytes_def entry_bytes_v4 entry_layout_length PORT_ROUTE_VALUE_SIZE_def Let_def)

section \<open>Desired port routes\<close>

definition route_valid :: "port_route \<Rightarrow> bool" where
  "route_valid r \<longleftrightarrow>
     (pr_Proto r = IPPROTO_TCP \<or> pr_Proto r = IPPROTO_UDP) \<and> pr_Port r \<noteq> 0 \<and> Is4 (IPAddr (pr_Dest r)) \<and>
     length (HardwareAddr (pr_Dest r)) = 6"

definition route_port :: "port_route \<Rightarrow> u8 \<times> u16" where
  "route_port r = (pr_Proto r, pr_Port r)"

lemma validate_routes_loop_Ok:
  "validate_routes_loop rs seen = Ok () \<longleftrightarrow>
     (\<forall>r \<in> set rs. route_valid r \<and> route_port r \<notin> set seen) \<and> distinct (map route_port rs)"
proof (induction rs arbitrary: seen)
  case (Cons r rs)
  have step: "validate_routes_loop (r # rs) seen = Ok () \<longleftrightarrow>
      route_valid r \<and> route_port r \<notin> set seen \<and> validate_routes_loop rs (route_port r # seen) = Ok ()"
    by (simp add: route_valid_def route_port_def)
  show ?case unfolding step Cons.IH by (auto intro: rev_image_eqI)
qed simp

lemma ValidatePortRoutes_Ok:
  "ValidatePortRoutes rs = Ok () \<longleftrightarrow>
     (\<forall>r \<in> set rs. route_valid r) \<and> distinct (map route_port rs) \<and> length rs \<le> PORT_ROUTE_MAP_SIZE"
  using validate_routes_loop_Ok [of rs "[]"]
  by (cases "validate_routes_loop rs []") (auto simp: ValidatePortRoutes_def)

lemma portRouteKey_inject:
  "As16 v = As16 w \<Longrightarrow> portRouteKey v a p = portRouteKey w b q \<longleftrightarrow> a = b \<and> p = q"
  by (auto simp: portRouteKey_def swap16_inject)

lemma routes_of_vip:
  "distinct (map route_port rs) \<Longrightarrow>
   map_of (fold (\<lambda>r. AList.update (portRouteKey vip (pr_Proto r) (pr_Port r)) (route_value r)) rs out) key =
     (case find (\<lambda>r. portRouteKey vip (pr_Proto r) (pr_Port r) = key) rs of
        Some r \<Rightarrow> Some (route_value r) | None \<Rightarrow> map_of out key)"
proof (induction rs arbitrary: out)
  case (Cons r rs)
  have "find (\<lambda>r. portRouteKey vip (pr_Proto r) (pr_Port r) = key) rs = None"
    if "portRouteKey vip (pr_Proto r) (pr_Port r) = key"
  proof -
    have "portRouteKey vip (pr_Proto q) (pr_Port q) \<noteq> key" if "q \<in> set rs" for q
      using Cons.prems that \<open>portRouteKey vip (pr_Proto r) (pr_Port r) = key\<close>
        portRouteKey_inject [OF refl, of vip "pr_Proto q" "pr_Port q" "pr_Proto r" "pr_Port r"]
      by (force simp: image_iff route_port_def)
    then show ?thesis by (auto simp: find_None_iff)
  qed
  then show ?case using Cons by (auto split: option.splits)
qed simp

lemma desired_keys_ok:
  "map_ok out \<Longrightarrow> map_ok (fold (\<lambda>r. AList.update (k r) (v r)) rs out)"
  by (induction rs arbitrary: out) simp_all

lemma desiredPortRoutes_ok: "map_ok (desiredPortRoutes cfg)"
  unfolding desiredPortRoutes_def served_vips_def
  by (simp add: desired_keys_ok)

lemma desired_values:
  assumes "(key, v) \<in> set (fold (\<lambda>r. AList.update (k r) (route_value r)) rs out)"
  shows "(key, v) \<in> set out \<or> (\<exists>r \<in> set rs. v = route_value r)"
  using assms
proof (induction rs arbitrary: out)
  case (Cons r rs)
  have upd: "(key, v) \<in> set (AList.update (k r) (route_value r) out) \<Longrightarrow> (key, v) \<in> set out \<or> v = route_value r"
    by (induction out) (auto split: if_splits)
  show ?case using Cons.IH [of "AList.update (k r) (route_value r) out"] Cons.prems upd by auto
qed simp

lemma desiredPortRoutes_values:
  assumes "(key, v) \<in> set (desiredPortRoutes cfg)"
  shows "\<exists>r \<in> set (PortRoutes cfg). v = route_value r"
proof -
  have "(key, v) \<in> set (fold (\<lambda>vip out. fold (\<lambda>r. AList.update (portRouteKey vip (pr_Proto r) (pr_Port r)) (route_value r)) rs out) vips out)
      \<Longrightarrow> (key, v) \<in> set out \<or> (\<exists>r \<in> set rs. v = route_value r)" for vips rs out
  proof (induction vips arbitrary: out)
    case (Cons vip vips)
    then show ?case using desired_values by fastforce
  qed simp
  with assms show ?thesis unfolding desiredPortRoutes_def by fastforce
qed

section \<open>The tables after a sync\<close>

text \<open>
  The documented behaviour of the eBPF calls, in terms of what the tables hold: a successful call
  changes the entry it names, iterating gives the keys, and deleting says when there was none.
\<close>

record 'k tables =
  config_at :: "'k \<Rightarrow> lb_config option"
  dest_at :: "'k \<Rightarrow> nat \<Rightarrow> u8 list option"
  route_at :: "'k \<Rightarrow> port_route_key \<Rightarrow> u8 list option"

definition same_settings :: "'k tables \<Rightarrow> 'k \<Rightarrow> 'k \<Rightarrow> bool" where
  "same_settings tb k k' \<longleftrightarrow> config_at tb k' = config_at tb k \<and> dest_at tb k' = dest_at tb k"

definition ebpf_ok :: "'k ebpf \<Rightarrow> 'k tables \<Rightarrow> bool" where
  "ebpf_ok eb tb \<longleftrightarrow>
     (\<forall>c k k'. set_config eb c k = Some k' \<longrightarrow>
        config_at tb k' = Some c \<and> dest_at tb k' = dest_at tb k \<and> route_at tb k' = route_at tb k) \<and>
     (\<forall>n bs k k'. set_dests eb n bs k = Some k' \<longrightarrow>
        config_at tb k' = config_at tb k \<and> route_at tb k' = route_at tb k \<and>
        (\<forall>i < n. dest_at tb k' i = Some (take 14 (drop (14 * i) bs)))) \<and>
     (\<forall>k ks. route_keys eb k = Some ks \<longrightarrow> set ks = dom (route_at tb k)) \<and>
     (\<forall>key b k k'. put_route eb key b k = Some k' \<longrightarrow>
        same_settings tb k k' \<and> route_at tb k' = (route_at tb k)(key \<mapsto> b)) \<and>
     (\<forall>key k k'. delete_route eb key k = Ok k' \<longrightarrow>
        same_settings tb k k' \<and> route_at tb k' = (route_at tb k)(key := None)) \<and>
     (\<forall>key k. delete_route eb key k = Err True \<longrightarrow> route_at tb k key = None)"

lemma ebpf_okD:
  assumes "ebpf_ok eb tb"
  shows
    "set_config eb c k = Some k' \<Longrightarrow>
       config_at tb k' = Some c \<and> dest_at tb k' = dest_at tb k \<and> route_at tb k' = route_at tb k"
    "set_dests eb n bs k = Some k' \<Longrightarrow>
       config_at tb k' = config_at tb k \<and> route_at tb k' = route_at tb k \<and>
       (\<forall>i < n. dest_at tb k' i = Some (take 14 (drop (14 * i) bs)))"
    "route_keys eb k = Some ks \<Longrightarrow> set ks = dom (route_at tb k)"
    "put_route eb key b k = Some k' \<Longrightarrow> same_settings tb k k' \<and> route_at tb k' = (route_at tb k)(key \<mapsto> b)"
    "delete_route eb key k = Ok k' \<Longrightarrow> same_settings tb k k' \<and> route_at tb k' = (route_at tb k)(key := None)"
    "delete_route eb key k = Err True \<Longrightarrow> route_at tb k key = None"
  using assms by (simp_all add: ebpf_ok_def)

lemma same_settings_refl [simp]: "same_settings tb k k"
  by (simp add: same_settings_def)

lemma same_settings_trans: "same_settings tb k l \<Longrightarrow> same_settings tb l m \<Longrightarrow> same_settings tb k m"
  by (simp add: same_settings_def)

lemma delete_loop_Ok:
  assumes ok: "ebpf_ok eb tb"
  shows "delete_loop eb stale k = (Ok (), k') \<Longrightarrow>
    same_settings tb k k' \<and> (\<forall>key. route_at tb k' key = (if key \<in> set stale then None else route_at tb k key))"
proof (induction stale arbitrary: k)
  case (Cons key stale)
  show ?case
  proof (cases "delete_route eb key k")
    case (Ok k1)
    then have "delete_loop eb stale k1 = (Ok (), k')" using Cons.prems by simp
    then show ?thesis using Cons.IH [of k1] ebpf_okD(5) [OF ok Ok] by (auto intro: same_settings_trans)
  next
    case (Err missing)
    then have m: "missing" "delete_loop eb stale k = (Ok (), k')" using Cons.prems by (auto split: if_splits)
    then have "route_at tb k key = None" using ebpf_okD(6) [OF ok, of key k] Err by simp
    then show ?thesis using Cons.IH [OF m(2)] by auto
  next
    case Panic
    then show ?thesis using Cons.prems by simp
  qed
qed simp

definition value_layout :: "dest_entry \<times> u32 \<Rightarrow> u8 list" where
  "value_layout v = entry_layout (fst v) @ le32_bytes (snd v)"

lemma route_value_bytes_Ok: "route_value_bytes v = Ok b \<Longrightarrow> b = value_layout v"
  by (auto simp: route_value_bytes_def value_layout_def Let_def dest!: entry_bytes_Ok split: if_splits)

lemma put_loop_Ok:
  assumes ok: "ebpf_ok eb tb"
  shows "put_loop eb want k = (Ok (), k') \<Longrightarrow> map_ok want \<Longrightarrow>
    same_settings tb k k' \<and>
    (\<forall>key. route_at tb k' key = (case map_of want key of Some v \<Rightarrow> Some (value_layout v) | None \<Rightarrow> route_at tb k key))"
proof (induction want arbitrary: k)
  case (Cons kv want)
  obtain key v where kv: "kv = (key, v)" by (cases kv)
  obtain b k1 where b: "route_value_bytes v = Ok b" "put_route eb key b k = Some k1" "put_loop eb want k1 = (Ok (), k')"
    using Cons.prems(1) by (auto simp: kv split: outcome.splits option.splits)
  have fresh: "map_of want key = None" "map_ok want"
    using Cons.prems(2) by (auto simp: kv map_ok_def map_of_eq_None_iff)
  note ih = Cons.IH [OF b(3) fresh(2)]
  have "route_at tb k' l = (case map_of (kv # want) l of Some v \<Rightarrow> Some (value_layout v) | None \<Rightarrow> route_at tb k l)" for l
    using ih ebpf_okD(4) [OF ok b(2)] route_value_bytes_Ok [OF b(1)] fresh(1)
    by (cases "l = key") (simp_all add: kv split: option.split)
  moreover have "same_settings tb k k'" by (rule same_settings_trans [of tb k k1]) (simp_all add: ih ebpf_okD(4) [OF ok b(2)])
  ultimately show ?case by blast
qed simp

definition routes_in_sync :: "'k tables \<Rightarrow> dynamic_config \<Rightarrow> 'k \<Rightarrow> bool" where
  "routes_in_sync tb cfg k \<longleftrightarrow>
     (\<forall>key. route_at tb k key = map_option value_layout (map_of (desiredPortRoutes cfg) key))"

lemma syncPortRoutes_Ok:
  assumes ok: "ebpf_ok eb tb" and res: "syncPortRoutes eb cfg k = (Ok (), k')"
  shows "same_settings tb k k' \<and> routes_in_sync tb cfg k'"
proof -
  let ?want = "desiredPortRoutes cfg"
  obtain ks k1 where k1: "route_keys eb k = Some ks"
    "delete_loop eb (filter (\<lambda>key. map_of ?want key = None) ks) k = (Ok (), k1)" "put_loop eb ?want k1 = (Ok (), k')"
    using res by (auto simp: syncPortRoutes_def Let_def split: option.splits prod.splits outcome.splits)
  note del = delete_loop_Ok [OF ok k1(2)] and put = put_loop_Ok [OF ok k1(3) desiredPortRoutes_ok]
  have "route_at tb k' key = map_option value_layout (map_of ?want key)" for key
  proof (cases "map_of ?want key")
    case None
    then have "route_at tb k' key = route_at tb k1 key" using put by simp
    also have "\<dots> = None" using del ebpf_okD(3) [OF ok k1(1)] None by auto
    finally show ?thesis using None by simp
  qed (use put in simp)
  then show ?thesis using del put same_settings_trans by (auto simp: routes_in_sync_def)
qed

definition in_sync :: "'k tables \<Rightarrow> dynamic_config \<Rightarrow> 'k \<Rightarrow> bool" where
  "in_sync tb cfg k \<longleftrightarrow>
     (\<exists>vip4. IPToUint32 (VIP cfg) = Ok vip4 \<and> config_at tb k = Some (config_of cfg vip4)) \<and>
     (\<forall>i < length (Dests cfg). dest_at tb k i = Some (entry_layout (Dests cfg ! i))) \<and>
     routes_in_sync tb cfg k"

lemma Sync_Ok:
  assumes ok: "ebpf_ok eb tb" and res: "Sync eb cfg k = (Ok (), k')"
  shows "in_sync tb cfg k'"
proof -
  obtain vip4 k1 bs k2 where k: "IPToUint32 (VIP cfg) = Ok vip4" "set_config eb (config_of cfg vip4) k = Some k1"
    "entries_bytes (Dests cfg) = Ok bs" "set_dests eb (length (Dests cfg)) bs k1 = Some k2"
    "syncPortRoutes eb cfg k2 = (Ok (), k')"
    using res by (auto simp: Sync_def split: outcome.splits option.splits)
  have "same_settings tb k2 k'" "routes_in_sync tb cfg k'" using syncPortRoutes_Ok [OF ok k(5)] by simp_all
  then show ?thesis
    using k(1) ebpf_okD(1) [OF ok k(2)] ebpf_okD(2) [OF ok k(4)] entries_bytes_Ok [OF k(3)]
    by (simp add: in_sync_def same_settings_def)
qed

section \<open>Capacity\<close>

text \<open>A hash map of the kernel with room for \<open>n\<close> entries: nothing but a full map makes a call fail.\<close>

definition ebpf_capacity :: "'k ebpf \<Rightarrow> 'k tables \<Rightarrow> nat \<Rightarrow> bool" where
  "ebpf_capacity eb tb n \<longleftrightarrow>
     (\<forall>k. route_keys eb k \<noteq> None) \<and>
     (\<forall>key b k. put_route eb key b k \<noteq> None \<longleftrightarrow> key \<in> dom (route_at tb k) \<or> card (dom (route_at tb k)) < n) \<and>
     (\<forall>key k. delete_route eb key k = Err True \<or> (\<exists>k'. delete_route eb key k = Ok k'))"

lemma delete_loop_total:
  assumes "ebpf_capacity eb tb n"
  shows "\<exists>k'. delete_loop eb stale k = (Ok (), k')"
proof (induction stale arbitrary: k)
  case (Cons key stale)
  have "delete_route eb key k = Err True \<or> (\<exists>k'. delete_route eb key k = Ok k')"
    using assms by (simp add: ebpf_capacity_def)
  then show ?case using Cons.IH by auto
qed simp

lemma put_loop_fits:
  assumes "ebpf_ok eb tb" "ebpf_capacity eb tb n" "finite W" "card W \<le> n"
  shows "dom (route_at tb k) \<union> fst ` set want \<subseteq> W \<Longrightarrow> \<forall>(key, v) \<in> set want. Is4 (IPAddr (fst v)) \<Longrightarrow>
    \<exists>k'. put_loop eb want k = (Ok (), k')"
proof (induction want arbitrary: k)
  case (Cons kv want)
  obtain key v where kv: "kv = (key, v)" by (cases kv)
  let ?d = "dom (route_at tb k)" and ?b = "entry_layout (fst v) @ le32_bytes (snd v)"
  have b: "route_value_bytes v = Ok ?b"
    using Cons.prems(2) by (simp add: kv route_value_bytes_v4)
  have "key \<in> ?d \<or> card ?d < n"
  proof (cases "key \<in> ?d")
    case False
    then have "?d \<subset> W" using Cons.prems(1) by (auto simp: kv)
    then have "card ?d < card W" using assms(3) by (rule psubset_card_mono [rotated])
    then show ?thesis using assms(4) by simp
  qed simp
  then obtain k1 where k1: "put_route eb key ?b k = Some k1"
    using assms(2) unfolding ebpf_capacity_def by blast
  have "route_at tb k1 = (route_at tb k)(key \<mapsto> ?b)" using ebpf_okD(4) [OF assms(1) k1] by simp
  then have "dom (route_at tb k1) \<union> fst ` set want \<subseteq> W" using Cons.prems(1) by (auto simp: kv)
  then show ?case using Cons.IH [of k1] Cons.prems(2) b k1 by (simp add: kv)
qed simp

lemma put_loop_bounded:
  assumes "ebpf_ok eb tb" "ebpf_capacity eb tb n"
  shows "put_loop eb want k = (Ok (), k') \<Longrightarrow> finite (dom (route_at tb k)) \<Longrightarrow> card (dom (route_at tb k)) \<le> n \<Longrightarrow>
    card (dom (route_at tb k')) \<le> n"
proof (induction want arbitrary: k)
  case (Cons kv want)
  obtain key v where kv: "kv = (key, v)" by (cases kv)
  obtain b k1 where b: "put_route eb key b k = Some k1" "put_loop eb want k1 = (Ok (), k')"
    using Cons.prems(1) by (auto simp: kv split: outcome.splits option.splits)
  let ?d = "dom (route_at tb k)"
  have room: "key \<in> ?d \<or> card ?d < n" using assms(2) b(1) unfolding ebpf_capacity_def by blast
  have d: "dom (route_at tb k1) = insert key ?d" using ebpf_okD(4) [OF assms(1) b(1)] by simp
  then have "card (dom (route_at tb k1)) \<le> n"
    using room Cons.prems(2,3) by (cases "key \<in> ?d") (simp_all add: insert_absorb)
  then show ?case using Cons.IH [OF b(2)] d Cons.prems(2) by simp
qed simp

definition wanted_keys :: "dynamic_config \<Rightarrow> port_route_key set" where
  "wanted_keys cfg = (\<lambda>(vip, p). \<lparr> key_Vip = vip, key_Port = swap16 (snd p), key_Proto = fst p \<rparr>) `
     ((As16 ` set (served_vips cfg)) \<times> (route_port ` set (PortRoutes cfg)))"

lemma dom_fold_update: "dom (map_of (fold (\<lambda>r. AList.update (f r) (v r)) rs out)) = f ` set rs \<union> dom (map_of out)"
  by (induction rs arbitrary: out) auto

lemma UN_image_product:
  assumes "\<And>v r. f v r = g (h v) (k r)"
  shows "(\<Union>v \<in> V. f v ` R) = (\<lambda>(x, y). g x y) ` ((h ` V) \<times> (k ` R))"
  unfolding assms by auto

lemma dom_desiredPortRoutes: "dom (map_of (desiredPortRoutes cfg)) = wanted_keys cfg"
proof -
  have "dom (map_of (fold (\<lambda>vip out. fold (\<lambda>r. AList.update (portRouteKey vip (pr_Proto r) (pr_Port r)) (route_value r)) rs out) vips out)) =
      (\<Union>vip \<in> set vips. (\<lambda>r. portRouteKey vip (pr_Proto r) (pr_Port r)) ` set rs) \<union> dom (map_of out)" for rs vips out
    by (induction vips arbitrary: out) (auto simp: dom_fold_update)
  moreover have "(\<Union>vip \<in> V. (\<lambda>r. portRouteKey vip (pr_Proto r) (pr_Port r)) ` R) =
      (\<lambda>(vip, p). \<lparr> key_Vip = vip, key_Port = swap16 (snd p), key_Proto = fst p \<rparr>) ` ((As16 ` V) \<times> (route_port ` R))" for V R
    by (rule UN_image_product) (simp add: portRouteKey_def route_port_def)
  ultimately show ?thesis by (simp add: desiredPortRoutes_def wanted_keys_def)
qed

lemma card_wanted_keys:
  assumes "distinct (map route_port (PortRoutes cfg))"
  shows "card (wanted_keys cfg) = card (As16 ` set (served_vips cfg)) * length (PortRoutes cfg)"
proof -
  have "card (wanted_keys cfg) = card ((As16 ` set (served_vips cfg)) \<times> (route_port ` set (PortRoutes cfg)))"
    unfolding wanted_keys_def by (rule card_image) (auto simp: inj_on_def swap16_inject prod_eq_iff)
  also have "\<dots> = card (As16 ` set (served_vips cfg)) * length (PortRoutes cfg)"
    using distinct_card [OF assms] by (simp add: card_cartesian_product)
  finally show ?thesis .
qed

text \<open>
  C39. Routes that passed validation are programmed exactly when they fit once for every address
  served: validation counts the routes, but with two virtual IPs the kernel's map of 256 entries holds only
  half as many.
\<close>

theorem syncPortRoutes_succeeds_iff:
  assumes "ebpf_ok eb tb" "ebpf_capacity eb tb PORT_ROUTE_MAP_SIZE"
    and "finite (dom (route_at tb k))" "card (dom (route_at tb k)) \<le> PORT_ROUTE_MAP_SIZE"
    and "ValidatePortRoutes (PortRoutes cfg) = Ok ()"
  shows "fst (syncPortRoutes eb cfg k) = Ok () \<longleftrightarrow>
    card (As16 ` set (served_vips cfg)) * length (PortRoutes cfg) \<le> PORT_ROUTE_MAP_SIZE"
proof -
  let ?want = "desiredPortRoutes cfg"
  have valid: "\<forall>r \<in> set (PortRoutes cfg). route_valid r" "distinct (map route_port (PortRoutes cfg))"
    using assms(5) by (simp_all add: ValidatePortRoutes_Ok)
  have "route_keys eb k \<noteq> None" using assms(2) by (simp add: ebpf_capacity_def)
  then obtain ks where ks: "route_keys eb k = Some ks" by blast
  let ?stale = "filter (\<lambda>key. map_of ?want key = None) ks"
  obtain k1 where k1: "delete_loop eb ?stale k = (Ok (), k1)" using delete_loop_total [OF assms(2)] by blast
  have sync: "syncPortRoutes eb cfg k = put_loop eb ?want k1" by (simp add: syncPortRoutes_def Let_def ks k1)
  have at1: "route_at tb k1 key = (if key \<in> set ?stale then None else route_at tb k key)" for key
    using delete_loop_Ok [OF assms(1) k1] by blast
  have stale: "set ?stale = dom (route_at tb k) - wanted_keys cfg"
    using ebpf_okD(3) [OF assms(1) ks] dom_desiredPortRoutes [of cfg] by auto
  have sub: "dom (route_at tb k1) \<subseteq> dom (route_at tb k)" "dom (route_at tb k1) \<subseteq> wanted_keys cfg"
    unfolding dom_def at1 stale by (auto split: if_splits)
  have fin: "finite (wanted_keys cfg)" by (simp add: wanted_keys_def)
  have vals: "\<forall>(key, v) \<in> set ?want. Is4 (IPAddr (fst v))"
    using desiredPortRoutes_values valid(1) by (fastforce simp: route_value_def route_valid_def)
  have keys: "fst ` set ?want = wanted_keys cfg" using dom_desiredPortRoutes by (simp add: dom_map_of_conv_image_fst)
  have "fst (put_loop eb ?want k1) = Ok () \<longleftrightarrow> card (wanted_keys cfg) \<le> PORT_ROUTE_MAP_SIZE"
  proof
    assume "card (wanted_keys cfg) \<le> PORT_ROUTE_MAP_SIZE"
    then show "fst (put_loop eb ?want k1) = Ok ()"
      using put_loop_fits [OF assms(1,2) fin _ _ vals, of k1] sub(2) keys by auto
  next
    assume "fst (put_loop eb ?want k1) = Ok ()"
    then obtain k' where k': "put_loop eb ?want k1 = (Ok (), k')" by (metis prod.collapse)
    have "routes_in_sync tb cfg k'" using syncPortRoutes_Ok [OF assms(1), of cfg k k'] sync k' by simp
    then have "dom (route_at tb k') = wanted_keys cfg"
      by (auto simp: routes_in_sync_def dom_desiredPortRoutes [symmetric] dom_def)
    moreover have "card (dom (route_at tb k1)) \<le> PORT_ROUTE_MAP_SIZE"
      using card_mono [OF assms(3) sub(1)] assms(4) by simp
    ultimately show "card (wanted_keys cfg) \<le> PORT_ROUTE_MAP_SIZE"
      using put_loop_bounded [OF assms(1,2) k' finite_subset [OF sub(1) assms(3)]] by simp
  qed
  then show ?thesis unfolding sync card_wanted_keys [OF valid(2)] .
qed

section \<open>The controller\<close>

text \<open>
  Everything that can happen to a controller, as long as no live change of the tables has failed.
\<close>

inductive ctl_reachable :: "'k ebpf \<Rightarrow> 'k controller \<Rightarrow> bool" for eb where
  created: "ctl_reachable eb (New_controller fc)"
| started: "ctl_reachable eb c \<Longrightarrow> maps pf = eb \<Longrightarrow> Start pf c = (res, c') \<Longrightarrow> ctl_reachable eb c'"
| stopped: "ctl_reachable eb c \<Longrightarrow> Stop pf c = (res, c') \<Longrightarrow> ctl_reachable eb c'"
| object_set: "ctl_reachable eb c \<Longrightarrow> maps pf = eb \<Longrightarrow> SetBalancerObject pf p q d c = (res, c') \<Longrightarrow> ctl_reachable eb c'"
| vip_set: "ctl_reachable eb c \<Longrightarrow> maps pf = eb \<Longrightarrow> UpdateVip pf text vip echo c = (Ok (), c') \<Longrightarrow> ctl_reachable eb c'"
| secret_set: "ctl_reachable eb c \<Longrightarrow> SyncSecret pf secret c = (res, c') \<Longrightarrow> ctl_reachable eb c'"
| bound: "ctl_reachable eb c \<Longrightarrow> BindInterface iface c = (res, c') \<Longrightarrow> ctl_reachable eb c'"
| mtu_set: "ctl_reachable eb c \<Longrightarrow> maps pf = eb \<Longrightarrow> UpdateMtu pf m c = (Ok (), c') \<Longrightarrow> ctl_reachable eb c'"
| id_set: "ctl_reachable eb c \<Longrightarrow> ctl_reachable eb (SetServerID i c)"
| dests_set: "ctl_reachable eb c \<Longrightarrow> maps pf = eb \<Longrightarrow> UpdateDestinations pf ds c = (Ok (), c') \<Longrightarrow> ctl_reachable eb c'"
| routes_set: "ctl_reachable eb c \<Longrightarrow> maps pf = eb \<Longrightarrow> SetPortRoutes pf rs c = (Ok (), c') \<Longrightarrow> ctl_reachable eb c'"

definition ctl_ok :: "'k tables \<Rightarrow> 'k controller \<Rightarrow> bool" where
  "ctl_ok tb c \<longleftrightarrow> (\<forall>k. drv c = Some k \<longrightarrow> in_sync tb (dyn c) k)"

lemma factory_ok:
  assumes "ebpf_ok (maps pf) tb" "factory pf fc cfg = Ok k"
  shows "in_sync tb cfg k"
proof -
  obtain k0 where "(case Sync (maps pf) cfg k0 of (Ok _, k') \<Rightarrow> Ok k' | (Err e, _) \<Rightarrow> Err e | (Panic, _) \<Rightarrow> Panic) = Ok k"
    using assms(2) by (auto simp: factory_def)
  then have "Sync (maps pf) cfg k0 = (Ok (), k)"
    by (cases "Sync (maps pf) cfg k0"; cases "fst (Sync (maps pf) cfg k0)") simp_all
  then show ?thesis by (rule Sync_Ok [OF assms(1)])
qed

lemma buildLocked_ok:
  assumes "ebpf_ok (maps pf) tb" "buildLocked pf c = (res, c')" "drv c = None"
  shows "ctl_ok tb c'"
  using assms(2,3) factory_ok [OF assms(1)]
  by (auto simp: buildLocked_def ctl_ok_def split: outcome.splits)

lemma live_ok:
  assumes "live f c = (Ok (), c')" "ctl_ok tb c"
    and "\<And>k cfg k'. drv c = Some k \<Longrightarrow> f k = (Ok (), cfg, k') \<Longrightarrow> in_sync tb cfg k'"
  shows "ctl_ok tb c'"
  using assms by (auto simp: live_def ctl_ok_def split: option.splits prod.splits)

lemma UpdateVip_ok:
  assumes "ebpf_ok (maps pf) tb" "UpdateVip pf text vip echo c = (Ok (), c')" "ctl_ok tb c"
  shows "ctl_ok tb c'"
proof (cases "drv c")
  case None
  then show ?thesis using assms(2) by (auto simp: UpdateVip_def ctl_ok_def Let_def)
next
  case (Some k)
  let ?cfg = "(dyn c) \<lparr> IcmpEcho := echo \<rparr>"
  obtain cfg k' where res: "drv_UpdateVIP (maps pf) vip echo ?cfg k = (Ok (), cfg, k')" "dyn c' = cfg" "drv c' = Some k'"
    using assms(2) Some by (auto simp: UpdateVip_def live_def Let_def split: prod.splits)
  then have "Sync (maps pf) cfg k = (Ok (), k')"
    by (auto simp: drv_UpdateVIP_def Let_def split: if_splits prod.splits)
  from Sync_Ok [OF assms(1) this] res(2,3) show ?thesis by (simp add: ctl_ok_def)
qed

lemma UpdateMtu_ok:
  assumes "ebpf_ok (maps pf) tb" "UpdateMtu pf m c = (Ok (), c')" "ctl_ok tb c"
  shows "ctl_ok tb c'"
proof (cases "drv c")
  case None
  then show ?thesis using assms(2) by (auto simp: UpdateMtu_def live_def ctl_ok_def Let_def)
next
  case (Some k)
  obtain k' where "Sync (maps pf) ((dyn c) \<lparr> MTU := m \<rparr>) k = (Ok (), k')" "dyn c' = (dyn c) \<lparr> MTU := m \<rparr>" "drv c' = Some k'"
    using assms(2) Some by (auto simp: UpdateMtu_def live_def Let_def split: prod.splits)
  with Sync_Ok [OF assms(1)] show ?thesis by (auto simp: ctl_ok_def)
qed

lemma UpdateDestinations_ok:
  assumes "ebpf_ok (maps pf) tb" "UpdateDestinations pf ds c = (Ok (), c')" "ctl_ok tb c"
  shows "ctl_ok tb c'"
proof (cases "drv c")
  case None
  then show ?thesis using assms(2) by (auto simp: UpdateDestinations_def ctl_ok_def)
next
  case (Some k)
  obtain cfg k' where res: "drv_UpdateDestinations (maps pf) ds (dyn c) k = (Ok (), cfg, k')" "dyn c' = cfg" "drv c' = Some k'"
    using assms(2) Some by (auto simp: UpdateDestinations_def live_def split: prod.splits)
  show ?thesis
  proof (cases "ds = []")
    case True
    then show ?thesis using res assms(3) Some by (auto simp: drv_UpdateDestinations_def ctl_ok_def)
  next
    case False
    then have "Sync (maps pf) cfg k = (Ok (), k')"
      using res(1) by (auto simp: drv_UpdateDestinations_def Let_def split: prod.splits)
    from Sync_Ok [OF assms(1) this] res(2,3) show ?thesis by (simp add: ctl_ok_def)
  qed
qed

lemma in_sync_routes:
  assumes "in_sync tb cfg k" "same_settings tb k k'" "routes_in_sync tb (cfg \<lparr> PortRoutes := rs \<rparr>) k'"
  shows "in_sync tb (cfg \<lparr> PortRoutes := rs \<rparr>) k'"
  using assms by (simp add: in_sync_def same_settings_def config_of_def configFlags_def)

lemma SetPortRoutes_Ok:
  assumes "SetPortRoutes pf rs c = (Ok (), c')"
  shows "\<exists>out. convert_routes rs = Ok out \<and> ValidatePortRoutes out = Ok () \<and> dyn c' = (dyn c) \<lparr> PortRoutes := out \<rparr> \<and>
    (case drv c of
       None \<Rightarrow> drv c' = None
     | Some k \<Rightarrow> \<exists>k'. syncPortRoutes (maps pf) ((dyn c) \<lparr> PortRoutes := out \<rparr>) k = (Ok (), k') \<and> drv c' = Some k')"
proof -
  obtain out where out: "convert_routes rs = Ok out" "ValidatePortRoutes out = Ok ()"
    using assms by (auto simp: SetPortRoutes_def split: outcome.splits)
  then show ?thesis
    using assms
    by (cases "drv c") (auto simp: SetPortRoutes_def live_def UpdatePortRoutes_def Let_def split: prod.splits)
qed

lemma SetPortRoutes_ok:
  assumes "ebpf_ok (maps pf) tb" "SetPortRoutes pf rs c = (Ok (), c')" "ctl_ok tb c"
  shows "ctl_ok tb c'"
proof (cases "drv c")
  case None
  then show ?thesis using SetPortRoutes_Ok [OF assms(2)] by (auto simp: ctl_ok_def)
next
  case (Some k)
  then obtain out k' where res: "dyn c' = (dyn c) \<lparr> PortRoutes := out \<rparr>" "drv c' = Some k'"
    "syncPortRoutes (maps pf) ((dyn c) \<lparr> PortRoutes := out \<rparr>) k = (Ok (), k')"
    using SetPortRoutes_Ok [OF assms(2)] by auto
  note sync = syncPortRoutes_Ok [OF assms(1) res(3)]
  have "in_sync tb (dyn c) k" using assms(3) Some by (simp add: ctl_ok_def)
  then have "in_sync tb ((dyn c) \<lparr> PortRoutes := out \<rparr>) k'" by (rule in_sync_routes) (use sync in auto)
  then show ?thesis using res by (simp add: ctl_ok_def)
qed

lemma in_sync_unread:
  "in_sync tb (cfg \<lparr> SharedKey := secret \<rparr>) k = in_sync tb cfg k"
  by (simp add: in_sync_def config_of_def configFlags_def routes_in_sync_def desiredPortRoutes_def served_vips_def)

lemma reachable_ctl_ok:
  assumes "ebpf_ok eb tb"
  shows "ctl_reachable eb c \<Longrightarrow> ctl_ok tb c"
proof (induction rule: ctl_reachable.induct)
  case (created fc)
  then show ?case by (simp add: ctl_ok_def New_controller_def)
next
  case (started c pf res c')
  then show ?case
    using buildLocked_ok [of pf tb c res c'] assms by (cases "drv c") (auto simp: Start_def)
next
  case (stopped c pf res c')
  then show ?case by (auto simp: Stop_def ctl_ok_def split: option.splits)
next
  case (object_set c pf p q d res c')
  show ?case
  proof (cases "drv c = None \<or> drv c' = drv c \<and> dyn c' = dyn c")
    case True
    then show ?thesis using object_set by (auto simp: SetBalancerObject_def ctl_ok_def Let_def split: if_splits)
  next
    case False
    then have "buildLocked pf (c \<lparr> fix_config := \<lparr> BinPath = p, CryptoBin = q, EBPFPinDir = d \<rparr>, drv := None, loaded := no_identity \<rparr>) = (res, c')"
      using object_set.hyps by (auto simp: SetBalancerObject_def Let_def split: if_splits)
    then show ?thesis using buildLocked_ok [of pf tb _ res c'] object_set.hyps assms by simp
  qed
next
  case (vip_set c pf tx vip echo c')
  then show ?case using UpdateVip_ok [of pf tb] assms by blast
next
  case (secret_set c pf secret res c')
  then show ?case by (auto simp: SyncSecret_def ctl_ok_def Let_def in_sync_unread split: if_splits)
next
  case (bound c iface res c')
  then show ?case by (auto simp: BindInterface_def ctl_ok_def split: if_splits)
next
  case (mtu_set c pf m c')
  then show ?case using UpdateMtu_ok [of pf tb] assms by blast
next
  case (id_set c i)
  then show ?case by (simp add: SetServerID_def ctl_ok_def)
next
  case (dests_set c pf ds c')
  then show ?case using UpdateDestinations_ok [of pf tb] assms by blast
next
  case (routes_set c pf rs c')
  then show ?case using SetPortRoutes_ok [of pf tb] assms by blast
qed

text \<open>
  C35. While no live change has failed, the tables in the kernel are the ones the configuration
  denotes, whether a setting was staged before the start or applied live: the addresses, MTU, flags and the
  number of backends, every destination, and exactly the port routes.
\<close>

theorem kernel_matches_configuration:
  assumes "ebpf_ok eb tb" "ctl_reachable eb c" "drv c = Some k"
  shows "in_sync tb (dyn c) k"
  using reachable_ctl_ok [OF assms(1,2)] assms(3) by (simp add: ctl_ok_def)

section \<open>A concrete kernel\<close>

type_synonym example_kernel = "lb_config option \<times> (nat \<Rightarrow> u8 list option) \<times> (port_route_key \<times> u8 list) list"

definition example_ebpf :: "example_kernel ebpf" where
  "example_ebpf =
     \<lparr> set_config = \<lambda>c (_, ds, rs). Some (Some c, ds, rs),
       set_dests = \<lambda>n bs (c, ds, rs). Some (c, \<lambda>i. if i < n then Some (take 14 (drop (14 * i) bs)) else ds i, rs),
       route_keys = \<lambda>(_, _, rs). Some (map fst rs),
       put_route = \<lambda>key b (c, ds, rs).
         if key \<in> set (map fst rs) \<or> length (remdups (map fst rs)) < 256 then Some (c, ds, AList.update key b rs) else None,
       delete_route = \<lambda>key (c, ds, rs).
         if key \<in> set (map fst rs) then Ok (c, ds, AList.delete key rs) else Err True \<rparr>"

definition example_tables :: "example_kernel tables" where
  "example_tables =
     \<lparr> config_at = \<lambda>(c, _, _). c, dest_at = \<lambda>(_, ds, _). ds, route_at = \<lambda>(_, _, rs). map_of rs \<rparr>"

lemmas example_kernel_defs = example_ebpf_def example_tables_def

lemma example_ebpf_ok: "ebpf_ok example_ebpf example_tables"
  by (auto simp: ebpf_ok_def example_kernel_defs same_settings_def dom_map_of_conv_image_fst map_of_eq_None_iff
      split: if_splits)

lemma example_ebpf_capacity: "ebpf_capacity example_ebpf example_tables PORT_ROUTE_MAP_SIZE"
proof -
  have "card (dom (map_of rs)) = length (remdups (map fst rs))" for rs :: "(port_route_key \<times> u8 list) list"
    by (simp add: dom_map_of_conv_image_fst length_remdups_card_conv)
  then show ?thesis
    by (auto simp: ebpf_capacity_def example_kernel_defs PORT_ROUTE_MAP_SIZE_def dom_map_of_conv_image_fst)
qed

definition example_node :: "example_kernel node_platform" where
  "example_node =
     \<lparr> maps = example_ebpf, content_sum = (\<lambda>_. None), setup_dev = (\<lambda>_ _. Ok (None, (\<lambda>_. None), [])),
       init_crypto = (\<lambda>_ _. None), close_error = (\<lambda>_. None) \<rparr>"

definition example_dest :: dest_entry where
  "example_dest = \<lparr> ServerID = 0, HardwareAddr = [2, 0, 0, 0, 0, 7], IPAddr = IPv4 10 0 0 7 \<rparr>"

definition example_start :: "example_kernel controller" where
  "example_start =
     snd (Start example_node (snd (UpdateVip example_node show4 (IPv4 10 0 0 1) True
       (New_controller \<lparr> BinPath = '''', CryptoBin = '''', EBPFPinDir = '''' \<rparr>))))"

definition example_running :: "example_kernel controller" where
  "example_running = snd (SetPortRoutes example_node [(''tcp'', 80, example_dest)] example_start)"

lemma example_results:
  "fst (UpdateVip example_node show4 (IPv4 10 0 0 1) True (New_controller fc)) = Ok ()"
  "fst (SetPortRoutes example_node [(''tcp'', 80, example_dest)] example_start) = Ok ()"
  by (simp add: UpdateVip_def Let_def New_controller_def) code_simp

lemma example_ctl_reachable: "ctl_reachable example_ebpf example_running"
proof -
  have pf: "maps example_node = example_ebpf" by (simp add: example_node_def)
  have pair: "f = (Ok (), snd f)" if "fst f = Ok ()" for f :: "(drv_error, unit) outcome \<times> example_kernel controller"
    using that by (cases f) simp
  show ?thesis
    unfolding example_running_def example_start_def
    by (rule ctl_reachable.routes_set [OF _ pf pair], rule ctl_reachable.started [OF _ pf prod.collapse [symmetric]],
        rule ctl_reachable.vip_set [OF _ pf pair], rule ctl_reachable.created)
      (use example_results in \<open>simp_all add: example_start_def\<close>)
qed

theorem kernel_matches_configuration_witness:
  "\<exists>k. drv example_running = Some k \<and> in_sync example_tables (dyn example_running) k \<and>
     route_at example_tables k (portRouteKey (IPv4 10 0 0 1) IPPROTO_TCP 80) \<noteq> None"
proof -
  have "drv example_running \<noteq> None" by code_simp
  then obtain k where k: "drv example_running = Some k" by blast
  have "in_sync example_tables (dyn example_running) k"
    by (rule kernel_matches_configuration [OF example_ebpf_ok example_ctl_reachable k])
  moreover have "route_at example_tables (the (drv example_running)) (portRouteKey (IPv4 10 0 0 1) IPPROTO_TCP 80) \<noteq> None"
    by code_simp
  ultimately show ?thesis using k by simp
qed

definition example_config :: dynamic_config where
  "example_config =
     \<lparr> InterfaceName = '''', VIP = IPv4 10 0 0 1, VIPv6 = NoAddr, Dests = [], SharedKey = [], MTU = 1500,
       RoutingRandom = [], IcmpEcho = False,
       PortRoutes = [\<lparr> pr_Proto = IPPROTO_TCP, pr_Port = 80, pr_Dest = example_dest \<rparr>] \<rparr>"

theorem syncPortRoutes_succeeds_iff_witness:
  "fst (syncPortRoutes example_ebpf example_config (None, (\<lambda>_. None), [])) = Ok ()"
proof -
  have "ValidatePortRoutes (PortRoutes example_config) = Ok ()" by code_simp
  moreover have "card (As16 ` set (served_vips example_config)) = 1"
    by (simp add: served_vips_def example_config_def IsValid_def IsUnspecified_def)
  ultimately show ?thesis
    using syncPortRoutes_succeeds_iff [OF example_ebpf_ok example_ebpf_capacity, of "(None, (\<lambda>_. None), [])" example_config]
    by (simp add: example_tables_def PORT_ROUTE_MAP_SIZE_def) (simp add: example_config_def)
qed

text \<open>
  With no destination staged the number of backends written to the kernel wraps around.
\<close>

lemma NumDests_wraps: "Dests cfg = [] \<Longrightarrow> NumDests (config_of cfg vip4) = 0xFFFFFFFF"
  by (simp add: config_of_def)

end
