(* ===== verification/L4_Reconcile.thy ===== *)
theory L4_Reconcile
  imports L4_Routes_Laws L4lb_Driver_Laws
begin

text \<open>
  The reconcile loop that pushes every load balancer its full set of port routes
  (\<open>reconcile/l4route.go\<close>), over a network that may lose a request or its reply, while nodes start anew, connect and
  leave.
\<close>

section \<open>A pass over the targets\<close>

text \<open>
  What the reconcile loops share: a pass visits the targets one after the other, a visit concerns
  one target only, keeps what the loop remembers of it true, and leaves it good: up to date, or its failure recorded.
\<close>

locale push_loop =
  fixes visit :: "'n \<Rightarrow> 's \<Rightarrow> 's"
    and remembered :: "'n \<Rightarrow> 's \<Rightarrow> bool"
    and good :: "'n \<Rightarrow> 's \<Rightarrow> bool"
  assumes visit_remembered: "remembered n s \<Longrightarrow> remembered n (visit n s)"
    and visit_good: "remembered n s \<Longrightarrow> good n (visit n s)"
    and other_remembered: "n \<noteq> n' \<Longrightarrow> remembered n s \<Longrightarrow> remembered n (visit n' s)"
    and other_good: "n \<noteq> n' \<Longrightarrow> good n s \<Longrightarrow> good n (visit n' s)"
begin

lemma pass_remembered: "remembered n s \<Longrightarrow> remembered n (fold visit ns s)"
proof (induction ns arbitrary: s)
  case (Cons m ns)
  then have "remembered n (visit m s)" by (cases "n = m") (simp_all add: visit_remembered other_remembered)
  then show ?case using Cons.IH by simp
qed simp

lemma pass_keeps_good: "remembered n s \<Longrightarrow> good n s \<Longrightarrow> good n (fold visit ns s)"
proof (induction ns arbitrary: s)
  case (Cons m ns)
  then have "remembered n (visit m s)" "good n (visit m s)"
    by (cases "n = m"; simp add: visit_remembered other_remembered visit_good other_good)+
  then show ?case using Cons.IH by simp
qed simp

lemma pass_good: "remembered n s \<Longrightarrow> n \<in> set ns \<Longrightarrow> good n (fold visit ns s)"
proof (induction ns arbitrary: s)
  case (Cons m ns)
  then have r: "remembered n (visit m s)" by (cases "n = m") (simp_all add: visit_remembered other_remembered)
  show ?case
  proof (cases "n = m")
    case True
    then have "good n (visit m s)" using Cons.prems(1) visit_good by simp
    then show ?thesis using pass_keeps_good [OF r] by simp
  next
    case False
    then show ?thesis using Cons r by simp
  qed
qed simp

end

section \<open>The request\<close>

definition route_msg :: "target \<Rightarrow> port_route_msg" where
  "route_msg t =
     \<lparr> mProto = tProto t, mPort = ucast (tPort t),
       mDest = Some \<lparr> dServerId = 0, dHardwareAddr = HardwareAddr (tDest t), dIpAddr = show4 (IPAddr (tDest t)) \<rparr> \<rparr>"

text \<open>Routes that do not resolve are left out, and named in a log line.\<close>

definition routes_request :: "surroundings \<Rightarrow> l4_route list \<Rightarrow> port_route_msg list" where
  "routes_request env items =
     concat (map (\<lambda>it. case Resolve_route env it of Ok t \<Rightarrow> [route_msg t] | _ \<Rightarrow> []) (sort_key Name items))"

text \<open>A request without a destination would be dereferenced.\<close>

fun fingerprint :: "port_route_msg list \<Rightarrow> (unit, string) outcome" where
  "fingerprint [] = Ok ''''"
| "fingerprint (r # rs) =
     (case mDest r of
        None \<Rightarrow> Panic
      | Some d \<Rightarrow>
          bind_outcome (fingerprint rs) (\<lambda>s.
            Ok (mProto r @ '':'' @ decimal (unat (mPort r)) @ ''>'' @ dIpAddr d @ ''/'' @ hex_bytes (dHardwareAddr d) @ '';'' @ s)))"

section \<open>The loop\<close>

text \<open>
  A call reaches the node or not, and its answer comes back or not. \<open>nodes\<close> are the load balancers,
  by common name.
\<close>

datatype delivery = Delivered | RequestLost | ReplyLost

record 'k network =
  delivered :: "string \<Rightarrow> delivery"
  error_text :: "drv_error \<Rightarrow> string"
  node_of :: "string \<Rightarrow> 'k node_platform"
  parse_at :: "string \<Rightarrow> string \<Rightarrow> ip_addr option"

definition call_SetPortRoutes ::
    "'k network \<Rightarrow> string \<Rightarrow> port_route_msg list \<Rightarrow> (string \<Rightarrow> 'k controller) \<Rightarrow> string option \<times> (string \<Rightarrow> 'k controller)" where
  "call_SetPortRoutes net cn req w =
     (let (res, c) = rpc_SetPortRoutes (node_of net cn) (parse_at net cn) req (w cn) in
      case delivered net cn of
        RequestLost \<Rightarrow> (Some ''connection lost'', w)
      | ReplyLost \<Rightarrow> (Some ''connection lost'', w(cn := c))
      | Delivered \<Rightarrow>
          (case res of Ok _ \<Rightarrow> None | Err e \<Rightarrow> Some (error_text net e) | Panic \<Rightarrow> Some ''connection lost'', w(cn := c)))"

record 'k l4_loop =
  pushed :: "(string \<times> string) list"
  push_status :: status
  l4lbs :: "string \<Rightarrow> 'k controller"

text \<open>
  A node whose last successful push had the fingerprint is skipped; else the call is made, and then its
  outcome is recorded.
\<close>

definition push_call :: "'k network \<Rightarrow> port_route_msg list \<Rightarrow> string \<Rightarrow> 'k l4_loop \<Rightarrow> string option \<times> 'k l4_loop" where
  "push_call net req cn s =
     (let (err, w) = call_SetPortRoutes net cn req (l4lbs s) in (err, s \<lparr> l4lbs := w \<rparr>))"

definition push_record :: "int \<Rightarrow> string \<Rightarrow> string \<Rightarrow> string option \<Rightarrow> 'k l4_loop \<Rightarrow> 'k l4_loop" where
  "push_record now fp cn err s =
     s \<lparr> pushed := (case err of None \<Rightarrow> AList.update cn fp (pushed s) | Some _ \<Rightarrow> AList.delete cn (pushed s)),
         push_status := Record ''l4_route'' cn now err (push_status s) \<rparr>"

definition push_routes :: "'k network \<Rightarrow> int \<Rightarrow> port_route_msg list \<Rightarrow> string \<Rightarrow> string \<Rightarrow> 'k l4_loop \<Rightarrow> 'k l4_loop" where
  "push_routes net now req fp cn s =
     (if map_of (pushed s) cn = Some fp then s
      else let (err, s') = push_call net req cn s in push_record now fp cn err s')"

definition L4Route_reconcile ::
    "'k network \<Rightarrow> int \<Rightarrow> surroundings \<Rightarrow> l4_route list \<Rightarrow> 'k l4_loop \<Rightarrow> 'k l4_loop" where
  "L4Route_reconcile net now env items s =
     (let req = routes_request env items in
      case fingerprint req of
        Ok fp \<Rightarrow> fold (push_routes net now req fp) (map PeerCommonName (List_nodes ''l4lb'' (inventory_of env))) s
      | _ \<Rightarrow> s)"

text \<open>What the callback on a connection forgets; the pass it then runs is a pass of its own.\<close>

definition L4Route_onConnect :: "string \<Rightarrow> string \<Rightarrow> 'k l4_loop \<Rightarrow> 'k l4_loop" where
  "L4Route_onConnect dpType cn s =
     (if dpType = ''l4lb'' then s \<lparr> pushed := AList.delete cn (pushed s) \<rparr> else s)"

section \<open>Requests and their fingerprints\<close>

text \<open>What the loop pushes: routes whose address is IPv4 and whose protocol and port are valid.\<close>

definition msg_ok :: "port_route_msg \<Rightarrow> bool" where
  "msg_ok r \<longleftrightarrow>
     (mProto r = ''tcp'' \<or> mProto r = ''udp'') \<and> mPort r \<noteq> 0 \<and> mPort r \<le> 65535 \<and>
     (\<exists>ip hw. Is4 ip \<and> length hw = 6 \<and> mDest r = Some \<lparr> dServerId = 0, dHardwareAddr = hw, dIpAddr = show4 ip \<rparr>)"

lemma Resolve_route_Ok:
  assumes "Resolve_route env it = Ok t"
  shows "ParsePort (Port it) = Ok (tProto t, tPort t)" "tName t = Name it" "Is4 (IPAddr (tDest t))"
    "length (HardwareAddr (tDest t)) = 6" "ServerID (tDest t) = 0"
proof -
  have me: "map_error f m = Ok x \<longleftrightarrow> m = Ok x" for f and m :: "('a, 'b) outcome" and x
    by (cases m) simp_all
  show "ParsePort (Port it) = Ok (tProto t, tPort t)" "tName t = Name it"
    using assms by (auto simp: Resolve_route_def)
  have "\<exists>batch. NodeAddr (parse_v6 env) batch = Ok (tDest t)"
    using assms by (auto simp: Resolve_route_def me)
  then show "Is4 (IPAddr (tDest t))" "length (HardwareAddr (tDest t)) = 6" "ServerID (tDest t) = 0"
    using NodeAddr_Ok by blast+
qed

lemma route_msg_ok:
  assumes "Resolve_route env it = Ok t"
  shows "msg_ok (route_msg t)"
proof -
  have "unat (tPort t) < 2 ^ LENGTH(16)" by (rule unsigned_less)
  then have u: "unat (ucast (tPort t) :: u32) = unat (tPort t)" "unat (tPort t) \<le> 65535"
    by (simp_all add: unsigned_ucast_eq take_bit_nat_eq_self)
  then have "(ucast (tPort t) :: u32) \<le> 65535" by (simp add: word_le_nat_alt)
  moreover have "(ucast (tPort t) :: u32) \<noteq> 0"
    using ParsePort_Ok(2) [OF Resolve_route_Ok(1) [OF assms]] u(1) by (simp only: word_unat_eq_iff unsigned_0) simp
  ultimately show ?thesis
    using ParsePort_Ok(1) [OF Resolve_route_Ok(1) [OF assms]] Resolve_route_Ok(3,4) [OF assms]
    by (auto simp: msg_ok_def route_msg_def)
qed

lemma routes_request_ok: "r \<in> set (routes_request env items) \<Longrightarrow> msg_ok r"
  by (auto simp: routes_request_def route_msg_ok split: outcome.splits)

lemma fingerprint_Ok: "\<forall>r \<in> set req. msg_ok r \<Longrightarrow> \<exists>fp. fingerprint req = Ok fp"
  by (induction req) (auto simp: msg_ok_def)

lemma split_at_separator:
  assumes "x @ c # y = x' @ c # y'" "c \<notin> set x" "c \<notin> set x'"
  shows "x = x' \<and> y = y'"
proof -
  have "Cut c (x @ c # y) = Cut c (x' @ c # y')" using assms(1) by simp
  with assms(2,3) show ?thesis by simp
qed

lemma hex_bytes_no_semicolon: "CHR '';'' \<notin> set (hex_bytes bs)"
proof -
  have a: "hex_char d \<noteq> CHR '';''" if "d < 16" for d
    using hex_digit_char [OF that] by (auto simp: hex_digit_def Let_def)
  have b: "unat b div 16 < 16" "unat b mod 16 < 16" for b :: u8
    using unat_u8 [of b] by simp_all
  have "CHR '';'' \<notin> set (hex2 b)" for b using a [OF b(1) [of b]] a [OF b(2) [of b]] by (auto simp: hex2_def)
  then show ?thesis by (auto simp: hex_bytes_def)
qed

text \<open>The fingerprint tells any two requests apart.\<close>

lemma fingerprint_inject:
  "\<forall>r \<in> set req. msg_ok r \<Longrightarrow> \<forall>r \<in> set req'. msg_ok r \<Longrightarrow> fingerprint req = Ok fp \<Longrightarrow> fingerprint req' = Ok fp \<Longrightarrow> req = req'"
proof (induction req arbitrary: req' fp)
  case Nil
  then show ?case by (cases req') (auto split: option.splits)
next
  case (Cons r req)
  note prems = Cons.prems and ih = Cons.IH
  show ?case
  proof (cases req')
    case Nil
    then show ?thesis using prems(3,4) by (auto split: option.splits)
  next
    case (Cons q req1)
    obtain ip hw where r: "Is4 ip" "length hw = 6" "mDest r = Some \<lparr> dServerId = 0, dHardwareAddr = hw, dIpAddr = show4 ip \<rparr>"
      "mProto r = ''tcp'' \<or> mProto r = ''udp''"
      using prems(1) by (auto simp: msg_ok_def)
    obtain ip' hw' where q: "Is4 ip'" "length hw' = 6"
      "mDest q = Some \<lparr> dServerId = 0, dHardwareAddr = hw', dIpAddr = show4 ip' \<rparr>"
      "mProto q = ''tcp'' \<or> mProto q = ''udp''"
      using prems(2) by (auto simp: Cons msg_ok_def)
    obtain s s' where s: "fingerprint req = Ok s" "fingerprint req1 = Ok s'"
      and fp: "fp = mProto r @ CHR '':'' # decimal (unat (mPort r)) @ CHR ''>'' # show4 ip @ CHR ''/'' # hex_bytes hw @ CHR '';'' # s"
      "fp = mProto q @ CHR '':'' # decimal (unat (mPort q)) @ CHR ''>'' # show4 ip' @ CHR ''/'' # hex_bytes hw' @ CHR '';'' # s'"
      using prems(3,4) by (auto simp: Cons r(3) q(3))
    have colon: "CHR '':'' \<notin> set (mProto r)" "CHR '':'' \<notin> set (mProto q)" using r(4) q(4) by auto
    have other: "CHR ''>'' \<notin> set (decimal n)" "CHR ''/'' \<notin> set (show4 ip)" "CHR ''/'' \<notin> set (show4 ip')" for n
      using decimal_avoids show4_avoids dot_not_digit by auto
    from split_at_separator [OF trans [OF fp(1) [symmetric] fp(2)] colon]
    have 1: "mProto r = mProto q" "decimal (unat (mPort r)) @ CHR ''>'' # show4 ip @ CHR ''/'' # hex_bytes hw @ CHR '';'' # s =
      decimal (unat (mPort q)) @ CHR ''>'' # show4 ip' @ CHR ''/'' # hex_bytes hw' @ CHR '';'' # s'" by simp_all
    from split_at_separator [OF 1(2) other(1) other(1)]
    have 2: "mPort r = mPort q" "show4 ip @ CHR ''/'' # hex_bytes hw @ CHR '';'' # s = show4 ip' @ CHR ''/'' # hex_bytes hw' @ CHR '';'' # s'"
      by (simp_all add: decimal_inject word_unat_eq_iff [symmetric])
    from split_at_separator [OF 2(2) other(2,3)]
    have 3: "ip = ip'" "hex_bytes hw @ CHR '';'' # s = hex_bytes hw' @ CHR '';'' # s'"
      using show4_inject [OF r(1) q(1)] by simp_all
    from split_at_separator [OF 3(2) hex_bytes_no_semicolon hex_bytes_no_semicolon]
    have 4: "hw = hw'" "s = s'" by (simp_all add: hex_bytes_inject)
    have "r = q" using 1(1) 2(1) 3(1) 4(1) r(3) q(3) by simp
    moreover have "req = req1" by (rule ih [OF _ _ s(1)]) (use prems(1,2) s(2) 4(2) Cons in auto)
    ultimately show ?thesis using Cons by simp
  qed
qed

section \<open>What a load balancer makes of a request\<close>

definition proto_number :: "string \<Rightarrow> u8" where
  "proto_number proto = (if proto = ''tcp'' then IPPROTO_TCP else IPPROTO_UDP)"

definition route_of_msg :: "port_route_msg \<Rightarrow> port_route" where
  "route_of_msg r =
     \<lparr> pr_Proto = proto_number (mProto r), pr_Port = ucast (mPort r),
       pr_Dest = (case mDest r of
          None \<Rightarrow> \<lparr> ServerID = 0, HardwareAddr = [], IPAddr = NoAddr \<rparr>
        | Some d \<Rightarrow> \<lparr> ServerID = 0, HardwareAddr = dHardwareAddr d,
            IPAddr = (case parse4 (dIpAddr d) of Some ip \<Rightarrow> ip | None \<Rightarrow> NoAddr) \<rparr>) \<rparr>"

definition route_of_target :: "target \<Rightarrow> port_route" where
  "route_of_target t = \<lparr> pr_Proto = proto_number (tProto t), pr_Port = tPort t, pr_Dest = tDest t \<rparr>"

lemma read_convert:
  assumes "\<forall>r \<in> set req. msg_ok r"
  shows "\<exists>rs. read_routes p6 req = Ok rs \<and> convert_routes rs = Ok (map route_of_msg req)"
  using assms
proof (induction req)
  case (Cons r req)
  then obtain rs where rs: "read_routes p6 req = Ok rs" "convert_routes rs = Ok (map route_of_msg req)" by auto
  obtain ip hw where r: "Is4 ip" "mDest r = Some \<lparr> dServerId = 0, dHardwareAddr = hw, dIpAddr = show4 ip \<rparr>"
    "mProto r = ''tcp'' \<or> mProto r = ''udp''" "mPort r \<noteq> 0" "mPort r \<le> 65535"
    using Cons.prems by (auto simp: msg_ok_def)
  have "read_routes p6 (r # req) = Ok ((mProto r, ucast (mPort r), \<lparr> ServerID = 0, HardwareAddr = hw, IPAddr = ip \<rparr>) # rs)"
    using r by (simp add: rs(1) ParseAddr_show4 not_less)
  moreover have "convert_routes ((mProto r, ucast (mPort r), \<lparr> ServerID = 0, HardwareAddr = hw, IPAddr = ip \<rparr>) # rs) =
      Ok (map route_of_msg (r # req))"
    using r(3) by (auto simp: rs(2) route_of_msg_def proto_number_def r(2) parse4_show4 [OF r(1)])
  ultimately show ?case by blast
qed simp

lemma route_of_msg_target:
  assumes "Resolve_route env it = Ok t"
  shows "route_of_msg (route_msg t) = route_of_target t"
proof -
  note t = Resolve_route_Ok [OF assms]
  have "ucast (ucast (tPort t) :: u32) = tPort t" by (simp add: ucast_up_ucast_id is_up)
  moreover have "tDest t = \<lparr> ServerID = 0, HardwareAddr = HardwareAddr (tDest t), IPAddr = IPAddr (tDest t) \<rparr>"
    using t(5) by (cases "tDest t") simp
  ultimately show ?thesis
    using parse4_show4 [OF t(3)] by (simp add: route_of_msg_def route_msg_def route_of_target_def)
qed

lemma proto_number_inject:
  "proto \<in> {''tcp'', ''udp''} \<Longrightarrow> proto' \<in> {''tcp'', ''udp''} \<Longrightarrow> proto_number proto = proto_number proto' \<longleftrightarrow> proto = proto'"
  by (auto simp: proto_number_def IPPROTO_TCP_def IPPROTO_UDP_def)

lemma route_of_target_valid:
  assumes "Resolve_route env it = Ok t"
  shows "route_valid (route_of_target t)"
  using Resolve_route_Ok [OF assms] ParsePort_Ok
  by (auto simp: route_valid_def route_of_target_def proto_number_def)

definition resolved :: "surroundings \<Rightarrow> l4_route list \<Rightarrow> target list" where
  "resolved env items = concat (map (\<lambda>it. case Resolve_route env it of Ok t \<Rightarrow> [t] | _ \<Rightarrow> []) items)"

lemma set_resolved: "set (resolved env items) = {t. \<exists>it \<in> set items. Resolve_route env it = Ok t}"
  by (auto simp: resolved_def split: outcome.splits)

lemma routes_request_resolved:
  "map route_of_msg (routes_request env items) = map route_of_target (resolved env (sort_key Name items))"
proof -
  have "map route_of_msg (concat (map (\<lambda>it. case Resolve_route env it of Ok t \<Rightarrow> [route_msg t] | _ \<Rightarrow> []) xs)) =
      map route_of_target (concat (map (\<lambda>it. case Resolve_route env it of Ok t \<Rightarrow> [t] | _ \<Rightarrow> []) xs))" for xs
    by (induction xs) (auto simp: route_of_msg_target split: outcome.split)
  then show ?thesis by (simp add: routes_request_def resolved_def)
qed

lemma resolved_ports_distinct:
  assumes "distinct (map (\<lambda>it. ParsePort (Port it)) items)"
  shows "distinct (map route_port (map route_of_target (resolved env items)))"
  using assms
proof (induction items)
  case (Cons it items)
  show ?case
  proof (cases "Resolve_route env it")
    case (Ok t)
    have "route_port (route_of_target t) \<noteq> route_port (route_of_target t')" if "t' \<in> set (resolved env items)" for t'
    proof
      assume eq: "route_port (route_of_target t) = route_port (route_of_target t')"
      obtain it' where it': "it' \<in> set items" "Resolve_route env it' = Ok t'"
        using \<open>t' \<in> set (resolved env items)\<close> by (auto simp: set_resolved)
      note p = Resolve_route_Ok(1) [OF Ok] Resolve_route_Ok(1) [OF it'(2)]
      have "tProto t = tProto t'"
        using eq proto_number_inject ParsePort_Ok(1) [OF p(1)] ParsePort_Ok(1) [OF p(2)]
        by (auto simp: route_port_def route_of_target_def)
      with eq have "ParsePort (Port it) = ParsePort (Port it')" unfolding p by (simp add: route_port_def route_of_target_def)
      with Cons.prems it'(1) show False by force
    qed
    then show ?thesis using Cons Ok by (auto simp: resolved_def)
  qed (use Cons in \<open>simp_all add: resolved_def\<close>)
qed (simp add: resolved_def)

text \<open>
  C36. From declaration to data plane: whatever was applied and deleted, what the control plane
  pushes for the stored routes is accepted by every load balancer, as long as the routes fit its map, and stands
  for exactly the declarations that resolve.
\<close>

theorem declared_routes_accepted:
  assumes "service_reachable h" "length (routes_request env (Desired h)) \<le> PORT_ROUTE_MAP_SIZE"
  shows "\<exists>rs out. read_routes p6 (routes_request env (Desired h)) = Ok rs \<and> convert_routes rs = Ok out \<and>
    ValidatePortRoutes out = Ok () \<and>
    set out = route_of_target ` {t. \<exists>it \<in> set (Desired h). Resolve_route env it = Ok t}"
proof -
  let ?req = "routes_request env (Desired h)" and ?items = "sort_key Name (Desired h)"
  have ok: "routes_ok h" by (rule reachable_routes_ok [OF assms(1)])
  obtain rs where rs: "read_routes p6 ?req = Ok rs" "convert_routes rs = Ok (map route_of_msg ?req)"
    using read_convert [of ?req p6] routes_request_ok by blast
  have out: "map route_of_msg ?req = map route_of_target (resolved env ?items)" by (rule routes_request_resolved)
  have "distinct (Desired h)"
    using stores.distinct_contents [of Name h] ok by (simp add: routes_ok_def distinct_map)
  then have "distinct ?items" by simp
  then have "distinct (map (\<lambda>it. ParsePort (Port it)) ?items)"
    using ok unfolding distinct_map routes_ok_def by simp
  then have "distinct (map route_port (map route_of_msg ?req))"
    unfolding out by (rule resolved_ports_distinct)
  moreover have "\<forall>r \<in> set (map route_of_msg ?req). route_valid r"
    unfolding out using route_of_target_valid by (auto simp: set_resolved)
  ultimately have "ValidatePortRoutes (map route_of_msg ?req) = Ok ()"
    using assms(2) by (simp add: ValidatePortRoutes_Ok)
  moreover have "set (map route_of_msg ?req) = route_of_target ` {t. \<exists>it \<in> set (Desired h). Resolve_route env it = Ok t}"
    unfolding out by (simp add: set_resolved)
  ultimately show ?thesis using rs by blast
qed

section \<open>Convergence\<close>

definition holds_routes :: "'k controller \<Rightarrow> port_route_msg list \<Rightarrow> bool" where
  "holds_routes c req \<longleftrightarrow> PortRoutes (dyn c) = map route_of_msg req"

text \<open>What the loop remembers of a node is what the node holds.\<close>

definition remembered :: "string \<Rightarrow> 'k l4_loop \<Rightarrow> bool" where
  "remembered cn s \<longleftrightarrow>
     (\<forall>fp. map_of (pushed s) cn = Some fp \<longrightarrow>
       (\<exists>req. (\<forall>r \<in> set req. msg_ok r) \<and> fingerprint req = Ok fp \<and> holds_routes (l4lbs s cn) req))"

definition up_to_date :: "port_route_msg list \<Rightarrow> string \<Rightarrow> 'k l4_loop \<Rightarrow> bool" where
  "up_to_date req cn s \<longleftrightarrow>
     holds_routes (l4lbs s cn) req \<or> NodeError ''l4_route'' cn (push_status s) \<noteq> None"

lemma rpc_SetPortRoutes_holds:
  assumes "\<forall>r \<in> set req. msg_ok r" "rpc_SetPortRoutes pf p6 req c = (Ok (), c')"
  shows "holds_routes c' req"
proof -
  obtain rs where rs: "read_routes p6 req = Ok rs" "convert_routes rs = Ok (map route_of_msg req)"
    using read_convert [OF assms(1)] by blast
  then have "SetPortRoutes pf rs c = (Ok (), c')" using assms(2) by (simp add: rpc_SetPortRoutes_def)
  from SetPortRoutes_Ok [OF this] rs(2) show ?thesis by (auto simp: holds_routes_def)
qed

lemma call_other: "cn \<noteq> cn' \<Longrightarrow> snd (call_SetPortRoutes net cn' req w) cn = w cn"
  by (auto simp: call_SetPortRoutes_def Let_def split: prod.split delivery.split)

lemma call_holds:
  assumes "\<forall>r \<in> set req. msg_ok r" "call_SetPortRoutes net cn req w = (None, w')"
  shows "holds_routes (w' cn) req"
proof -
  obtain res c where call: "rpc_SetPortRoutes (node_of net cn) (parse_at net cn) req (w cn) = (res, c)" by fastforce
  then have "res = Ok ()" "w' = w(cn := c)"
    using assms(2) by (auto simp: call_SetPortRoutes_def split: delivery.splits outcome.splits)
  with rpc_SetPortRoutes_holds [OF assms(1)] call show ?thesis by simp
qed

lemma NodeError_Record:
  "NodeError res n (Record res' n' now err s) =
     (if res = res' \<and> n = n' then err else NodeError res n s)"
  by (auto simp: NodeError_def Record_def split: option.split)

lemma remembered_holds:
  assumes "remembered cn s" "map_of (pushed s) cn = Some fp" "\<forall>r \<in> set req. msg_ok r" "fingerprint req = Ok fp"
  shows "holds_routes (l4lbs s cn) req"
proof -
  obtain req' where "\<forall>r \<in> set req'. msg_ok r" "fingerprint req' = Ok fp" "holds_routes (l4lbs s cn) req'"
    using assms(1,2) unfolding remembered_def by blast
  then show ?thesis using fingerprint_inject [OF assms(3) _ assms(4)] by blast
qed

lemma push_call_other:
  assumes "push_call net req cn' s = (err, s')" "cn \<noteq> cn'"
  shows "remembered cn s' = remembered cn s" "up_to_date req' cn s' = up_to_date req' cn s" "l4lbs s' cn = l4lbs s cn"
proof -
  show same: "l4lbs s' cn = l4lbs s cn"
    using assms call_other [OF assms(2), of net req "l4lbs s"] by (auto simp: push_call_def split: prod.splits)
  then show "remembered cn s' = remembered cn s" "up_to_date req' cn s' = up_to_date req' cn s"
    using assms(1) by (auto simp: push_call_def remembered_def up_to_date_def split: prod.splits)
qed

lemma push_call_holds:
  "\<forall>r \<in> set req. msg_ok r \<Longrightarrow> push_call net req cn s = (None, s') \<Longrightarrow> holds_routes (l4lbs s' cn) req"
  using call_holds by (auto simp: push_call_def split: prod.splits)

lemma push_record_other:
  "cn \<noteq> cn' \<Longrightarrow> remembered cn (push_record now fp cn' err s) = remembered cn s"
  "cn \<noteq> cn' \<Longrightarrow> up_to_date req' cn (push_record now fp cn' err s) = up_to_date req' cn s"
  "l4lbs (push_record now fp cn' err s) = l4lbs s"
  by (simp_all add: push_record_def remembered_def up_to_date_def NodeError_Record split: option.split)

lemma push_record_own:
  assumes "\<forall>r \<in> set req. msg_ok r" "fingerprint req = Ok fp" "err = None \<Longrightarrow> holds_routes (l4lbs s cn) req"
  shows "remembered cn (push_record now fp cn err s)" "up_to_date req cn (push_record now fp cn err s)"
  using assms by (cases err; auto simp: push_record_def remembered_def up_to_date_def NodeError_Record)+

lemma push_routes_visit:
  assumes req: "\<forall>r \<in> set req. msg_ok r" "fingerprint req = Ok fp" and rem: "remembered cn s"
  shows "remembered cn (push_routes net now req fp cn s) \<and> up_to_date req cn (push_routes net now req fp cn s)"
proof (cases "map_of (pushed s) cn = Some fp")
  case True
  then show ?thesis using remembered_holds [OF rem True req] rem by (simp add: push_routes_def up_to_date_def)
next
  case False
  obtain err s' where call: "push_call net req cn s = (err, s')" by fastforce
  then have "err = None \<Longrightarrow> holds_routes (l4lbs s' cn) req" using push_call_holds [OF req(1)] by blast
  from push_record_own [OF req this] show ?thesis by (simp add: push_routes_def False call)
qed

lemma push_routes_other:
  assumes "cn \<noteq> cn'"
  shows "remembered cn (push_routes net now req fp cn' s) = remembered cn s"
    "up_to_date req' cn (push_routes net now req fp cn' s) = up_to_date req' cn s"
proof -
  obtain err s' where call: "push_call net req cn' s = (err, s')" by fastforce
  show "remembered cn (push_routes net now req fp cn' s) = remembered cn s"
    "up_to_date req' cn (push_routes net now req fp cn' s) = up_to_date req' cn s"
    using push_call_other [OF call assms] by (simp_all add: push_routes_def call push_record_other assms)
qed

interpretation l4_push: push_loop "push_routes net now req fp"
    "\<lambda>cn s. (\<forall>r \<in> set req. msg_ok r) \<and> fingerprint req = Ok fp \<longrightarrow> remembered cn s"
    "\<lambda>cn s. (\<forall>r \<in> set req. msg_ok r) \<and> fingerprint req = Ok fp \<longrightarrow> up_to_date req cn s"
  for net :: "'k network" and now req fp
  by unfold_locales (auto simp: push_routes_other push_routes_visit)

lemma reconcile_fold:
  obtains fp where "fingerprint (routes_request env items) = Ok fp"
    "L4Route_reconcile net now env items s =
       fold (push_routes net now (routes_request env items) fp) (map PeerCommonName (List_nodes ''l4lb'' (inventory_of env))) s"
proof -
  obtain fp where fp: "fingerprint (routes_request env items) = Ok fp"
    using fingerprint_Ok [of "routes_request env items"] routes_request_ok by blast
  then show ?thesis using that by (simp add: L4Route_reconcile_def Let_def)
qed

lemma reconcile_pass:
  assumes "remembered cn s" "cn \<in> PeerCommonName ` set (List_nodes ''l4lb'' (inventory_of env))"
  shows "up_to_date (routes_request env items) cn (L4Route_reconcile net now env items s)"
proof -
  let ?req = "routes_request env items"
  have ok: "\<forall>r \<in> set ?req. msg_ok r" using routes_request_ok by blast
  obtain fp where fp: "fingerprint ?req = Ok fp" and step: "L4Route_reconcile net now env items s =
      fold (push_routes net now ?req fp) (map PeerCommonName (List_nodes ''l4lb'' (inventory_of env))) s"
    by (rule reconcile_fold)
  show ?thesis
    unfolding step using l4_push.pass_good [of ?req fp cn s "map PeerCommonName (List_nodes ''l4lb'' (inventory_of env))"] ok fp assms by simp
qed

section \<open>The loop at work\<close>

text \<open>
  The loop among everything that runs beside it, one step of one goroutine at a time. A pass holds the
  loop's lock from its beginning to its end; \<open>todo\<close> are the load balancers it has listed and not
  visited yet, \<open>in_call\<close> the one whose call has been made and whose outcome is not recorded yet. What
  resolution read (\<open>read_env\<close>, \<open>read_items\<close>) may be older than the list. Two fields are
  for the statements only: \<open>cleared\<close>, the nodes whose status was dropped during the pass, and \<open>stale\<close>,
  the nodes started anew whose entry of \<open>pushed\<close> has not been forgotten since.
\<close>

record pass =
  read_env :: surroundings
  read_items :: "l4_route list"
  pass_fp :: string
  listed :: "string list"
  todo :: "string list"
  in_call :: "(string \<times> string option) option"
  cleared :: "string set"

record 'k l4_system =
  loop :: "'k l4_loop"
  nodes_in :: broker
  connecting :: "(string \<times> peer) list"
  departing :: "(string \<times> peer) list"
  running :: "pass option"
  stale :: "string set"

definition l4_start :: "(string \<Rightarrow> 'k controller) \<Rightarrow> 'k l4_system" where
  "l4_start w =
     \<lparr> loop = \<lparr> pushed = [], push_status = NewStatus, l4lbs = w \<rparr>, nodes_in = New_broker,
       connecting = [], departing = [], running = None, stale = {} \<rparr>"

definition pass_request :: "pass \<Rightarrow> port_route_msg list" where
  "pass_request ps = routes_request (read_env ps) (read_items ps)"

text \<open>A pass begins: the lock, the request and its fingerprint, and the list of load balancers.\<close>

definition pass_begin :: "surroundings \<Rightarrow> l4_route list \<Rightarrow> string \<Rightarrow> broker \<Rightarrow> pass" where
  "pass_begin env items fp b =
     (let cns = map PeerCommonName (List_nodes ''l4lb'' b) in
      \<lparr> read_env = env, read_items = items, pass_fp = fp, listed = cns, todo = cns, in_call = None, cleared = {} \<rparr>)"

definition pass_over :: "pass \<Rightarrow> bool" where
  "pass_over ps \<longleftrightarrow> todo ps = [] \<and> in_call ps = None"

text \<open>
  \<open>Broker.Add\<close> lists the peer and unlocks; its callbacks run later (\<open>connecting\<close>), and forgetting waits
  for the loop's lock. \<open>Broker.Remove\<close> likewise: the callback that clears the status runs later
  (\<open>departing\<close>); it looks first whether the node is back, and as it may have looked earlier it
  may clear in either case. A node may start anew at any moment, connected or not, with whatever state. The
  other loops record their own resources.
\<close>

inductive l4_step :: "'k l4_system \<Rightarrow> 'k l4_system \<Rightarrow> bool" where
  begins: "running S = None \<Longrightarrow> fingerprint (routes_request env items) = Ok fp \<Longrightarrow>
    l4_step S (S \<lparr> running := Some (pass_begin env items fp (nodes_in S)) \<rparr>)"
| skips: "running S = Some ps \<Longrightarrow> in_call ps = None \<Longrightarrow> todo ps = cn # cns \<Longrightarrow>
    map_of (pushed (loop S)) cn = Some (pass_fp ps) \<Longrightarrow>
    l4_step S (S \<lparr> running := Some (ps \<lparr> todo := cns \<rparr>) \<rparr>)"
| calls: "running S = Some ps \<Longrightarrow> in_call ps = None \<Longrightarrow> todo ps = cn # cns \<Longrightarrow>
    map_of (pushed (loop S)) cn \<noteq> Some (pass_fp ps) \<Longrightarrow>
    push_call net (pass_request ps) cn (loop S) = (err, s') \<Longrightarrow>
    l4_step S (S \<lparr> loop := s', running := Some (ps \<lparr> todo := cns, in_call := Some (cn, err) \<rparr>) \<rparr>)"
| records: "running S = Some ps \<Longrightarrow> in_call ps = Some (cn, err) \<Longrightarrow>
    l4_step S (S \<lparr> loop := push_record now (pass_fp ps) cn err (loop S), running := Some (ps \<lparr> in_call := None \<rparr>) \<rparr>)"
| ends: "running S = Some ps \<Longrightarrow> pass_over ps \<Longrightarrow> l4_step S (S \<lparr> running := None \<rparr>)"
| lists: "l4_step S (S \<lparr> nodes_in := fst (Add t p (nodes_in S)), connecting := connecting S @ [(t, p)] \<rparr>)"
| forgets: "(t, p) \<in> set (connecting S) \<Longrightarrow> (t = ''l4lb'' \<Longrightarrow> running S = None) \<Longrightarrow>
    l4_step S (S \<lparr> loop := L4Route_onConnect t (PeerCommonName p) (loop S), connecting := remove1 (t, p) (connecting S),
      stale := (if t = ''l4lb'' then stale S - {PeerCommonName p} else stale S) \<rparr>)"
| leaves: "l4_step S (S \<lparr> nodes_in := fst (Remove t p (nodes_in S)), departing := departing S @ [(t, p)] \<rparr>)"
| clears: "(t, p) \<in> set (departing S) \<Longrightarrow>
    l4_step S (S \<lparr> loop := (loop S) \<lparr> push_status := ClearNode (PeerCommonName p) (push_status (loop S)) \<rparr>,
      departing := remove1 (t, p) (departing S),
      running := map_option (\<lambda>ps. ps \<lparr> cleared := insert (PeerCommonName p) (cleared ps) \<rparr>) (running S) \<rparr>)"
| restarts: "l4_step S (S \<lparr> loop := (loop S) \<lparr> l4lbs := (l4lbs (loop S))(cn := c) \<rparr>, stale := insert cn (stale S) \<rparr>)"
| node_changes: "PortRoutes (dyn c) = PortRoutes (dyn (l4lbs (loop S) cn)) \<Longrightarrow>
    l4_step S (S \<lparr> loop := (loop S) \<lparr> l4lbs := (l4lbs (loop S))(cn := c) \<rparr> \<rparr>)"
| other_records: "res \<noteq> ''l4_route'' \<Longrightarrow>
    l4_step S (S \<lparr> loop := (loop S) \<lparr> push_status := Record res cn now err (push_status (loop S)) \<rparr> \<rparr>)"

definition l4_reachable :: "'k l4_system \<Rightarrow> bool" where
  "l4_reachable S \<longleftrightarrow> (\<exists>w. l4_step\<^sup>*\<^sup>* (l4_start w) S)"

section \<open>What every step keeps\<close>

text \<open>
  Of every node not started anew and not in a call, what the loop remembers is true; and of every node
  the pass has visited, unless its status was dropped meanwhile, the routes are there or the failure is recorded.
\<close>

definition visited :: "pass \<Rightarrow> string \<Rightarrow> bool" where
  "visited ps cn \<longleftrightarrow> cn \<in> set (listed ps) \<and> cn \<notin> set (todo ps) \<and> (\<forall>err. in_call ps \<noteq> Some (cn, err))"

definition pass_inv :: "'k l4_loop \<Rightarrow> string set \<Rightarrow> pass \<Rightarrow> bool" where
  "pass_inv s st ps \<longleftrightarrow>
     fingerprint (pass_request ps) = Ok (pass_fp ps) \<and>
     (\<forall>cn. in_call ps = Some (cn, None) \<longrightarrow> cn \<notin> st \<longrightarrow> holds_routes (l4lbs s cn) (pass_request ps)) \<and>
     (\<forall>cn. visited ps cn \<longrightarrow> cn \<notin> st \<longrightarrow> cn \<notin> cleared ps \<longrightarrow> up_to_date (pass_request ps) cn s)"

definition l4_inv :: "'k l4_system \<Rightarrow> bool" where
  "l4_inv S \<longleftrightarrow>
     (\<forall>cn. cn \<notin> stale S \<longrightarrow> (\<forall>ps err. running S = Some ps \<longrightarrow> in_call ps \<noteq> Some (cn, err)) \<longrightarrow> remembered cn (loop S)) \<and>
     (\<forall>ps. running S = Some ps \<longrightarrow> pass_inv (loop S) (stale S) ps)"

lemma pass_request_ok: "\<forall>r \<in> set (pass_request ps). msg_ok r"
  unfolding pass_request_def using routes_request_ok by blast

lemma pass_request_update [simp]:
  "pass_request (ps \<lparr> todo := x \<rparr>) = pass_request ps"
  "pass_request (ps \<lparr> in_call := y \<rparr>) = pass_request ps"
  "pass_request (ps \<lparr> cleared := z \<rparr>) = pass_request ps"
  by (simp_all add: pass_request_def)

text \<open>Changes of the loop's state that a node's part of the invariant does not see.\<close>

lemma NodeError_ClearNode:
  "NodeError res n (ClearNode n' s) = (if n = n' then None else NodeError res n s)"
proof -
  have "map_of (filter (\<lambda>((_, m), _). m \<noteq> n') s) (res, n) = (if n = n' then None else map_of s (res, n))"
    by (induction s) auto
  then show ?thesis by (simp add: NodeError_def ClearNode_def)
qed

lemma status_unseen:
  "remembered cn (s \<lparr> push_status := st \<rparr>) = remembered cn s"
  "NodeError ''l4_route'' cn st = NodeError ''l4_route'' cn (push_status s) \<Longrightarrow>
     up_to_date req cn (s \<lparr> push_status := st \<rparr>) = up_to_date req cn s"
  by (simp_all add: remembered_def up_to_date_def)

lemma node_unseen:
  assumes "cn = n \<Longrightarrow> PortRoutes (dyn c) = PortRoutes (dyn (l4lbs s cn))"
  shows "remembered cn (s \<lparr> l4lbs := (l4lbs s)(n := c) \<rparr>) = remembered cn s"
    "up_to_date req cn (s \<lparr> l4lbs := (l4lbs s)(n := c) \<rparr>) = up_to_date req cn s"
    "holds_routes (((l4lbs s)(n := c)) cn) req = holds_routes (l4lbs s cn) req"
  using assms by (auto simp: remembered_def up_to_date_def holds_routes_def)

lemma inv_pass: "l4_inv S \<Longrightarrow> running S = Some ps \<Longrightarrow> pass_inv (loop S) (stale S) ps"
  by (simp add: l4_inv_def)

lemma inv_remembered:
  "l4_inv S \<Longrightarrow> cn \<notin> stale S \<Longrightarrow> (\<And>ps err. running S = Some ps \<Longrightarrow> in_call ps \<noteq> Some (cn, err)) \<Longrightarrow> remembered cn (loop S)"
  by (simp add: l4_inv_def)

lemma inv_skips:
  assumes inv: "l4_inv S" and ps: "running S = Some ps" "in_call ps = None" "todo ps = cn # cns"
    and skip: "map_of (pushed (loop S)) cn = Some (pass_fp ps)"
  shows "l4_inv (S \<lparr> running := Some (ps \<lparr> todo := cns \<rparr>) \<rparr>)"
proof -
  note p = inv_pass [OF inv ps(1)]
  have "up_to_date (pass_request ps) cn (loop S)" if "cn \<notin> stale S"
  proof -
    have "remembered cn (loop S)" by (rule inv_remembered [OF inv that]) (use ps in simp)
    from remembered_holds [OF this skip pass_request_ok] p show ?thesis by (simp add: pass_inv_def up_to_date_def)
  qed
  then have "pass_inv (loop S) (stale S) (ps \<lparr> todo := cns \<rparr>)"
    using p ps by (auto simp: pass_inv_def visited_def)
  then show ?thesis using inv ps by (auto simp: l4_inv_def)
qed

lemma inv_calls:
  assumes inv: "l4_inv S" and ps: "running S = Some ps" "in_call ps = None" "todo ps = cn # cns"
    and call: "push_call net (pass_request ps) cn (loop S) = (err, s')"
  shows "l4_inv (S \<lparr> loop := s', running := Some (ps \<lparr> todo := cns, in_call := Some (cn, err) \<rparr>) \<rparr>)"
proof -
  note p = inv_pass [OF inv ps(1)]
  have "err = None \<Longrightarrow> holds_routes (l4lbs s' cn) (pass_request ps)"
    using push_call_holds [OF pass_request_ok] call by blast
  then have "pass_inv s' (stale S) (ps \<lparr> todo := cns, in_call := Some (cn, err) \<rparr>)"
    using p ps push_call_other(2) [OF call] by (auto simp: pass_inv_def visited_def)
  then show ?thesis using inv ps push_call_other(1) [OF call] by (auto simp: l4_inv_def)
qed

lemma inv_records:
  assumes inv: "l4_inv S" and ps: "running S = Some ps" "in_call ps = Some (cn, err)"
  shows "l4_inv (S \<lparr> loop := push_record now (pass_fp ps) cn err (loop S), running := Some (ps \<lparr> in_call := None \<rparr>) \<rparr>)"
proof -
  let ?s = "push_record now (pass_fp ps) cn err (loop S)"
  note p = inv_pass [OF inv ps(1)]
  have own: "remembered cn ?s" "up_to_date (pass_request ps) cn ?s" if "cn \<notin> stale S"
    using push_record_own [OF pass_request_ok, of ps "pass_fp ps" err "loop S" cn now] p ps that
    by (auto simp: pass_inv_def)
  have "pass_inv ?s (stale S) (ps \<lparr> in_call := None \<rparr>)"
    unfolding pass_inv_def
  proof (intro conjI allI impI)
    fix n
    assume n: "visited (ps \<lparr> in_call := None \<rparr>) n" "n \<notin> stale S" "n \<notin> cleared (ps \<lparr> in_call := None \<rparr>)"
    show "up_to_date (pass_request (ps \<lparr> in_call := None \<rparr>)) n ?s"
    proof (cases "n = cn")
      case False
      then show ?thesis using n p ps by (simp add: push_record_other pass_inv_def visited_def)
    qed (use n own in simp)
  qed (use p in \<open>simp_all add: pass_inv_def\<close>)
  moreover have "remembered n ?s" if "n \<notin> stale S" for n
  proof (cases "n = cn")
    case False
    have "remembered n (loop S)" by (rule inv_remembered [OF inv that]) (use ps False in auto)
    with False show ?thesis by (simp add: push_record_other)
  qed (use that own in simp)
  ultimately show ?thesis by (simp add: l4_inv_def)
qed

lemma inv_forgets:
  assumes "l4_inv S" "t = ''l4lb'' \<Longrightarrow> running S = None"
  shows "l4_inv (S \<lparr> loop := L4Route_onConnect t cn (loop S), connecting := x,
      stale := (if t = ''l4lb'' then stale S - {cn} else stale S) \<rparr>)"
  using assms by (auto simp: l4_inv_def L4Route_onConnect_def remembered_def)

lemma inv_clears:
  assumes inv: "l4_inv S"
  shows "l4_inv (S \<lparr> loop := (loop S) \<lparr> push_status := ClearNode cn (push_status (loop S)) \<rparr>, departing := x,
      running := map_option (\<lambda>ps. ps \<lparr> cleared := insert cn (cleared ps) \<rparr>) (running S) \<rparr>)"
proof -
  have "pass_inv (loop S \<lparr> push_status := ClearNode cn (push_status (loop S)) \<rparr>) (stale S) (ps \<lparr> cleared := insert cn (cleared ps) \<rparr>)"
    if "running S = Some ps" for ps
    using inv_pass [OF inv that]
    by (simp add: pass_inv_def visited_def status_unseen NodeError_ClearNode)
  then show ?thesis using inv by (auto simp: l4_inv_def status_unseen)
qed

lemma inv_restarts:
  assumes "l4_inv S"
  shows "l4_inv (S \<lparr> loop := (loop S) \<lparr> l4lbs := (l4lbs (loop S))(cn := c) \<rparr>, stale := insert cn (stale S) \<rparr>)"
  using assms by (auto simp: l4_inv_def pass_inv_def node_unseen)

lemma inv_node_changes:
  assumes "l4_inv S" "PortRoutes (dyn c) = PortRoutes (dyn (l4lbs (loop S) cn))"
  shows "l4_inv (S \<lparr> loop := (loop S) \<lparr> l4lbs := (l4lbs (loop S))(cn := c) \<rparr> \<rparr>)"
proof -
  have same: "n = cn \<Longrightarrow> PortRoutes (dyn c) = PortRoutes (dyn (l4lbs (loop S) n))" for n using assms(2) by simp
  show ?thesis
    using assms(1) unfolding l4_inv_def pass_inv_def by (simp add: node_unseen [OF same] del: fun_upd_apply)
qed

lemma inv_step: "l4_step S S' \<Longrightarrow> l4_inv S \<Longrightarrow> l4_inv S'"
proof (induction rule: l4_step.induct)
  case (begins S env items fp)
  then show ?case
    by (simp add: l4_inv_def pass_inv_def pass_begin_def pass_request_def visited_def Let_def)
next
  case (lists S t p)
  then show ?case by (simp add: l4_inv_def)
next
  case (leaves S t p)
  then show ?case by (simp add: l4_inv_def)
next
  case (ends S ps)
  then show ?case by (auto simp: l4_inv_def pass_over_def)
next
  case (other_records res S cn now err)
  then show ?case by (simp add: l4_inv_def pass_inv_def status_unseen NodeError_Record)
qed (blast intro: inv_skips inv_calls inv_records inv_forgets inv_clears inv_restarts inv_node_changes)+

lemma reachable_inv: "l4_reachable S \<Longrightarrow> l4_inv S"
proof -
  have "l4_inv (l4_start w)" for w :: "string \<Rightarrow> 'a controller"
    by (simp add: l4_inv_def l4_start_def remembered_def)
  moreover have "l4_step\<^sup>*\<^sup>* S S' \<Longrightarrow> l4_inv S \<Longrightarrow> l4_inv S'" for S S' :: "'a l4_system"
    by (induction rule: rtranclp_induct) (blast intro: inv_step)+
  ultimately show "l4_reachable S \<Longrightarrow> l4_inv S" for S :: "'a l4_system" by (auto simp: l4_reachable_def)
qed

section \<open>Convergence of a pass\<close>

lemma pass_runs:
  "running S = Some ps \<Longrightarrow> in_call ps = None \<Longrightarrow>
   l4_step\<^sup>*\<^sup>* S (S \<lparr> loop := fold (push_routes net now (pass_request ps) (pass_fp ps)) (todo ps) (loop S),
     running := Some (ps \<lparr> todo := [] \<rparr>) \<rparr>)"
proof (induction "todo ps" arbitrary: S ps)
  case Nil
  then have "S \<lparr> loop := loop S, running := Some (ps \<lparr> todo := [] \<rparr>) \<rparr> = S" by (cases S; cases ps) simp
  then show ?case using Nil by (metis fold_simps(1) rtranclp.rtrancl_refl)
next
  case (Cons cn cns)
  let ?visit = "push_routes net now (pass_request ps) (pass_fp ps)"
  let ?ps = "ps \<lparr> todo := cns \<rparr>"
  let ?S = "S \<lparr> loop := ?visit cn (loop S), running := Some ?ps \<rparr>"
  have "l4_step\<^sup>*\<^sup>* S ?S"
  proof (cases "map_of (pushed (loop S)) cn = Some (pass_fp ps)")
    case True
    then have "?S = S \<lparr> running := Some ?ps \<rparr>" by (simp add: push_routes_def)
    then show ?thesis using l4_step.skips [OF Cons.prems Cons.hyps(2) [symmetric] True] by auto
  next
    case False
    obtain err s' where call: "push_call net (pass_request ps) cn (loop S) = (err, s')" by fastforce
    let ?T = "S \<lparr> loop := s', running := Some (ps \<lparr> todo := cns, in_call := Some (cn, err) \<rparr>) \<rparr>"
    have "l4_step S ?T" by (rule l4_step.calls [OF Cons.prems Cons.hyps(2) [symmetric] False call])
    moreover have "ps \<lparr> todo := cns, in_call := None \<rparr> = ?ps" using Cons.prems(2) by (cases ps) simp
    then have "l4_step ?T ?S"
      using l4_step.records [of ?T "ps \<lparr> todo := cns, in_call := Some (cn, err) \<rparr>" cn err now]
      by (simp add: push_routes_def False call)
    ultimately show ?thesis by (meson converse_rtranclp_into_rtranclp r_into_rtranclp)
  qed
  moreover have "l4_step\<^sup>*\<^sup>* ?S (?S \<lparr> loop := fold ?visit cns (loop ?S), running := Some (?ps \<lparr> todo := [] \<rparr>) \<rparr>)"
    using Cons.hyps(1) [of ?ps ?S] Cons.prems(2) by simp
  ultimately have "l4_step\<^sup>*\<^sup>* S (?S \<lparr> loop := fold ?visit cns (loop ?S), running := Some (?ps \<lparr> todo := [] \<rparr>) \<rparr>)"
    by (rule rtranclp_trans)
  then show ?case by (simp add: Cons.hyps(2) [symmetric])
qed

lemma pass_begins_and_runs:
  assumes "running S = None" "inventory_of env = nodes_in S"
  obtains ps where "l4_step\<^sup>*\<^sup>* S (S \<lparr> loop := L4Route_reconcile net now env items (loop S), running := Some ps \<rparr>)"
    "pass_over ps" "read_env ps = env" "read_items ps = items" "cleared ps = {}"
    "listed ps = map PeerCommonName (List_nodes ''l4lb'' (nodes_in S))"
proof -
  obtain fp where fp: "fingerprint (routes_request env items) = Ok fp" and step: "L4Route_reconcile net now env items (loop S) =
      fold (push_routes net now (routes_request env items) fp) (map PeerCommonName (List_nodes ''l4lb'' (inventory_of env))) (loop S)"
    by (rule reconcile_fold)
  let ?ps = "pass_begin env items fp (nodes_in S)"
  have "l4_step S (S \<lparr> running := Some ?ps \<rparr>)" by (rule l4_step.begins [OF assms(1) fp])
  moreover have "l4_step\<^sup>*\<^sup>* (S \<lparr> running := Some ?ps \<rparr>)
      (S \<lparr> loop := L4Route_reconcile net now env items (loop S), running := Some (?ps \<lparr> todo := [] \<rparr>) \<rparr>)"
    using pass_runs [of "S \<lparr> running := Some ?ps \<rparr>" ?ps net now] assms(2)
    by (simp add: step pass_begin_def pass_request_def Let_def)
  ultimately have "l4_step\<^sup>*\<^sup>* S (S \<lparr> loop := L4Route_reconcile net now env items (loop S), running := Some (?ps \<lparr> todo := [] \<rparr>) \<rparr>)"
    by (rule converse_rtranclp_into_rtranclp)
  then show ?thesis by (rule that) (simp_all add: pass_over_def pass_begin_def Let_def)
qed

lemma running_pass_ends:
  assumes "running S = Some ps"
  shows "\<exists>s' ps'. l4_step\<^sup>*\<^sup>* S (S \<lparr> loop := s', running := Some ps' \<rparr>) \<and> pass_over ps' \<and> listed ps' = listed ps"
proof (cases "in_call ps")
  case None
  from pass_runs [OF assms None] show ?thesis using None by (fastforce simp: pass_over_def)
next
  case (Some x)
  obtain cn err where x: "in_call ps = Some (cn, err)" using Some by (cases x) simp
  let ?ps = "ps \<lparr> in_call := None \<rparr>"
  let ?S = "S \<lparr> loop := push_record 0 (pass_fp ps) cn err (loop S), running := Some ?ps \<rparr>"
  have "l4_step S ?S" by (rule l4_step.records [OF assms x])
  from converse_rtranclp_into_rtranclp [OF this pass_runs [of ?S ?ps]] show ?thesis
    by (fastforce simp: pass_over_def)
qed

text \<open>
  C37. Convergence. Whatever calls are lost and whatever nodes start anew, connect, leave and change at any
  moment, during a pass too: when a pass is over, every load balancer it listed holds exactly the routes of
  the declarations it read, or the status says that the push to it failed. Excepted are the nodes
  started anew whose connection's callback has not yet forgotten what was pushed to them, and the nodes whose status
  was dropped during the pass because they left. And a pass gets there: one that runs can always end, and one can
  begin whenever none runs; undisturbed, it leaves every listed load balancer that was not
  started anew with the current routes or a recorded failure.
\<close>

theorem l4_pass_converges:
  fixes S :: "'k l4_system"
  assumes "l4_reachable S"
  shows "(\<forall>ps cn. running S = Some ps \<and> pass_over ps \<and> cn \<in> set (listed ps) \<and> cn \<notin> stale S \<and> cn \<notin> cleared ps \<and>
      NodeError ''l4_route'' cn (push_status (loop S)) = None \<longrightarrow>
      PortRoutes (dyn (l4lbs (loop S) cn)) = map route_of_target (resolved (read_env ps) (sort_key Name (read_items ps)))) \<and>
    (\<forall>ps. running S = Some ps \<longrightarrow>
      (\<exists>s' ps'. l4_step\<^sup>*\<^sup>* S (S \<lparr> loop := s', running := Some ps' \<rparr>) \<and> pass_over ps' \<and> listed ps' = listed ps)) \<and>
    (\<forall>net now env items. running S = None \<and> inventory_of env = nodes_in S \<longrightarrow>
      (\<exists>ps. l4_step\<^sup>*\<^sup>* S (S \<lparr> loop := L4Route_reconcile net now env items (loop S), running := Some ps \<rparr>) \<and>
        pass_over ps \<and> read_env ps = env \<and> read_items ps = items \<and> cleared ps = {} \<and>
        listed ps = map PeerCommonName (List_nodes ''l4lb'' (nodes_in S)) \<and>
        (\<forall>cn \<in> set (listed ps). cn \<notin> stale S \<longrightarrow>
          NodeError ''l4_route'' cn (push_status (L4Route_reconcile net now env items (loop S))) = None \<longrightarrow>
          PortRoutes (dyn (l4lbs (L4Route_reconcile net now env items (loop S)) cn)) =
            map route_of_target (resolved env (sort_key Name items)))))"
proof (intro conjI allI impI)
  note inv = reachable_inv [OF assms]
  fix ps cn
  assume "running S = Some ps \<and> pass_over ps \<and> cn \<in> set (listed ps) \<and> cn \<notin> stale S \<and> cn \<notin> cleared ps \<and>
    NodeError ''l4_route'' cn (push_status (loop S)) = None"
  moreover from this have "up_to_date (pass_request ps) cn (loop S)"
    using inv_pass [OF inv, of ps] unfolding pass_inv_def visited_def pass_over_def by auto
  ultimately show "PortRoutes (dyn (l4lbs (loop S) cn)) =
      map route_of_target (resolved (read_env ps) (sort_key Name (read_items ps)))"
    by (simp add: up_to_date_def holds_routes_def pass_request_def routes_request_resolved)
next
  fix ps
  assume "running S = Some ps"
  then show "\<exists>s' ps'. l4_step\<^sup>*\<^sup>* S (S \<lparr> loop := s', running := Some ps' \<rparr>) \<and> pass_over ps' \<and> listed ps' = listed ps"
    by (rule running_pass_ends)
next
  fix net :: "'k network" and now items and env :: surroundings
  assume idle: "running S = None \<and> inventory_of env = nodes_in S"
  obtain ps where ps: "l4_step\<^sup>*\<^sup>* S (S \<lparr> loop := L4Route_reconcile net now env items (loop S), running := Some ps \<rparr>)"
    "pass_over ps" "read_env ps = env" "read_items ps = items" "cleared ps = {}"
    "listed ps = map PeerCommonName (List_nodes ''l4lb'' (nodes_in S))"
    using pass_begins_and_runs [of S env net now items] idle by blast
  have utd: "up_to_date (routes_request env items) cn (L4Route_reconcile net now env items (loop S))"
    if "cn \<in> set (listed ps)" "cn \<notin> stale S" for cn
  proof (rule reconcile_pass)
    show "remembered cn (loop S)"
      by (rule inv_remembered [OF reachable_inv [OF assms] that(2)]) (use idle in simp)
  qed (use that(1) idle ps(6) in simp)
  have good: "PortRoutes (dyn (l4lbs (L4Route_reconcile net now env items (loop S)) cn)) =
      map route_of_target (resolved env (sort_key Name items))"
    if "cn \<in> set (listed ps)" "cn \<notin> stale S"
      "NodeError ''l4_route'' cn (push_status (L4Route_reconcile net now env items (loop S))) = None" for cn
    using utd [OF that(1,2)] that(3) by (simp add: up_to_date_def holds_routes_def routes_request_resolved)
  show "\<exists>ps. l4_step\<^sup>*\<^sup>* S (S \<lparr> loop := L4Route_reconcile net now env items (loop S), running := Some ps \<rparr>) \<and>
      pass_over ps \<and> read_env ps = env \<and> read_items ps = items \<and> cleared ps = {} \<and>
      listed ps = map PeerCommonName (List_nodes ''l4lb'' (nodes_in S)) \<and>
      (\<forall>cn \<in> set (listed ps). cn \<notin> stale S \<longrightarrow>
        NodeError ''l4_route'' cn (push_status (L4Route_reconcile net now env items (loop S))) = None \<longrightarrow>
        PortRoutes (dyn (l4lbs (L4Route_reconcile net now env items (loop S)) cn)) =
          map route_of_target (resolved env (sort_key Name items)))"
    by (intro exI [of _ ps] conjI ballI impI) (fact ps good)+
qed

text \<open>
  The first exception is a window of the program: \<open>Add\<close> lists a node before the callback forgets, and a pass
  of the ticker that comes between skips a node started anew. It keeps whatever it started
  with, and no failure is recorded.
\<close>

lemma pushed_kept:
  "map_of (pushed s) cn = Some fp \<Longrightarrow>
     let s' = fold (push_routes net now req fp) cns s in
     map_of (pushed s') cn = Some fp \<and> l4lbs s' cn = l4lbs s cn \<and>
     NodeError ''l4_route'' cn (push_status s') = NodeError ''l4_route'' cn (push_status s)"
proof (induction cns arbitrary: s)
  case (Cons m cns)
  let ?s = "push_routes net now req fp m s"
  have "map_of (pushed ?s) cn = Some fp \<and> l4lbs ?s cn = l4lbs s cn \<and>
      NodeError ''l4_route'' cn (push_status ?s) = NodeError ''l4_route'' cn (push_status s)"
  proof (cases "m = cn")
    case False
    obtain err w where "call_SetPortRoutes net m req (l4lbs s) = (err, w)" by fastforce
    then show ?thesis
      using False Cons.prems call_other [of cn m net req "l4lbs s"]
      by (auto simp: push_routes_def push_call_def push_record_def NodeError_Record split: option.split)
  qed (use Cons.prems in \<open>simp add: push_routes_def\<close>)
  then show ?case using Cons.IH [of ?s] by (simp add: Let_def)
qed simp

lemma restarted_node_skipped:
  assumes idle: "running S = None" and cn: "PeerCommonName p = cn"
    and same: "map_of (pushed (loop S)) cn = Some fp" "fingerprint (routes_request env items) = Ok fp"
    and clean: "NodeError ''l4_route'' cn (push_status (loop S)) = None"
    and env: "inventory_of env = fst (Add ''l4lb'' p (nodes_in S))"
  shows "\<exists>S' ps. l4_step\<^sup>*\<^sup>* S S' \<and> running S' = Some ps \<and> pass_over ps \<and> cn \<in> set (listed ps) \<and>
    read_env ps = env \<and> read_items ps = items \<and>
    l4lbs (loop S') cn = c \<and> NodeError ''l4_route'' cn (push_status (loop S')) = None"
proof -
  let ?s = "(loop S) \<lparr> l4lbs := (l4lbs (loop S))(cn := c) \<rparr>"
  let ?T = "S \<lparr> loop := ?s, stale := insert cn (stale S) \<rparr>"
  let ?U = "?T \<lparr> nodes_in := fst (Add ''l4lb'' p (nodes_in ?T)), connecting := connecting ?T @ [(''l4lb'', p)] \<rparr>"
  obtain ps where ps: "l4_step\<^sup>*\<^sup>* ?U (?U \<lparr> loop := L4Route_reconcile net now env items (loop ?U), running := Some ps \<rparr>)"
    "pass_over ps" "read_env ps = env" "read_items ps = items" "cleared ps = {}"
    "listed ps = map PeerCommonName (List_nodes ''l4lb'' (nodes_in ?U))"
    by (rule pass_begins_and_runs [of ?U env net now items]) (use idle env in simp_all)
  have "l4_step\<^sup>*\<^sup>* S ?U"
    by (rule converse_rtranclp_into_rtranclp [of l4_step S ?T]) (rule l4_step.restarts, rule r_into_rtranclp, rule l4_step.lists)
  from rtranclp_trans [OF this ps(1)] have run: "l4_step\<^sup>*\<^sup>* S (?U \<lparr> loop := L4Route_reconcile net now env items ?s, running := Some ps \<rparr>)"
    by simp
  have "p \<in> set (List_nodes ''l4lb'' (nodes_in ?U))"
    by (simp add: List_nodes_def Add_def Let_def slice_at_def)
  then have "cn \<in> set (listed ps)" unfolding ps(6) using cn by auto
  moreover obtain fp' where "fingerprint (routes_request env items) = Ok fp'" "L4Route_reconcile net now env items ?s =
      fold (push_routes net now (routes_request env items) fp') (map PeerCommonName (List_nodes ''l4lb'' (inventory_of env))) ?s"
    by (rule reconcile_fold)
  then have "l4lbs (L4Route_reconcile net now env items ?s) cn = c"
    "NodeError ''l4_route'' cn (push_status (L4Route_reconcile net now env items ?s)) = None"
    using pushed_kept [of ?s cn fp net now "routes_request env items" "map PeerCommonName (List_nodes ''l4lb'' (inventory_of env))"]
      same clean by (simp_all add: Let_def)
  ultimately show ?thesis
    using run ps(2-4)
    by (intro exI [of _ "?U \<lparr> loop := L4Route_reconcile net now env items ?s, running := Some ps \<rparr>"] exI [of _ ps]) simp
qed

section \<open>A concrete control plane\<close>

definition example_w1 :: peer where
  "example_w1 = \<lparr> peer_id = 1, PeerCommonName = ''w1.workload'' \<rparr>"

definition example_lb :: peer where
  "example_lb = \<lparr> peer_id = 2, PeerCommonName = ''lb.l4lb'' \<rparr>"

definition example_report :: stat_batch where
  "example_report =
     [\<lparr> NetworkSpec = Some [Some \<lparr> ifName = ''eth0'', ifMtu = 1500, ifMac = ''02:00:00:00:00:07'', ifFlags = 0,
          ifIps = [''10.0.0.7/24''] \<rparr>], CdnAppRealtime = None \<rparr>,
      \<lparr> NetworkSpec = None, CdnAppRealtime = Some \<lparr> appVip = None, BoundIfaces = Some [''eth0''], Appstat = None, LbId = None \<rparr> \<rparr>]"

definition example_surroundings :: surroundings where
  "example_surroundings =
     \<lparr> inventory_of = fst (Add ''workload'' example_w1 (fst (Add ''l4lb'' example_lb New_broker))),
       cache_of = cache_Set ''w1.workload'' example_report NewCache, parse_v6 = (\<lambda>_. None) \<rparr>"

definition example_network :: "example_kernel network" where
  "example_network =
     \<lparr> delivered = (\<lambda>_. Delivered), error_text = (\<lambda>_. ''refused''), node_of = (\<lambda>_. example_node),
       parse_at = (\<lambda>_ _. None) \<rparr>"

definition example_loop :: "example_kernel l4_loop" where
  "example_loop = \<lparr> pushed = [], push_status = NewStatus, l4lbs = (\<lambda>_. example_start) \<rparr>"

text \<open>A control plane to which a load balancer and a workload node have connected.\<close>

definition example_system :: "example_kernel l4_system" where
  "example_system = (l4_start (\<lambda>_. example_start)) \<lparr> nodes_in := inventory_of example_surroundings \<rparr>"

lemma example_system_reachable: "l4_reachable example_system"
proof -
  let ?start = "l4_start (\<lambda>_. example_start)"
  let ?b = "fst (Add ''l4lb'' example_lb New_broker)"
  let ?A = "?start \<lparr> nodes_in := ?b, connecting := [(''l4lb'', example_lb)] \<rparr>"
  let ?B = "?start \<lparr> nodes_in := ?b \<rparr>"
  let ?C = "?start \<lparr> nodes_in := inventory_of example_surroundings, connecting := [(''workload'', example_w1)] \<rparr>"
  have "l4_step ?start ?A" "l4_step ?B ?C"
    using l4_step.lists [of ?start "''l4lb''" example_lb] l4_step.lists [of ?B "''workload''" example_w1]
    by (simp_all add: l4_start_def example_surroundings_def)
  moreover have "l4_step ?A ?B" "l4_step ?C example_system"
    using l4_step.forgets [of "''l4lb''" example_lb ?A] l4_step.forgets [of "''workload''" example_w1 ?C]
    by (simp_all add: l4_start_def L4Route_onConnect_def example_system_def)
  ultimately have "l4_step\<^sup>*\<^sup>* ?start example_system"
    by (meson converse_rtranclp_into_rtranclp r_into_rtranclp)
  then show ?thesis by (auto simp: l4_reachable_def)
qed

definition example_store :: "l4_route handlers" where
  "example_store = fst (service_Apply None empty_surroundings (example_route ''a'') New_handlers)"

lemma example_store_reachable: "service_reachable example_store" "Desired example_store = [example_route ''a'']"
proof -
  show "service_reachable example_store"
    unfolding example_store_def
    by (rule service_reachable.applied [OF service_reachable.new, of None empty_surroundings "example_route ''a''" _
          "fst (snd (service_Apply None empty_surroundings (example_route ''a'') New_handlers))"
          "snd (snd (service_Apply None empty_surroundings (example_route ''a'') New_handlers))"]) simp
  show "Desired example_store = [example_route ''a'']"
    unfolding example_store_def service_Apply_def example_checks apply_commit_def
    by (simp add: store_Apply_def New_handlers_def Desired_def Let_def)
qed

lemma example_texts:
  "ParseMAC ''02:00:00:00:00:07'' = Some [2, 0, 0, 0, 0, 7]"
  "ParsePrefix p6 ''10.0.0.7/24'' = Some (Prefix (IPv4 10 0 0 7) 24)"
  by (simp add: ParseMAC_def hex_octet_def hex_digit_def Let_def)
    (simp add: ParsePrefix_def cut_last_def ParseAddr_def parse4_def parse_octet_def parse_bits_def is_digit_def
      decimal_value_def digit_value_def)

lemma example_address: "NodeAddr p6 (Some example_report) = Ok example_dest"
  by (simp add: NodeAddr_def node_addr_loop_def example_report_def bound_interface_def NetworkSpec_FromProto_def
      InterfaceSpec_FromProto_def example_texts GetDestEntry_def example_dest_def)

lemma example_node_found: "Resolve_node ''workload/w1'' (inventory_of example_surroundings) = Ok example_w1"
  by (simp add: Resolve_node_def Find_def typed_peers_def example_surroundings_def Add_def New_broker_def slice_at_def
      Let_def example_w1_def example_lb_def split_selector_def nodeLabel_def)

lemma example_resolves:
  "resolved example_surroundings [example_route ''a''] =
     [\<lparr> tName = ''a'', tProto = ''tcp'', tPort = 80, tNode = ''w1.workload'', tDest = example_dest \<rparr>]"
proof -
  have "cache_Get ''w1.workload'' (cache_of example_surroundings) = example_report"
    by (simp add: example_surroundings_def cache_Get_def cache_Set_def NewCache_def)
  then show ?thesis
    using example_address example_node_found
    by (simp add: resolved_def Resolve_route_def example_route_def example_port) (simp add: example_w1_def)
qed

lemma example_request:
  "map route_of_msg (routes_request example_surroundings [example_route ''a'']) =
     [\<lparr> pr_Proto = IPPROTO_TCP, pr_Port = 80, pr_Dest = example_dest \<rparr>]"
  by (simp add: routes_request_resolved example_resolves route_of_target_def proto_number_def)

theorem declared_routes_accepted_witness:
  "\<exists>rs out. read_routes (\<lambda>_. None) (routes_request example_surroundings (Desired example_store)) = Ok rs \<and>
     convert_routes rs = Ok out \<and> ValidatePortRoutes out = Ok () \<and>
     set out = {\<lparr> pr_Proto = IPPROTO_TCP, pr_Port = 80, pr_Dest = example_dest \<rparr>}"
proof -
  have "length (routes_request example_surroundings (Desired example_store)) = 1"
    using arg_cong [OF example_request, of length] by (simp add: example_store_reachable(2))
  then have "length (routes_request example_surroundings (Desired example_store)) \<le> PORT_ROUTE_MAP_SIZE"
    by (simp add: PORT_ROUTE_MAP_SIZE_def)
  from declared_routes_accepted [OF example_store_reachable(1) this, of "\<lambda>_. None"]
  obtain rs out where "read_routes (\<lambda>_. None) (routes_request example_surroundings (Desired example_store)) = Ok rs"
    "convert_routes rs = Ok out" "ValidatePortRoutes out = Ok ()"
    "set out = route_of_target ` {t. \<exists>it \<in> set (Desired example_store). Resolve_route example_surroundings it = Ok t}"
    by blast
  moreover have "{t. \<exists>it \<in> set (Desired example_store). Resolve_route example_surroundings it = Ok t} =
      {\<lparr> tName = ''a'', tProto = ''tcp'', tPort = 80, tNode = ''w1.workload'', tDest = example_dest \<rparr>}"
    using arg_cong [OF example_resolves, of set] unfolding set_resolved example_store_reachable(2) by simp
  ultimately show ?thesis by (auto simp: route_of_target_def proto_number_def)
qed

theorem l4_pass_converges_witness:
  "PortRoutes (dyn (l4lbs (L4Route_reconcile example_network 0 example_surroundings [example_route ''a''] example_loop)
      ''lb.l4lb'')) = [\<lparr> pr_Proto = IPPROTO_TCP, pr_Port = 80, pr_Dest = example_dest \<rparr>] \<and>
   (\<exists>ps. l4_step\<^sup>*\<^sup>* example_system (example_system \<lparr> loop :=
      L4Route_reconcile example_network 0 example_surroundings [example_route ''a''] example_loop, running := Some ps \<rparr>) \<and> pass_over ps)"
proof -
  let ?req = "routes_request example_surroundings [example_route ''a'']"
  have cn: "List_nodes ''l4lb'' (inventory_of example_surroundings) = [example_lb]" "PeerCommonName example_lb = ''lb.l4lb''"
    by (simp_all add: List_nodes_def example_surroundings_def Add_def New_broker_def slice_at_def Let_def example_lb_def)
  obtain rs where rs: "read_routes (parse_at example_network ''lb.l4lb'') ?req = Ok rs"
    "convert_routes rs = Ok [\<lparr> pr_Proto = IPPROTO_TCP, pr_Port = 80, pr_Dest = example_dest \<rparr>]"
    using read_convert [of ?req] routes_request_ok unfolding example_request by blast
  obtain c where "SetPortRoutes example_node rs example_start = (Ok (), c)"
  proof
    show "SetPortRoutes example_node rs example_start = (Ok (), snd (SetPortRoutes example_node rs example_start))"
      using example_results(2) rs(2) by (intro prod_eqI) (simp_all add: SetPortRoutes_def example_dest_def)
  qed
  then have "call_SetPortRoutes example_network ''lb.l4lb'' ?req (\<lambda>_. example_start) = (None, (\<lambda>_. example_start)(''lb.l4lb'' := c))"
    using rs(1)
    by (simp add: call_SetPortRoutes_def rpc_SetPortRoutes_def example_network_def)
  moreover obtain fp where "fingerprint ?req = Ok fp" using fingerprint_Ok routes_request_ok by blast
  ultimately have "NodeError ''l4_route'' ''lb.l4lb''
      (push_status (L4Route_reconcile example_network 0 example_surroundings [example_route ''a''] example_loop)) = None"
    by (simp add: L4Route_reconcile_def cn push_routes_def push_call_def push_record_def example_loop_def NodeError_Record NewStatus_def NodeError_def [of _ _ "[]"]
        split: prod.split)
  moreover have sys: "running example_system = None" "stale example_system = {}" "loop example_system = example_loop"
    "nodes_in example_system = inventory_of example_surroundings"
    by (simp_all add: example_system_def l4_start_def example_loop_def)
  ultimately show ?thesis
    using conjunct2 [OF conjunct2 [OF l4_pass_converges [OF example_system_reachable]], rule_format,
      of example_surroundings example_network 0 "[example_route ''a'']"] cn
    by (auto simp: example_resolves route_of_target_def proto_number_def)
qed

end
