(* ===== verification/Spec2Isabelle.thy ===== *)
theory Spec2Isabelle
  imports Authority_Policies Http2_Frame_Laws Http2_Flow Broker_Laws Desired_Store L4_Reconcile
begin

text \<open>
  kscale is a control plane and its data planes: a control plane that authenticates and authorises
  administrators and nodes, keeps the declared state of the fleet and pushes it to the nodes over a
  HTTP/2 based RPC, and nodes that balance (l4lb), cache (popcache), answer DNS and run workloads. This
  library models the parts that decide: who may do what, what is stored, what is sent, and that what was
  declared is what a node ends up with.

  Access control (directory \<open>access\<close>). \<open>Authority\<close> is the tree of authorities of \<open>access/authority.go\<close>, a
  heap of nodes reached by pointers, with the operations of its root; \<open>authority_names_agree\<close> is its invariant
  and the operations refine a set of live paths. \<open>Attributes\<close> holds the attributes a policy reads and their
  resolution. \<open>Go_Literals\<close> is what the policy language takes from the Go package \<open>strconv\<close>. \<open>Conditions\<close> models
  nineteen comparison operations of \<open>access/policy/compare.go\<close>, each with its four constructors, and
  \<open>Comparison_Laws\<close> relates them to each other. \<open>Policies\<close> has policies, decisions, the audit and the access
  controller of \<open>access/access.go\<close>; \<open>Policy_Laws\<close> proves that it always answers, with the boolean meaning of the
  policies. \<open>Policy_Parser\<close> is \<open>access/policy/parser.go\<close>; its recursion through parentheses runs on fuel, one
  more than the length of the text, which \<open>Policy_Parser_Laws\<close> shows to be enough (\<open>ParsePolicy_total\<close>), and
  \<open>Policy_Roundtrip\<close> proves that printed policies parse back. \<open>Authority_Policies\<close> follows a predefined policy
  from its text to the decision.

  Transport (\<open>protobuf/wire/h2\<close>). \<open>Hpack_Integer\<close>, \<open>Hpack_Huffman\<close>, \<open>Hpack_Strings\<close> and \<open>Hpack_Table\<close> model
  header compression: prefixed integers, the Huffman tree and code table, string literals, the static and dynamic
  tables and the packing of header blocks. The locale \<open>prefix_codec\<close> is the contract of the integer codecs and
  \<open>stateful_codec\<close> the one of a pair of tables; both are interpreted on the models of the code, and
  \<open>Hpack_Table_Laws\<close> ends with \<open>PackHeader_DecodeFields\<close>: what one side packs the other decodes, and their
  tables stay equal. The loops of the Huffman decoder recurse on the remaining bits and need no fuel.
  \<open>Http2_Frame\<close> models the frames of \<open>http2_frame.go\<close>, each with its \<open>Append\<close> and \<open>Decode\<close>, and \<open>Http2_Frame_Laws\<close>
  proves that they round-trip and which never decode. \<open>Http2_Conn\<close> is the connection of \<open>http2_conn.go\<close>: one record
  for the state behind the connection's lock, stream objects in a heap reached by position, one definition
  per method and one per step of the long handlers. \<open>Http2_Decode\<close> has the read buffer and the loop of \<open>Decode\<close>, a
  terminating function; \<open>Http2_Decode_Laws\<close> proves that it parses one byte stream (\<open>frames\<close>), however the bytes are
  cut, but for one case. \<open>Http2_Conn_Laws\<close> states what the handlers keep: the locale \<open>kept_by_frames\<close> lifts what
  holds of one frame to \<open>Decode\<close>, and is interpreted on the life cycle of streams and on the routing table.
  \<open>Http2_Life\<close> runs a connection, any calls and any bytes in any order, as a step relation. \<open>Http2_Flow\<close> is about
  what one side writes and the other reads: header blocks, data and window updates. \<open>Write\<close> and
  \<open>appendContinuation\<close> run on fuel, one more than the bytes left: \<open>Write_ends\<close> and \<open>appendContinuation_headers\<close>
  show that it is enough.

  Control plane. \<open>Broker\<close> is the inventory of connected nodes and agents (\<open>dpbroker\<close>), with the goroutines that
  watch connections as a step relation; \<open>Broker_Laws\<close> has its invariant and the laws of node selectors.
  \<open>Desired_Store\<close> is the store generated for every declarative resource and the manager that persists all stores
  in one encrypted file (\<open>desiredstate\<close>, \<open>ca/storage/util.go\<close>): the locale \<open>keyed_store\<close> is what its clients rely on,
  interpreted as \<open>stores\<close>. Encryption, hashing and JSON are parameters, with the laws they are documented to have
  in \<open>platform_ok\<close>, and \<open>desired_state_survives_restart\<close> follows from those.

  Layer-4 routes, from declaration to kernel. \<open>Net_Addresses\<close> is what the code takes from \<open>net/netip\<close> and \<open>net\<close>;
  parsing the text of IPv6 addresses is an argument, on which nothing depends. \<open>Dest_Entries\<close> reads reported
  statistics (\<open>stat\<close>, \<open>service/stats\<close>). \<open>L4_Routes\<close> is the resource \<open>l4_route\<close> (\<open>service/l4route\<close>) with the record of
  pushes (\<open>reconcile/status.go\<close>); \<open>L4_Routes_Laws\<close> proves that stored routes never conflict when requests
  come one after the other, and, over a step relation for requests at the same time (\<open>apply_step\<close>), that
  they can when requests interleave. \<open>L4lb_Driver\<close> is the load balancer node
  (\<open>l4lb/control\<close>, \<open>l4lb/l4lbdrv\<close>, the RPCs of \<open>dataplane\<close>); the eBPF maps are a parameter with the documented
  behaviour \<open>ebpf_ok\<close>, and \<open>L4lb_Driver_Laws\<close> proves that the kernel's tables are the ones of the configuration, and
  when port routes fit. \<open>L4_Reconcile\<close> is the loop that pushes routes (\<open>reconcile/l4route.go\<close>) over a lossy
  network: the locale \<open>push_loop\<close> is what such loops share; the step relation \<open>l4_step\<close> lets passes, callbacks of
  the broker, nodes that start anew, connect, leave and change interleave, one lock section or one call at a time, and
  \<open>l4_pass_converges\<close> and \<open>declared_routes_accepted\<close> join all of the above. \<open>restarted_node_skipped\<close> shows the window in
  which a node started anew is skipped: from its listing until its connection's callback has run.

  Conventions. \<open>Kscale_Prelude\<close> has the outcome of a Go function (a value, an error, a panic), strings and maps. A
  Go map is an association list with distinct keys whose order stands for the iteration order. Machine integers
  are words; Go's \<open>int\<close> is a 64-bit integer. Errors carry what the code puts in their text, not the text.
  Operations under a mutex are atomic; where the code releases the lock between two steps, they are two definitions.

  Not modelled. Generated code: the protobuf messages and services (\<open>protobuf/proto\<close>, \<open>protobuf/reference\<close>), the other
  wire formats generated from \<open>.bgn\<close> files (\<open>popcache/edge/request_info.go\<close>, \<open>rpc/wire\<close>
  and the like), the predefined resources (\<open>access/predefined\<close>). Programs and tools (\<open>cmd\<close>, \<open>client\<close>, \<open>e2e\<close>,
  \<open>script\<close>, \<open>nodewatch\<close>, the generators) and thin adapters of external services (\<open>cri\<close>, \<open>alert\<close>, \<open>geoloc\<close>, \<open>probe\<close>,
  \<open>router/dev\<close>, \<open>service/acme\<close>). Code in other languages (\<open>edge_app\<close>, \<open>l4lb/c\<close>). Of the comparison operations, those on
  floats, durations, times, addresses, globs and regular expressions. Errors of the operating system and of
  libraries that the code only passes on or drops: reading a file other than its absence (\<open>manager_Load\<close>), \<open>json.Marshal\<close>
  (\<open>manager_snapshot\<close>), \<open>rand.Read\<close> (\<open>EncryptAESGCM\<close>). \<open>ToAbsolutePaths\<close> in \<open>drv.go\<close>, and values that unwrap themselves in
  \<open>GetValue\<close>, of which the repository has none. The law of JSON in \<open>platform_ok\<close> speaks of all names; only the registered ones,
  constants of the program, reach it. A call of \<open>SetPortRoutes\<close> that fails has reached the node before it failed or
  never does.
\<close>

end
